(* ===== verification/Prelude.thy ===== *)
theory Prelude
  imports Main "HOL-Library.Word" "HOL-Library.Finite_Map"
begin

text \<open>
  Shared vocabulary of the development.

  \<^item> \<open>result\<close>: the outcome of a Go call: a value, a returned \<open>error\<close>, or a panic.
  \<^item> \<open>act\<close>: a Go method on a mutable receiver.  The receiver's state is returned on
    \<^emph>\<open>every\<close> outcome, because a Go method that returns an error keeps the writes it made
    before the error; that a failed call leaves nothing behind has to be proved.
  \<^item> \<open>gomap\<close>: a Go map value, which is either \<open>nil\<close> or a finite map.
  \<^item> lemmas on sums over all addresses and on 64-bit overflow that the components share.
\<close>

section \<open>Collections of rewrite rules\<close>

named_theorems act_simps \<open>decomposition of successful actions\<close>
named_theorems gomap_simps \<open>laws of Go maps\<close>
named_theorems word_nat_simps \<open>64-bit arithmetic read as natural numbers\<close>

section \<open>Outcomes and actions\<close>

type_synonym u64 = "64 word"
type_synonym u16 = "16 word"
type_synonym i64 = "64 word"

datatype ('e, 'a) result = Ok 'a | Err 'e | Panic 'e

type_synonym ('s, 'e, 'a) act = "'s \<Rightarrow> ('e, 'a) result \<times> 's"

definition act_return :: "'a \<Rightarrow> ('s, 'e, 'a) act" where
  "act_return a s = (Ok a, s)"

definition act_err :: "'e \<Rightarrow> ('s, 'e, 'a) act" where
  "act_err e s = (Err e, s)"

definition act_panic :: "'e \<Rightarrow> ('s, 'e, 'a) act" where
  "act_panic e s = (Panic e, s)"

definition act_lift :: "('e, 'a) result \<Rightarrow> ('s, 'e, 'a) act" where
  "act_lift r s = (r, s)"

definition act_read :: "('s \<Rightarrow> 'a) \<Rightarrow> ('s, 'e, 'a) act" where
  "act_read f s = (Ok (f s), s)"

definition act_modify :: "('s \<Rightarrow> 's) \<Rightarrow> ('s, 'e, unit) act" where
  "act_modify f s = (Ok (), f s)"

definition act_bind :: "('s, 'e, 'a) act \<Rightarrow> ('a \<Rightarrow> ('s, 'e, 'b) act) \<Rightarrow> ('s, 'e, 'b) act" where
  "act_bind m f s =
     (case m s of
        (Ok a, s1) \<Rightarrow> f a s1
      | (Err e, s1) \<Rightarrow> (Err e, s1)
      | (Panic e, s1) \<Rightarrow> (Panic e, s1))"

definition act_guard :: "bool \<Rightarrow> 'e \<Rightarrow> ('s, 'e, unit) act" where
  "act_guard ok e = (if ok then act_return () else act_err e)"

definition act_when :: "bool \<Rightarrow> ('s, 'e, unit) act \<Rightarrow> ('s, 'e, unit) act" where
  "act_when c m = (if c then m else act_return ())"

fun act_each :: "('a \<Rightarrow> ('s, 'e, unit) act) \<Rightarrow> 'a list \<Rightarrow> ('s, 'e, unit) act" where
  "act_each f [] = act_return ()"
| "act_each f (x # xs) = act_bind (f x) (\<lambda>_. act_each f xs)"

definition res_bind :: "('e, 'a) result \<Rightarrow> ('a \<Rightarrow> ('e, 'b) result) \<Rightarrow> ('e, 'b) result" where
  "res_bind r f = (case r of Ok a \<Rightarrow> f a | Err e \<Rightarrow> Err e | Panic e \<Rightarrow> Panic e)"

definition res_guard :: "bool \<Rightarrow> 'e \<Rightarrow> ('e, unit) result" where
  "res_guard ok e = (if ok then Ok () else Err e)"

lemma act_bind_Ok [act_simps]:
  "act_bind m f s = (Ok b, s') \<longleftrightarrow> (\<exists>a s1. m s = (Ok a, s1) \<and> f a s1 = (Ok b, s'))"
  by (auto simp: act_bind_def split: prod.splits result.splits)

lemma act_bind_eq: "m s = (Ok a, s1) \<Longrightarrow> act_bind m f s = f a s1"
  by (simp add: act_bind_def)

lemma act_return_Ok [act_simps]: "act_return a s = (Ok b, s') \<longleftrightarrow> b = a \<and> s' = s"
  by (auto simp: act_return_def)

lemma act_err_Ok [act_simps]: "act_err e s = (Ok b, s') \<longleftrightarrow> False"
  by (simp add: act_err_def)

lemma act_panic_Ok [act_simps]: "act_panic e s = (Ok b, s') \<longleftrightarrow> False"
  by (simp add: act_panic_def)

lemma act_lift_Ok [act_simps]: "act_lift r s = (Ok b, s') \<longleftrightarrow> r = Ok b \<and> s' = s"
  by (auto simp: act_lift_def)

lemma act_read_Ok [act_simps]: "act_read f s = (Ok b, s') \<longleftrightarrow> b = f s \<and> s' = s"
  by (auto simp: act_read_def)

lemma act_modify_Ok [act_simps]: "act_modify f s = (Ok b, s') \<longleftrightarrow> s' = f s"
  by (auto simp: act_modify_def)

lemma act_guard_Ok [act_simps]: "act_guard c e s = (Ok b, s') \<longleftrightarrow> c \<and> s' = s"
  by (auto simp: act_guard_def act_return_def act_err_def)

lemma act_when_Ok [act_simps]:
  "act_when c m s = (Ok b, s') \<longleftrightarrow> (if c then m s = (Ok b, s') else s' = s)"
  by (auto simp: act_when_def act_return_def)

text \<open>Branching actions, in a form that keeps the witnesses of each branch together.\<close>

lemma act_if_Ok [act_simps]:
  "(if c then f else g) s = (Ok b, s') \<longleftrightarrow> c \<and> f s = (Ok b, s') \<or> \<not> c \<and> g s = (Ok b, s')"
  by simp

lemma act_case_option_Ok [act_simps]:
  "(case x of None \<Rightarrow> f | Some y \<Rightarrow> g y) s = (Ok b, s') \<longleftrightarrow>
     x = None \<and> f s = (Ok b, s') \<or> (\<exists>y. x = Some y \<and> g y s = (Ok b, s'))"
  by (cases x) simp_all

lemma act_case_prod_Ok [act_simps]:
  "(case x of (y, z) \<Rightarrow> f y z) s = (Ok b, s') \<longleftrightarrow> (\<exists>y z. x = (y, z) \<and> f y z s = (Ok b, s'))"
  by (cases x) simp

lemma res_bind_Ok [act_simps]:
  "res_bind r f = Ok b \<longleftrightarrow> (\<exists>a. r = Ok a \<and> f a = Ok b)"
  by (auto simp: res_bind_def split: result.splits)

lemma res_bind_cong [fundef_cong]:
  "r = r' \<Longrightarrow> (\<And>a. r' = Ok a \<Longrightarrow> f a = g a) \<Longrightarrow> res_bind r f = res_bind r' g"
  by (auto simp: res_bind_def split: result.splits)

lemma res_guard_Ok [act_simps]: "res_guard c e = Ok u \<longleftrightarrow> c"
  by (auto simp: res_guard_def)

text \<open>What every step of a loop keeps, the whole loop keeps.\<close>

lemma act_each_invariant:
  assumes "act_each f xs s = (Ok u, s')"
    and "\<And>x s u s'. x \<in> set xs \<Longrightarrow> f x s = (Ok u, s') \<Longrightarrow> P s \<Longrightarrow> P s'"
    and "P s"
  shows "P s'"
  using assms
proof (induction xs arbitrary: s)
  case Nil
  then show ?case by (simp add: act_simps)
next
  case (Cons x xs)
  from Cons.prems(1) obtain u1 s1 where
    s1: "f x s = (Ok u1, s1)" and rest: "act_each f xs s1 = (Ok u, s')"
    by (auto simp: act_simps)
  have "P s1" using Cons.prems(2) [OF _ s1] Cons.prems(3) by simp
  from rest _ this show ?case
    by (rule Cons.IH) (use Cons.prems(2) in \<open>simp, blast\<close>)
qed

section \<open>Go maps\<close>

type_synonym ('k, 'v) gomap = "('k, 'v) fmap option"

definition gget :: "('k, 'v) gomap \<Rightarrow> 'k \<Rightarrow> 'v option" where
  "gget m k = (case m of None \<Rightarrow> None | Some f \<Rightarrow> fmlookup f k)"

definition gclone :: "('k, 'v) gomap \<Rightarrow> ('k, 'v) gomap" where
  "gclone m = Some (case m of None \<Rightarrow> fmempty | Some f \<Rightarrow> f)"

definition gupd :: "'k \<Rightarrow> 'v \<Rightarrow> ('k, 'v) gomap \<Rightarrow> ('k, 'v) gomap" where
  "gupd k v m = map_option (fmupd k v) m"

definition gdel :: "'k \<Rightarrow> ('k, 'v) gomap \<Rightarrow> ('k, 'v) gomap" where
  "gdel k m = map_option (fmdrop k) m"

definition gdom :: "('k, 'v) gomap \<Rightarrow> 'k fset" where
  "gdom m = (case m of None \<Rightarrow> {||} | Some f \<Rightarrow> fmdom f)"

definition glen :: "('k, 'v) gomap \<Rightarrow> nat" where
  "glen m = fcard (gdom m)"

lemma gget_None [simp]: "gget None k = None"
  by (simp add: gget_def)

lemma gget_Some [simp]: "gget (Some f) k = fmlookup f k"
  by (simp add: gget_def)

lemma gget_gclone [simp, gomap_simps]: "gget (gclone m) k = gget m k"
  by (simp add: gget_def gclone_def split: option.splits)

lemma gclone_not_nil [simp]: "gclone m \<noteq> None"
  by (simp add: gclone_def)

lemma gget_gupd_clone [simp, gomap_simps]:
  "gget (gupd k v (gclone m)) k' = (if k' = k then Some v else gget m k')"
  by (auto simp: gupd_def gclone_def gget_def split: option.splits)

lemma gget_gdel_clone [simp, gomap_simps]:
  "gget (gdel k (gclone m)) k' = (if k' = k then None else gget m k')"
  by (auto simp: gdel_def gclone_def gget_def split: option.splits)

lemma gget_dom: "gget m k \<noteq> None \<longleftrightarrow> k |\<in>| gdom m"
  by (auto simp: gget_def gdom_def fmlookup_dom_iff split: option.splits)

lemma gget_eq_None_iff: "gget m k = None \<longleftrightarrow> k |\<notin>| gdom m"
  using gget_dom [of m k] by blast

lemma glen_0_iff: "glen m = 0 \<longleftrightarrow> (\<forall>k. gget m k = None)"
  by (auto simp: glen_def gget_eq_None_iff)

section \<open>Slices\<close>

text \<open>A Go slice that the code compares with \<open>nil\<close>; everywhere else a slice is a list.\<close>

type_synonym byte = "8 word"
type_synonym 'a slice = "'a list option"

definition elems :: "'a slice \<Rightarrow> 'a list" where
  "elems s = (case s of None \<Rightarrow> [] | Some xs \<Rightarrow> xs)"

lemma elems_simps [simp]: "elems None = []" "elems (Some xs) = xs"
  by (simp_all add: elems_def)

section \<open>Sums over a finite index type\<close>

lemma sum_fun_upd_UNIV:
  fixes f :: "'b \<Rightarrow> nat" and m :: "'a :: finite \<Rightarrow> 'b"
  shows "(\<Sum>x\<in>UNIV. f ((m(a := v)) x)) + f (m a) = (\<Sum>x\<in>UNIV. f (m x)) + f v"
proof -
  have upd: "(\<Sum>x\<in>UNIV. f ((m(a := v)) x)) = f v + (\<Sum>x\<in>UNIV - {a}. f (m x))"
    by (subst sum.remove [of _ a]) auto
  have old: "(\<Sum>x\<in>UNIV. f (m x)) = f (m a) + (\<Sum>x\<in>UNIV - {a}. f (m x))"
    by (subst sum.remove [of _ a]) auto
  show ?thesis using upd old by simp
qed

lemma sum_fun_upd_same:
  fixes f :: "'b \<Rightarrow> nat" and m :: "'a :: finite \<Rightarrow> 'b"
  assumes "f v = f (m a)"
  shows "(\<Sum>x\<in>UNIV. f ((m(a := v)) x)) = (\<Sum>x\<in>UNIV. f (m x))"
  using sum_fun_upd_UNIV [of f m a v] assms by simp

section \<open>64-bit arithmetic\<close>

lemma unat_add_no_wrap [word_nat_simps]:
  fixes a b :: "'a :: len word"
  shows "\<not> a + b < a \<Longrightarrow> unat (a + b) = unat a + unat b"
  by (simp add: not_less unat_plus_simple)

lemma add_wrap_iff:
  fixes a b :: "'a :: len word"
  shows "a + b < a \<longleftrightarrow> 2 ^ LENGTH('a) \<le> unat a + unat b"
  by (metis no_olen_add_nat not_le not_less)

lemma sub_wrap_iff:
  fixes a b :: "'a :: len word"
  shows "a < a - b \<longleftrightarrow> unat a < unat b"
  by (metis not_le word_less_nat_alt word_sub_le_iff word_le_nat_alt)

lemma unat_sub_no_wrap [word_nat_simps]:
  fixes a b :: "'a :: len word"
  shows "\<not> a < a - b \<Longrightarrow> unat (a - b) = unat a - unat b \<and> unat b \<le> unat a"
  by (metis not_le sub_wrap_iff unat_sub word_le_nat_alt)

lemma unat_Suc_below: "(x :: u64) < y \<Longrightarrow> unat (x + 1) = Suc (unat x)"
proof -
  assume "x < y"
  moreover have "unat y < 2 ^ 64" by (rule order_less_le_trans [OF unsigned_less]) simp
  ultimately show ?thesis by (simp add: unat_word_ariths word_less_nat_alt)
qed

lemma unat_add_of_nat: "unat (x :: u64) + n < 2 ^ 64 \<Longrightarrow> unat (x + of_nat n) = unat x + n"
  by (simp add: unat_word_ariths unat_of_nat take_bit_eq_mod mod_simps)

lemma mul_div_no_wrap:
  fixes a b :: "'a :: len word"
  assumes "b \<noteq> 0"
  shows "a * b div b = a \<longleftrightarrow> unat a * unat b < 2 ^ LENGTH('a)"
proof
  have pos: "0 < unat b" using assms by (simp add: unat_gt_0)
  {
    assume fits: "unat a * unat b < 2 ^ LENGTH('a)"
    then have "unat (a * b) = unat a * unat b"
      by (simp add: unat_word_ariths)
    then have "unat (a * b div b) = unat a"
      using pos by (simp add: unat_div)
    then show "a * b div b = a" by (simp add: word_unat_eq_iff)
  next
    assume "a * b div b = a"
    then have "unat (a * b) div unat b = unat a"
      by (metis unat_div)
    then have "unat a * unat b \<le> unat (a * b)"
      using pos by (metis div_times_less_eq_dividend)
    also have "\<dots> < 2 ^ LENGTH('a)" by (rule unsigned_less)
    finally show "unat a * unat b < 2 ^ LENGTH('a)" .
  }
qed

end
