(* ===== verification/Config.thy ===== *)
theory Config
  imports Prelude
begin

text \<open>
  Consensus parameters and the table of protocol versions
  (\<open>config/config.go\<close>, \<open>protocol/consensus.go\<close>).

  \<open>ConsensusParams\<close> has one field per field of the Go struct.  Go \<open>uint64\<close> is
  \<open>u64\<close>; \<open>int64\<close> is \<open>i64\<close>, a 64-bit word read with \<open>sint\<close>; \<open>int\<close> limits on
  lengths and \<open>time.Duration\<close> constants (in nanoseconds) are \<open>int\<close>.
  \<open>ApprovedUpgrades\<close> is a Go map that the code ranges over; it is an association list,
  in the order in which the range visits it.
\<close>

section \<open>Parameters\<close>

type_synonym ConsensusVersion = string

record ConsensusParams =
  UpgradeVoteRounds :: u64
  UpgradeThreshold :: u64
  UpgradeWaitRounds :: u64
  MaxVersionStringLen :: int
  MaxTxnBytesPerBlock :: int
  MaxTxnNoteBytes :: int
  MaxTxnLife :: u64
  ApprovedUpgrades :: "(ConsensusVersion \<times> bool) list"
  SupportGenesisHash :: bool
  RequireGenesisHash :: bool
  DefaultKeyDilution :: u64
  MinBalance :: u64
  MinTxnFee :: u64
  RewardUnit :: u64
  RewardsRateRefreshInterval :: u64
  SeedLookback :: u64
  SeedRefreshInterval :: u64
  MaxBalLookback :: u64
  NumProposers :: u64
  SoftCommitteeSize :: u64
  SoftCommitteeThreshold :: u64
  CertCommitteeSize :: u64
  CertCommitteeThreshold :: u64
  NextCommitteeSize :: u64
  NextCommitteeThreshold :: u64
  LateCommitteeSize :: u64
  LateCommitteeThreshold :: u64
  RedoCommitteeSize :: u64
  RedoCommitteeThreshold :: u64
  DownCommitteeSize :: u64
  DownCommitteeThreshold :: u64
  FastRecoveryLambda :: int
  FastPartitionRecovery :: bool
  PaysetCommitFlat :: bool
  MaxTimestampIncrement :: i64
  SupportSignedTxnInBlock :: bool
  ForceNonParticipatingFeeSink :: bool
  cpApplyData :: bool
  RewardsInApplyData :: bool
  CredentialDomainSeparationEnabled :: bool
  SupportBecomeNonParticipatingTransactions :: bool
  PendingResidueRewards :: bool
  cpAsset :: bool
  MaxAssetsPerAccount :: int
  MaxAssetNameBytes :: int
  MaxAssetUnitNameBytes :: int
  MaxAssetURLBytes :: int
  cpTxnCounter :: bool
  SupportTxGroups :: bool
  MaxTxGroupSize :: int
  SupportTransactionLeases :: bool
  LogicSigVersion :: u64
  LogicSigMaxSize :: u64
  LogicSigMaxCost :: u64

text \<open>The zero value of the struct, from which a Go composite literal starts.\<close>

definition ConsensusParams_zero :: ConsensusParams where
  "ConsensusParams_zero = \<lparr>
     UpgradeVoteRounds = 0,
     UpgradeThreshold = 0,
     UpgradeWaitRounds = 0,
     MaxVersionStringLen = 0,
     MaxTxnBytesPerBlock = 0,
     MaxTxnNoteBytes = 0,
     MaxTxnLife = 0,
     ApprovedUpgrades = [],
     SupportGenesisHash = False,
     RequireGenesisHash = False,
     DefaultKeyDilution = 0,
     MinBalance = 0,
     MinTxnFee = 0,
     RewardUnit = 0,
     RewardsRateRefreshInterval = 0,
     SeedLookback = 0,
     SeedRefreshInterval = 0,
     MaxBalLookback = 0,
     NumProposers = 0,
     SoftCommitteeSize = 0,
     SoftCommitteeThreshold = 0,
     CertCommitteeSize = 0,
     CertCommitteeThreshold = 0,
     NextCommitteeSize = 0,
     NextCommitteeThreshold = 0,
     LateCommitteeSize = 0,
     LateCommitteeThreshold = 0,
     RedoCommitteeSize = 0,
     RedoCommitteeThreshold = 0,
     DownCommitteeSize = 0,
     DownCommitteeThreshold = 0,
     FastRecoveryLambda = 0,
     FastPartitionRecovery = False,
     PaysetCommitFlat = False,
     MaxTimestampIncrement = 0,
     SupportSignedTxnInBlock = False,
     ForceNonParticipatingFeeSink = False,
     cpApplyData = False,
     RewardsInApplyData = False,
     CredentialDomainSeparationEnabled = False,
     SupportBecomeNonParticipatingTransactions = False,
     PendingResidueRewards = False,
     cpAsset = False,
     MaxAssetsPerAccount = 0,
     MaxAssetNameBytes = 0,
     MaxAssetUnitNameBytes = 0,
     MaxAssetURLBytes = 0,
     cpTxnCounter = False,
     SupportTxGroups = False,
     MaxTxGroupSize = 0,
     SupportTransactionLeases = False,
     LogicSigVersion = 0,
     LogicSigMaxSize = 0,
     LogicSigMaxCost = 0\<rparr>"

section \<open>Version names\<close>

definition ConsensusV7 :: ConsensusVersion where "ConsensusV7 = ''v7''"
definition ConsensusV8 :: ConsensusVersion where "ConsensusV8 = ''v8''"
definition ConsensusV9 :: ConsensusVersion where "ConsensusV9 = ''v9''"
definition ConsensusV10 :: ConsensusVersion where "ConsensusV10 = ''v10''"
definition ConsensusV11 :: ConsensusVersion where "ConsensusV11 = ''v11''"
definition ConsensusV12 :: ConsensusVersion where "ConsensusV12 = ''v12''"
definition ConsensusV13 :: ConsensusVersion where
  "ConsensusV13 = ''https://github.com/algorand/spec/tree/0c8a9dc44d7368cc266d5407b79fb3311f4fc795''"
definition ConsensusV14 :: ConsensusVersion where
  "ConsensusV14 = ''https://github.com/algorand/spec/tree/2526b6ae062b4fe5e163e06e41e1d9b9219135a9''"
definition ConsensusV15 :: ConsensusVersion where
  "ConsensusV15 = ''https://github.com/algorand/spec/tree/a26ed78ed8f834e2b9ccb6eb7d3ee9f629a6e622''"
definition ConsensusV16 :: ConsensusVersion where
  "ConsensusV16 = ''https://github.com/algorand/spec/tree/22726c9dcd12d9cddce4a8bd7e8ccaa707f74101''"
definition ConsensusV17 :: ConsensusVersion where
  "ConsensusV17 = ''https://github.com/algorandfoundation/specs/tree/5615adc36bad610c7f165fa2967f4ecfa75125f0''"
definition ConsensusV18 :: ConsensusVersion where
  "ConsensusV18 = ''https://github.com/algorandfoundation/specs/tree/6c6bd668be0ab14098e51b37e806c509f7b7e31f''"
definition ConsensusV19 :: ConsensusVersion where
  "ConsensusV19 = ''https://github.com/algorandfoundation/specs/tree/03ae4eac54f1325377d0a2df62b5ef7cc08c5e18''"
definition ConsensusFuture :: ConsensusVersion where "ConsensusFuture = ''future''"
definition ConsensusCurrentVersion :: ConsensusVersion where "ConsensusCurrentVersion = ConsensusV19"
definition ConsensusTest0 :: ConsensusVersion where "ConsensusTest0 = ''test0''"
definition ConsensusTest1 :: ConsensusVersion where "ConsensusTest1 = ''test1''"
definition ConsensusTestBigBlocks :: ConsensusVersion where
  "ConsensusTestBigBlocks = ''test-big-blocks''"
definition ConsensusTestRapidRewardRecalculation :: ConsensusVersion where
  "ConsensusTestRapidRewardRecalculation = ''test-fast-reward-recalculation''"

definition ConsensusTestFastUpgrade :: "ConsensusVersion \<Rightarrow> ConsensusVersion" where
  "ConsensusTestFastUpgrade proto = ''test-fast-upgrade-'' @ proto"

section \<open>The production versions\<close>

text \<open>
  \<open>initConsensusProtocols\<close> builds each version from the previous one by assignment.  A
  version's \<open>ApprovedUpgrades\<close> map is created empty and written later, through the shared
  map, once the version it upgrades to exists; the definitions give the final map.
\<close>

definition v7 :: ConsensusParams where
  "v7 = ConsensusParams_zero\<lparr>
     UpgradeVoteRounds := 10000, UpgradeThreshold := 9000, UpgradeWaitRounds := 10000,
     MaxVersionStringLen := 64,
     MinBalance := 10000, MinTxnFee := 1000, MaxTxnLife := 1000, MaxTxnNoteBytes := 1024,
     MaxTxnBytesPerBlock := 1000000, DefaultKeyDilution := 10000,
     MaxTimestampIncrement := 25,
     RewardUnit := 1000000, RewardsRateRefreshInterval := 500000,
     ApprovedUpgrades := [(ConsensusV8, True)],
     NumProposers := 30,
     SoftCommitteeSize := 2500, SoftCommitteeThreshold := 1870,
     CertCommitteeSize := 1000, CertCommitteeThreshold := 720,
     NextCommitteeSize := 10000, NextCommitteeThreshold := 7750,
     LateCommitteeSize := 10000, LateCommitteeThreshold := 7750,
     RedoCommitteeSize := 10000, RedoCommitteeThreshold := 7750,
     DownCommitteeSize := 10000, DownCommitteeThreshold := 7750,
     FastRecoveryLambda := 300000000000,
     SeedLookback := 2, SeedRefreshInterval := 100,
     MaxBalLookback := 320,
     MaxTxGroupSize := 1\<rparr>"

definition v8 :: ConsensusParams where
  "v8 = v7\<lparr>
     SeedRefreshInterval := 80, NumProposers := 9,
     SoftCommitteeSize := 2990, SoftCommitteeThreshold := 2267,
     CertCommitteeSize := 1500, CertCommitteeThreshold := 1112,
     NextCommitteeSize := 5000, NextCommitteeThreshold := 3838,
     LateCommitteeSize := 5000, LateCommitteeThreshold := 3838,
     RedoCommitteeSize := 5000, RedoCommitteeThreshold := 3838,
     DownCommitteeSize := 5000, DownCommitteeThreshold := 3838,
     ApprovedUpgrades := [(ConsensusV9, True)]\<rparr>"

definition v9 :: ConsensusParams where
  "v9 = v8\<lparr>MinBalance := 100000, ApprovedUpgrades := [(ConsensusV10, True)]\<rparr>"

definition v10 :: ConsensusParams where
  "v10 = v9\<lparr>
     FastPartitionRecovery := True, NumProposers := 20,
     LateCommitteeSize := 500, LateCommitteeThreshold := 320,
     RedoCommitteeSize := 2400, RedoCommitteeThreshold := 1768,
     DownCommitteeSize := 6000, DownCommitteeThreshold := 4560,
     ApprovedUpgrades := [(ConsensusV11, True)]\<rparr>"

definition v11 :: ConsensusParams where
  "v11 = v10\<lparr>SupportSignedTxnInBlock := True, PaysetCommitFlat := True,
     ApprovedUpgrades := [(ConsensusV12, True)]\<rparr>"

definition v12 :: ConsensusParams where
  "v12 = v11\<lparr>MaxVersionStringLen := 128, ApprovedUpgrades := [(ConsensusV13, True)]\<rparr>"

definition v13 :: ConsensusParams where
  "v13 = v12\<lparr>ApprovedUpgrades := [(ConsensusV14, True)]\<rparr>"

definition v14 :: ConsensusParams where
  "v14 = v13\<lparr>cpApplyData := True, SupportGenesisHash := True,
     ApprovedUpgrades := [(ConsensusV15, True)]\<rparr>"

definition v15 :: ConsensusParams where
  "v15 = v14\<lparr>RewardsInApplyData := True, ForceNonParticipatingFeeSink := True,
     ApprovedUpgrades := [(ConsensusV16, True)]\<rparr>"

definition v16 :: ConsensusParams where
  "v16 = v15\<lparr>CredentialDomainSeparationEnabled := True, RequireGenesisHash := True,
     ApprovedUpgrades := [(ConsensusV17, True)]\<rparr>"

definition v17 :: ConsensusParams where
  "v17 = v16\<lparr>ApprovedUpgrades := [(ConsensusV19, True)]\<rparr>"

definition v18 :: ConsensusParams where
  "v18 = v17\<lparr>
     PendingResidueRewards := True, ApprovedUpgrades := [(ConsensusV19, True)],
     cpTxnCounter := True, cpAsset := True,
     LogicSigVersion := 1, LogicSigMaxSize := 1000, LogicSigMaxCost := 20000,
     MaxAssetsPerAccount := 1000,
     SupportTxGroups := True, MaxTxGroupSize := 16,
     SupportTransactionLeases := True,
     SupportBecomeNonParticipatingTransactions := True,
     MaxAssetNameBytes := 32, MaxAssetUnitNameBytes := 8, MaxAssetURLBytes := 32\<rparr>"

definition v19 :: ConsensusParams where
  "v19 = v18\<lparr>ApprovedUpgrades := []\<rparr>"

definition vFuture :: ConsensusParams where
  "vFuture = v19\<lparr>ApprovedUpgrades := []\<rparr>"

type_synonym consensus_table = "(ConsensusVersion \<times> ConsensusParams) list"

definition initConsensusProtocols :: consensus_table where
  "initConsensusProtocols =
     [(ConsensusV7, v7), (ConsensusV8, v8), (ConsensusV9, v9), (ConsensusV10, v10),
      (ConsensusV11, v11), (ConsensusV12, v12), (ConsensusV13, v13), (ConsensusV14, v14),
      (ConsensusV15, v15), (ConsensusV16, v16), (ConsensusV17, v17), (ConsensusV18, v18),
      (ConsensusV19, v19), (ConsensusFuture, vFuture)]"

section \<open>The test versions\<close>

definition test0 :: ConsensusParams where
  "test0 = ConsensusParams_zero\<lparr>
     UpgradeVoteRounds := 2, UpgradeThreshold := 1, UpgradeWaitRounds := 2,
     MaxVersionStringLen := 64, MaxTxnBytesPerBlock := 1000000, DefaultKeyDilution := 10000,
     ApprovedUpgrades := [(ConsensusTest1, True)]\<rparr>"

definition test1 :: ConsensusParams where
  "test1 = ConsensusParams_zero\<lparr>
     UpgradeVoteRounds := 10, UpgradeThreshold := 8, UpgradeWaitRounds := 10,
     MaxVersionStringLen := 64, MaxTxnBytesPerBlock := 1000000, DefaultKeyDilution := 10000,
     ApprovedUpgrades := []\<rparr>"

definition testBigBlocks :: ConsensusParams where
  "testBigBlocks = v19\<lparr>MaxTxnBytesPerBlock := 100000000, ApprovedUpgrades := []\<rparr>"

definition rapidRecalcParams :: ConsensusParams where
  "rapidRecalcParams = v19\<lparr>RewardsRateRefreshInterval := 25, ApprovedUpgrades := []\<rparr>"

definition initConsensusTestProtocols :: "consensus_table \<Rightarrow> consensus_table" where
  "initConsensusTestProtocols tbl = tbl @
     [(ConsensusTest0, test0), (ConsensusTest1, test1),
      (ConsensusTestBigBlocks, testBigBlocks),
      (ConsensusTestRapidRewardRecalculation, rapidRecalcParams)]"

definition fastUpgradeParams :: "ConsensusParams \<Rightarrow> ConsensusParams" where
  "fastUpgradeParams params = params\<lparr>
     UpgradeVoteRounds := 5, UpgradeThreshold := 3, UpgradeWaitRounds := 5,
     MaxVersionStringLen :=
       MaxVersionStringLen params + int (length (ConsensusTestFastUpgrade [])),
     ApprovedUpgrades :=
       map (\<lambda>(ver, flag). (ConsensusTestFastUpgrade ver, flag)) (ApprovedUpgrades params)\<rparr>"

definition initConsensusTestFastUpgrade :: "consensus_table \<Rightarrow> consensus_table" where
  "initConsensusTestFastUpgrade tbl = tbl @
     map (\<lambda>(proto, params). (ConsensusTestFastUpgrade proto, fastUpgradeParams params)) tbl"

definition Consensus_table :: consensus_table where
  "Consensus_table =
     initConsensusTestFastUpgrade (initConsensusTestProtocols initConsensusProtocols)"

text \<open>The global \<open>config.Consensus\<close> after \<open>init\<close>; \<open>None\<close> is a version it does not have.\<close>

definition Consensus :: "ConsensusVersion \<Rightarrow> ConsensusParams option" where
  "Consensus = map_of Consensus_table"

text \<open>Indexing the Go map with a missing key gives the zero value.\<close>

definition Consensus_or_zero :: "ConsensusVersion \<Rightarrow> ConsensusParams" where
  "Consensus_or_zero v = (case Consensus v of None \<Rightarrow> ConsensusParams_zero | Some p \<Rightarrow> p)"

end
