(* ===== verification/Basics.thy ===== *)
theory Basics
  imports Config
begin

text \<open>
  The \<open>data/basics\<close> package: overflow-checked arithmetic (\<open>overflow.go\<close>), rounds and
  amounts (\<open>units.go\<close>), account data and deferred rewards (\<open>userBalance.go\<close>).

  A 32-byte array (address, digest, key, lease) is a \<open>256 word\<close>, its bytes read in
  big-endian order: the code compares such arrays for equality and with the zero array,
  and orders them with \<open>bytes.Compare\<close>, which is the order of the numbers.
  \<open>MicroAlgos\<close>, a struct with the one field \<open>Raw uint64\<close>, is that field.
\<close>

section \<open>Types\<close>

type_synonym bytes32 = "256 word"
type_synonym Address = bytes32
type_synonym Digest = bytes32
type_synonym Txid = bytes32
type_synonym Round = u64
type_synonym MicroAlgos = u64
type_synonym AssetIndex = u64

text \<open>
  Errors, and the reasons for a panic.  An error built by \<open>fmt.Errorf\<close> carries its
  message, without the values formatted into it; the errors with a Go type of their own
  carry the fields a caller can inspect.
\<close>

datatype goerror =
    Errorf string
  | MinFeeError MicroAlgos
  | TxnDeadError Round Round Round
  | TransactionInLedgerError Txid
  | BlockInLedgerError Round Round
  | ProtocolError ConsensusVersion
  | ErrNoEntry Round Round Round
  | ErrNoSpace

section \<open>Overflow-checked arithmetic\<close>

record OverflowTracker =
  Overflowed :: bool

definition OAdd16 :: "u16 \<Rightarrow> u16 \<Rightarrow> u16 \<times> bool" where
  "OAdd16 a b = (let res = a + b in (res, res < a))"

definition OAdd :: "u64 \<Rightarrow> u64 \<Rightarrow> u64 \<times> bool" where
  "OAdd a b = (let res = a + b in (res, res < a))"

definition OSub :: "u64 \<Rightarrow> u64 \<Rightarrow> u64 \<times> bool" where
  "OSub a b = (let res = a - b in (res, res > a))"

definition OMul :: "u64 \<Rightarrow> u64 \<Rightarrow> u64 \<times> bool" where
  "OMul a b =
     (if b = 0 then (0, False)
      else let c = a * b in if c div b \<noteq> a then (0, True) else (c, False))"

definition MulSaturate :: "u64 \<Rightarrow> u64 \<Rightarrow> u64" where
  "MulSaturate a b = (let (res, overflowed) = OMul a b in if overflowed then - 1 else res)"

definition ot_note :: "u64 \<times> bool \<Rightarrow> OverflowTracker \<Rightarrow> u64 \<times> OverflowTracker" where
  "ot_note r t = (fst r, if snd r then t\<lparr>Overflowed := True\<rparr> else t)"

definition ot_Add16 :: "u16 \<Rightarrow> u16 \<Rightarrow> OverflowTracker \<Rightarrow> u16 \<times> OverflowTracker" where
  "ot_Add16 a b t =
     (let (res, overflowed) = OAdd16 a b in (res, if overflowed then t\<lparr>Overflowed := True\<rparr> else t))"

definition ot_Add :: "u64 \<Rightarrow> u64 \<Rightarrow> OverflowTracker \<Rightarrow> u64 \<times> OverflowTracker" where
  "ot_Add a b t = ot_note (OAdd a b) t"

definition ot_Sub :: "u64 \<Rightarrow> u64 \<Rightarrow> OverflowTracker \<Rightarrow> u64 \<times> OverflowTracker" where
  "ot_Sub a b t = ot_note (OSub a b) t"

definition ot_Mul :: "u64 \<Rightarrow> u64 \<Rightarrow> OverflowTracker \<Rightarrow> u64 \<times> OverflowTracker" where
  "ot_Mul a b t = ot_note (OMul a b) t"

definition OAddA :: "MicroAlgos \<Rightarrow> MicroAlgos \<Rightarrow> MicroAlgos \<times> bool" where
  "OAddA a b = OAdd a b"

definition OSubA :: "MicroAlgos \<Rightarrow> MicroAlgos \<Rightarrow> MicroAlgos \<times> bool" where
  "OSubA a b = OSub a b"

definition MulAIntSaturate :: "MicroAlgos \<Rightarrow> i64 \<Rightarrow> MicroAlgos" where
  "MulAIntSaturate a b = MulSaturate a b"

definition ot_AddA :: "MicroAlgos \<Rightarrow> MicroAlgos \<Rightarrow> OverflowTracker \<Rightarrow> MicroAlgos \<times> OverflowTracker" where
  "ot_AddA a b t = ot_Add a b t"

definition ot_SubA :: "MicroAlgos \<Rightarrow> MicroAlgos \<Rightarrow> OverflowTracker \<Rightarrow> MicroAlgos \<times> OverflowTracker" where
  "ot_SubA a b t = ot_Sub a b t"

definition ot_AddR :: "Round \<Rightarrow> Round \<Rightarrow> OverflowTracker \<Rightarrow> Round \<times> OverflowTracker" where
  "ot_AddR a b t = ot_Add a b t"

definition ot_SubR :: "Round \<Rightarrow> Round \<Rightarrow> OverflowTracker \<Rightarrow> Round \<times> OverflowTracker" where
  "ot_SubR a b t = ot_Sub a b t"

definition ot_ScalarMulA :: "MicroAlgos \<Rightarrow> u64 \<Rightarrow> OverflowTracker \<Rightarrow> MicroAlgos \<times> OverflowTracker" where
  "ot_ScalarMulA a b t = ot_Mul a b t"

abbreviation ot_new :: OverflowTracker where
  "ot_new \<equiv> \<lparr>Overflowed = False\<rparr>"

section \<open>Amounts and rounds\<close>

text \<open>Go's integer division panics on a zero divisor; two test protocols have unit 0.\<close>

definition RewardUnits :: "ConsensusParams \<Rightarrow> MicroAlgos \<Rightarrow> (goerror, u64) result" where
  "RewardUnits proto a =
     (if RewardUnit proto = 0 then Panic (Errorf ''integer divide by zero'') else Ok (a div RewardUnit proto))"

record OneTimeSignatureIdentifier =
  Batch :: u64
  Offset :: u64

definition OneTimeIDForRound :: "Round \<Rightarrow> u64 \<Rightarrow> (goerror, OneTimeSignatureIdentifier) result" where
  "OneTimeIDForRound rnd keyDilution =
     (if keyDilution = 0 then Panic (Errorf ''integer divide by zero'')
      else Ok \<lparr>Batch = rnd div keyDilution, Offset = rnd mod keyDilution\<rparr>)"

definition SubSaturate :: "Round \<Rightarrow> Round \<Rightarrow> Round" where
  "SubSaturate rnd x = (if rnd < x then 0 else rnd - x)"

section \<open>Accounts\<close>

text \<open>\<open>Status\<close> is a byte; \<open>StatusOther\<close> stands for the values the code gives no name to.\<close>

datatype Status = Offline | Online | NotParticipating | StatusOther "8 word"

record AssetHolding =
  ahAmount :: u64
  ahFrozen :: bool

record AssetParams =
  apTotal :: u64
  apDefaultFrozen :: bool
  apUnitName :: string
  apAssetName :: string
  apURL :: string
  apMetadataHash :: bytes32
  apManager :: Address
  apReserve :: Address
  apFreeze :: Address
  apClawback :: Address

record AccountData =
  acctStatus :: Status
  acctMicroAlgos :: MicroAlgos
  RewardsBase :: u64
  RewardedMicroAlgos :: MicroAlgos
  VoteID :: bytes32
  SelectionID :: bytes32
  VoteFirstValid :: Round
  VoteLastValid :: Round
  acctVoteKeyDilution :: u64
  acctAssetParams :: "(AssetIndex, AssetParams) gomap"
  acctAssets :: "(AssetIndex, AssetHolding) gomap"

record BalanceRecord =
  brAddr :: Address
  brData :: AccountData

definition AssetHolding_zero :: AssetHolding where
  "AssetHolding_zero = \<lparr>ahAmount = 0, ahFrozen = False\<rparr>"

definition AssetParams_zero :: AssetParams where
  "AssetParams_zero = \<lparr>apTotal = 0, apDefaultFrozen = False, apUnitName = [], apAssetName = [],
     apURL = [], apMetadataHash = 0, apManager = 0, apReserve = 0, apFreeze = 0, apClawback = 0\<rparr>"

definition AccountData_zero :: AccountData where
  "AccountData_zero = \<lparr>acctStatus = Offline, acctMicroAlgos = 0, RewardsBase = 0,
     RewardedMicroAlgos = 0, VoteID = 0, SelectionID = 0, VoteFirstValid = 0,
     VoteLastValid = 0, acctVoteKeyDilution = 0, acctAssetParams = None, acctAssets = None\<rparr>"

definition MakeAccountData :: "Status \<Rightarrow> MicroAlgos \<Rightarrow> AccountData" where
  "MakeAccountData status algos =
     AccountData_zero\<lparr>acctStatus := status, acctMicroAlgos := algos\<rparr>"

definition WithUpdatedRewards ::
    "ConsensusParams \<Rightarrow> u64 \<Rightarrow> AccountData \<Rightarrow> (goerror, AccountData) result" where
  "WithUpdatedRewards proto rewardsLevel u =
     (if acctStatus u \<noteq> NotParticipating then
        res_bind (RewardUnits proto (acctMicroAlgos u)) (\<lambda>rewardsUnits.
          let (rewardsDelta, ot1) = ot_Sub rewardsLevel (RewardsBase u) ot_new;
              (rewards, ot2) = ot_Mul rewardsUnits rewardsDelta ot1;
              (algos, ot3) = ot_AddA (acctMicroAlgos u) rewards ot2
          in if Overflowed ot3 then Panic (Errorf ''overflowed account balance when applying rewards'')
             else Ok (u\<lparr>acctMicroAlgos := algos, RewardsBase := rewardsLevel,
                        RewardedMicroAlgos := RewardedMicroAlgos u + rewards\<rparr>))
      else Ok u)"

definition Money ::
    "ConsensusParams \<Rightarrow> u64 \<Rightarrow> AccountData \<Rightarrow> (goerror, MicroAlgos \<times> MicroAlgos) result" where
  "Money proto rewardsLevel u =
     res_bind (WithUpdatedRewards proto rewardsLevel u)
       (\<lambda>e. Ok (acctMicroAlgos e, RewardedMicroAlgos e))"

definition VotingStake :: "AccountData \<Rightarrow> MicroAlgos" where
  "VotingStake u = (if acctStatus u \<noteq> Online then 0 else acctMicroAlgos u)"

definition KeyDilution :: "ConsensusParams \<Rightarrow> AccountData \<Rightarrow> u64" where
  "KeyDilution proto u =
     (if acctVoteKeyDilution u \<noteq> 0 then acctVoteKeyDilution u else DefaultKeyDilution proto)"

text \<open>
  \<open>reflect.DeepEqual\<close> tells a \<open>nil\<close> map from an empty one; \<open>IsZero\<close> normalises only
  \<open>Assets\<close> before it compares.
\<close>

definition AccountData_IsZero :: "AccountData \<Rightarrow> bool" where
  "AccountData_IsZero u =
     ((if acctAssets u \<noteq> None \<and> glen (acctAssets u) = 0 then u\<lparr>acctAssets := None\<rparr> else u)
      = AccountData_zero)"

section \<open>The contract of the checked operations\<close>

text \<open>
  Each of the three checked operations promises the same: the flag is raised exactly when
  the mathematical result does not fit, and without the flag the word is that result.
  What the overflow tracker does with such an operation follows once for all of them.
\<close>

locale checked_arith =
  fixes checked :: "u64 \<Rightarrow> u64 \<Rightarrow> u64 \<times> bool"
    and exact :: "int \<Rightarrow> int \<Rightarrow> int"
  assumes flag_iff:
      "snd (checked a b) \<longleftrightarrow> \<not> (0 \<le> exact (uint a) (uint b) \<and> exact (uint a) (uint b) < 2 ^ 64)"
    and value_exact: "\<not> snd (checked a b) \<Longrightarrow> uint (fst (checked a b)) = exact (uint a) (uint b)"
begin

lemma tracked_sticky:
  "Overflowed t \<Longrightarrow> ot_note (checked a b) t = (r, t') \<Longrightarrow> Overflowed t'"
  by (auto simp: ot_note_def split: if_splits)

lemma tracked_exact:
  assumes "ot_note (checked a b) t = (r, t')"
  shows "Overflowed t' \<longleftrightarrow>
      Overflowed t \<or> \<not> (0 \<le> exact (uint a) (uint b) \<and> exact (uint a) (uint b) < 2 ^ 64)"
    and "\<not> Overflowed t' \<Longrightarrow> uint r = exact (uint a) (uint b)"
proof -
  from assms have r: "r = fst (checked a b)"
    and t': "Overflowed t' \<longleftrightarrow> Overflowed t \<or> snd (checked a b)"
    by (auto simp: ot_note_def split: if_splits)
  show "Overflowed t' \<longleftrightarrow>
      Overflowed t \<or> \<not> (0 \<le> exact (uint a) (uint b) \<and> exact (uint a) (uint b) < 2 ^ 64)"
    using t' flag_iff by blast
  show "uint r = exact (uint a) (uint b)" if "\<not> Overflowed t'"
    using that t' value_exact r by blast
qed

end

lemma u64_valueE:
  fixes w :: u64
  obtains x where "unat w = x" and "uint w = int x" and "x < 2 ^ 64"
  using unsigned_less [of w, where 'a = nat] by (simp add: that)

interpretation add: checked_arith OAdd "(+)"
proof
  fix a b :: u64
  have flag: "snd (OAdd a b) \<longleftrightarrow> a + b < a" and val: "fst (OAdd a b) = a + b"
    by (simp_all add: OAdd_def Let_def)
  obtain x y where x: "unat a = x" "uint a = int x" and y: "unat b = y" "uint b = int y"
    by (metis u64_valueE)
  show "snd (OAdd a b) \<longleftrightarrow> \<not> (0 \<le> uint a + uint b \<and> uint a + uint b < 2 ^ 64)"
    unfolding flag add_wrap_iff x y by auto
  show "uint (fst (OAdd a b)) = uint a + uint b" if "\<not> snd (OAdd a b)"
    using that unfolding flag val by (simp add: uint_plus_simple_iff [symmetric] not_less)
qed

interpretation sub: checked_arith OSub "(-)"
proof
  fix a b :: u64
  have flag: "snd (OSub a b) \<longleftrightarrow> a < a - b" and val: "fst (OSub a b) = a - b"
    by (simp_all add: OSub_def Let_def)
  obtain x y where x: "unat a = x" "uint a = int x" "x < 2 ^ 64"
    and y: "unat b = y" "uint b = int y"
    by (metis u64_valueE)
  show "snd (OSub a b) \<longleftrightarrow> \<not> (0 \<le> uint a - uint b \<and> uint a - uint b < 2 ^ 64)"
    unfolding flag sub_wrap_iff x(1,2) y using x(3) by auto
  show "uint (fst (OSub a b)) = uint a - uint b" if "\<not> snd (OSub a b)"
    using that unfolding flag val by (simp add: uint_minus_simple_iff [symmetric] not_less)
qed

interpretation mul: checked_arith OMul "(*)"
proof
  fix a b :: u64
  have flag: "snd (OMul a b) \<longleftrightarrow> b \<noteq> 0 \<and> \<not> unat a * unat b < 2 ^ 64"
    by (simp add: OMul_def Let_def mul_div_no_wrap)
  obtain x y where x: "unat a = x" "uint a = int x" and y: "unat b = y" "uint b = int y"
    by (metis u64_valueE)
  have b0: "b \<noteq> 0 \<longleftrightarrow> y \<noteq> 0" using y(1) by (auto simp: unat_gt_0)
  have fits: "uint a * uint b < 2 ^ 64 \<longleftrightarrow> x * y < 2 ^ 64"
    unfolding x y by (metis of_nat_less_iff of_nat_mult of_nat_numeral of_nat_power)
  show "snd (OMul a b) \<longleftrightarrow> \<not> (0 \<le> uint a * uint b \<and> uint a * uint b < 2 ^ 64)"
    unfolding flag fits b0 unfolding x y by (cases "y = 0") auto
  show "uint (fst (OMul a b)) = uint a * uint b" if "\<not> snd (OMul a b)"
  proof (cases "b = 0")
    case False
    with that have "uint a * uint b < 2 ^ 64" unfolding fits flag x(1) y(1) by simp
    then have "uint (a * b) = uint a * uint b" by (simp add: uint_word_ariths)
    with False that show ?thesis
      by (simp add: OMul_def Let_def split: if_splits)
  qed (simp add: OMul_def)
qed

text \<open>The same facts on natural numbers, the form the ledger proofs use.\<close>

lemma nat_of_uint_eq:
  fixes r :: u64
  shows "uint r = int n \<Longrightarrow> unat r = n"
  by (simp add: unat_eq_nat_uint)

lemma OAdd_nat [word_nat_simps]: "OAdd a b = (r, False) \<Longrightarrow> unat r = unat a + unat b"
  using add.value_exact [of a b] by (auto intro!: nat_of_uint_eq)

lemma OSub_nat [word_nat_simps]:
  assumes "OSub a b = (r, False)"
  shows "unat r + unat b = unat a"
  using assms unat_sub_no_wrap [of a b] by (auto simp: OSub_def Let_def)

lemma OMul_nat [word_nat_simps]: "OMul a b = (r, False) \<Longrightarrow> unat r = unat a * unat b"
  using mul.value_exact [of a b] by (auto intro!: nat_of_uint_eq)

lemma OAdd_fits: "snd (OAdd a b) \<longleftrightarrow> 2 ^ 64 \<le> unat a + unat b"
  using add_wrap_iff [of a b] by (simp add: OAdd_def Let_def)

lemma OSub_fits: "snd (OSub a b) \<longleftrightarrow> unat a < unat b"
  by (simp add: OSub_def Let_def sub_wrap_iff)

lemma OMul_fits: "snd (OMul a b) \<longleftrightarrow> 2 ^ 64 \<le> unat a * unat b"
  by (auto simp: OMul_def Let_def mul_div_no_wrap)

lemma ot_note_ok:
  "ot_note r t = (x, t') \<Longrightarrow> \<not> Overflowed t' \<longleftrightarrow> \<not> Overflowed t \<and> r = (x, False)"
  by (cases r) (auto simp: ot_note_def split: if_splits)

lemmas ot_defs = ot_AddA_def ot_SubA_def ot_AddR_def ot_SubR_def ot_ScalarMulA_def
  ot_Add_def ot_Sub_def ot_Mul_def

section \<open>Rewards\<close>

text \<open>
  The balance an account is worth at a rewards level, as a natural number: what it holds,
  plus the deferred rewards of its whole reward units (none for a non-participating account).
\<close>

definition pending_rewards :: "ConsensusParams \<Rightarrow> u64 \<Rightarrow> AccountData \<Rightarrow> nat" where
  "pending_rewards proto lvl u =
     (if acctStatus u = NotParticipating then 0
      else unat (acctMicroAlgos u) div unat (RewardUnit proto) * (unat lvl - unat (RewardsBase u)))"

definition worth :: "ConsensusParams \<Rightarrow> u64 \<Rightarrow> AccountData \<Rightarrow> nat" where
  "worth proto lvl u = unat (acctMicroAlgos u) + pending_rewards proto lvl u"

text \<open>The condition under which applying the deferred rewards succeeds.\<close>

definition rewards_ok :: "ConsensusParams \<Rightarrow> u64 \<Rightarrow> AccountData \<Rightarrow> bool" where
  "rewards_ok proto lvl u \<longleftrightarrow>
     acctStatus u = NotParticipating \<or>
     (RewardUnit proto \<noteq> 0 \<and> RewardsBase u \<le> lvl \<and> worth proto lvl u < 2 ^ 64)"

lemma WithUpdatedRewards_cases:
  assumes "acctStatus u \<noteq> NotParticipating" and "RewardUnit proto \<noteq> 0"
  defines "units \<equiv> acctMicroAlgos u div RewardUnit proto"
  shows "WithUpdatedRewards proto lvl u =
    (let d = OSub lvl (RewardsBase u); m = OMul units (fst d); a = OAdd (acctMicroAlgos u) (fst m)
     in if snd d \<or> snd m \<or> snd a then Panic (Errorf ''overflowed account balance when applying rewards'')
        else Ok (u\<lparr>acctMicroAlgos := fst a, RewardsBase := lvl,
                   RewardedMicroAlgos := RewardedMicroAlgos u + fst m\<rparr>))"
  using assms(1,2)
  by (simp add: WithUpdatedRewards_def RewardUnits_def res_bind_def units_def
      ot_defs ot_note_def Let_def)

lemma WithUpdatedRewards_Ok_iff_ok:
  "(\<exists>u'. WithUpdatedRewards proto lvl u = Ok u') \<longleftrightarrow> rewards_ok proto lvl u"
proof (cases "acctStatus u = NotParticipating \<or> RewardUnit proto = 0")
  case True
  then show ?thesis
    by (auto simp: WithUpdatedRewards_def RewardUnits_def res_bind_def rewards_ok_def)
next
  case False
  let ?units = "acctMicroAlgos u div RewardUnit proto"
  let ?d = "OSub lvl (RewardsBase u)" let ?m = "OMul ?units (fst ?d)"
  let ?a = "OAdd (acctMicroAlgos u) (fst ?m)"
  have base: "\<not> snd ?d \<longleftrightarrow> RewardsBase u \<le> lvl"
    by (simp add: OSub_fits not_less word_le_nat_alt)
  have d: "unat (fst ?d) = unat lvl - unat (RewardsBase u)" if "\<not> snd ?d"
    using OSub_nat [of lvl "RewardsBase u" "fst ?d"] that by (metis add_diff_cancel_right' prod.collapse)
  have m: "unat (fst ?m) = unat ?units * unat (fst ?d)" if "\<not> snd ?m"
    using OMul_nat that by (metis (full_types) prod.collapse)
  have worth: "worth proto lvl u = unat (acctMicroAlgos u) + unat ?units * unat (fst ?d)"
    if "\<not> snd ?d"
    using False d [OF that] by (simp add: worth_def pending_rewards_def unat_div)
  have "(\<exists>u'. WithUpdatedRewards proto lvl u = Ok u') \<longleftrightarrow> \<not> snd ?d \<and> \<not> snd ?m \<and> \<not> snd ?a"
    using False by (subst WithUpdatedRewards_cases) (auto simp: Let_def)
  also have "\<dots> \<longleftrightarrow> RewardsBase u \<le> lvl \<and> worth proto lvl u < 2 ^ 64"
    using worth m by (auto simp: base OMul_fits OAdd_fits not_le simp del: fst_conv)
  finally show ?thesis using False by (simp add: rewards_ok_def)
qed

lemma WithUpdatedRewards_OkD:
  assumes "WithUpdatedRewards proto lvl u = Ok u'"
  shows "unat (acctMicroAlgos u') = worth proto lvl u"
    and "acctStatus u' = acctStatus u"
    and "acctAssets u' = acctAssets u" and "acctAssetParams u' = acctAssetParams u"
    and "acctStatus u' \<noteq> NotParticipating \<Longrightarrow> RewardsBase u' = lvl"
    and "\<exists>algos base rewarded. u' = u\<lparr>acctMicroAlgos := algos, RewardsBase := base,
           RewardedMicroAlgos := rewarded\<rparr>"
proof -
  have all: "unat (acctMicroAlgos u') = worth proto lvl u \<and>
     (acctStatus u' \<noteq> NotParticipating \<longrightarrow> RewardsBase u' = lvl) \<and>
     (\<exists>algos base rewarded. u' = u\<lparr>acctMicroAlgos := algos, RewardsBase := base,
        RewardedMicroAlgos := rewarded\<rparr>)"
  proof (cases "acctStatus u = NotParticipating")
    case True
    with assms have u': "u' = u" by (simp add: WithUpdatedRewards_def)
    have "\<exists>algos base rewarded. u = u\<lparr>acctMicroAlgos := algos, RewardsBase := base,
        RewardedMicroAlgos := rewarded\<rparr>"
      by (intro exI [of _ "acctMicroAlgos u"] exI [of _ "RewardsBase u"]
          exI [of _ "RewardedMicroAlgos u"]) simp
    then show ?thesis using True unfolding u' by (simp add: worth_def pending_rewards_def)
  next
    case False
    with assms have unit: "RewardUnit proto \<noteq> 0"
      by (auto simp: WithUpdatedRewards_def RewardUnits_def res_bind_def)
    from assms obtain d m a where
      d: "OSub lvl (RewardsBase u) = (d, False)" and
      m: "OMul (acctMicroAlgos u div RewardUnit proto) d = (m, False)" and
      a: "OAdd (acctMicroAlgos u) m = (a, False)" and
      u': "u' = u\<lparr>acctMicroAlgos := a, RewardsBase := lvl,
                  RewardedMicroAlgos := RewardedMicroAlgos u + m\<rparr>"
      unfolding WithUpdatedRewards_cases [OF False unit] Let_def
      by (auto simp: prod_eq_iff split: if_splits)
    have "unat a = worth proto lvl u"
      using OSub_nat [OF d, symmetric] OMul_nat [OF m] OAdd_nat [OF a] False
      by (simp add: worth_def pending_rewards_def unat_div)
    then show ?thesis unfolding u' by auto
  qed
  then show "unat (acctMicroAlgos u') = worth proto lvl u"
    and "acctStatus u' \<noteq> NotParticipating \<Longrightarrow> RewardsBase u' = lvl"
    and "\<exists>algos base rewarded. u' = u\<lparr>acctMicroAlgos := algos, RewardsBase := base,
           RewardedMicroAlgos := rewarded\<rparr>" by blast+
  then show "acctStatus u' = acctStatus u" "acctAssets u' = acctAssets u"
    "acctAssetParams u' = acctAssetParams u" by auto
qed

text \<open>An account whose rewards are applied up to a level has nothing pending at that level.\<close>

lemma pending_settled:
  "acctStatus u \<noteq> NotParticipating \<Longrightarrow> RewardsBase u = lvl \<Longrightarrow> pending_rewards proto lvl u = 0"
  by (simp add: pending_rewards_def)

lemma WithUpdatedRewards_settles:
  assumes "WithUpdatedRewards proto lvl u = Ok u'"
  shows "pending_rewards proto lvl (u'\<lparr>acctMicroAlgos := x\<rparr>) = 0"
    and "worth proto lvl (u'\<lparr>acctMicroAlgos := x\<rparr>) = unat x"
proof -
  show "pending_rewards proto lvl (u'\<lparr>acctMicroAlgos := x\<rparr>) = 0"
    using WithUpdatedRewards_OkD(5) [OF assms]
    by (cases "acctStatus u' = NotParticipating") (auto simp: pending_rewards_def)
  then show "worth proto lvl (u'\<lparr>acctMicroAlgos := x\<rparr>) = unat x"
    by (simp add: worth_def)
qed

lemma WithUpdatedRewards_frame:
  assumes "WithUpdatedRewards proto lvl u = Ok u'"
  shows "acctStatus u' = acctStatus u \<and> acctAssets u' = acctAssets u \<and>
    acctAssetParams u' = acctAssetParams u"
  using WithUpdatedRewards_OkD(2-4) [OF assms] by simp

end
