(* ===== verification/Transactions.thy ===== *)
theory Transactions
  imports Basics
begin

text \<open>
  Transactions (\<open>data/transactions\<close>): their data (\<open>transaction.go\<close>, \<open>payment.go\<close>,
  \<open>keyreg.go\<close>, \<open>asset.go\<close>, \<open>signedtxn.go\<close>), the checks a transaction must pass on its own
  (\<open>WellFormed\<close>) and in a block (\<open>Alive\<close>), and its identifier with the cache that
  holds it.  The hash of a transaction is a parameter.
\<close>

section \<open>Transaction data\<close>

text \<open>\<open>TxType\<close> is a string; \<open>OtherTx\<close> is any string without a constant of its own.\<close>

datatype TxType =
    PaymentTx | KeyRegistrationTx | AssetConfigTx | AssetTransferTx | AssetFreezeTx
  | OtherTx string

record SpecialAddresses =
  spFeeSink :: Address
  spRewardsPool :: Address

record Header =
  Sender :: Address
  Fee :: MicroAlgos
  FirstValid :: Round
  LastValid :: Round
  Note :: "byte slice"
  txGenesisID :: string
  txGenesisHash :: Digest
  Group :: Digest
  Lease :: bytes32

record KeyregTxnFields =
  VotePK :: bytes32
  SelectionPK :: bytes32
  VoteFirst :: Round
  VoteLast :: Round
  krVoteKeyDilution :: u64
  Nonparticipation :: bool

record PaymentTxnFields =
  Receiver :: Address
  Amount :: MicroAlgos
  CloseRemainderTo :: Address

record AssetConfigTxnFields =
  ConfigAsset :: AssetIndex
  ccAssetParams :: AssetParams

record AssetTransferTxnFields =
  XferAsset :: AssetIndex
  AssetAmount :: u64
  AssetSender :: Address
  AssetReceiver :: Address
  AssetCloseTo :: Address

record AssetFreezeTxnFields =
  FreezeAccount :: Address
  FreezeAsset :: AssetIndex
  AssetFrozen :: bool

record Transaction =
  txType :: TxType
  txHeader :: Header
  txKeyreg :: KeyregTxnFields
  txPayment :: PaymentTxnFields
  txAssetConfig :: AssetConfigTxnFields
  txAssetTransfer :: AssetTransferTxnFields
  txAssetFreeze :: AssetFreezeTxnFields
  cachedTxid :: Txid
  txValid :: bool

record ApplyData =
  ClosingAmount :: MicroAlgos
  SenderRewards :: MicroAlgos
  ReceiverRewards :: MicroAlgos
  CloseRewards :: MicroAlgos

definition KeyregTxnFields_zero :: KeyregTxnFields where
  "KeyregTxnFields_zero = \<lparr>VotePK = 0, SelectionPK = 0, VoteFirst = 0, VoteLast = 0,
     krVoteKeyDilution = 0, Nonparticipation = False\<rparr>"

definition PaymentTxnFields_zero :: PaymentTxnFields where
  "PaymentTxnFields_zero = \<lparr>Receiver = 0, Amount = 0, CloseRemainderTo = 0\<rparr>"

definition AssetConfigTxnFields_zero :: AssetConfigTxnFields where
  "AssetConfigTxnFields_zero = \<lparr>ConfigAsset = 0, ccAssetParams = AssetParams_zero\<rparr>"

definition AssetTransferTxnFields_zero :: AssetTransferTxnFields where
  "AssetTransferTxnFields_zero = \<lparr>XferAsset = 0, AssetAmount = 0, AssetSender = 0,
     AssetReceiver = 0, AssetCloseTo = 0\<rparr>"

definition AssetFreezeTxnFields_zero :: AssetFreezeTxnFields where
  "AssetFreezeTxnFields_zero = \<lparr>FreezeAccount = 0, FreezeAsset = 0, AssetFrozen = False\<rparr>"

definition ApplyData_zero :: ApplyData where
  "ApplyData_zero = \<lparr>ClosingAmount = 0, SenderRewards = 0, ReceiverRewards = 0, CloseRewards = 0\<rparr>"

definition Header_zero :: Header where
  "Header_zero = \<lparr>Sender = 0, Fee = 0, FirstValid = 0, LastValid = 0, Note = None,
     txGenesisID = [], txGenesisHash = 0, Group = 0, Lease = 0\<rparr>"

definition Transaction_zero :: Transaction where
  "Transaction_zero = \<lparr>txType = OtherTx [], txHeader = Header_zero,
     txKeyreg = KeyregTxnFields_zero, txPayment = PaymentTxnFields_zero,
     txAssetConfig = AssetConfigTxnFields_zero, txAssetTransfer = AssetTransferTxnFields_zero,
     txAssetFreeze = AssetFreezeTxnFields_zero, cachedTxid = 0, txValid = False\<rparr>"

section \<open>Identifiers\<close>

text \<open>
  \<open>computeID\<close> is \<open>crypto.HashObj\<close> of the encoded transaction; the encoding omits the two
  unexported cache fields, so the hash is a function \<open>H\<close> of the transaction with them reset.
\<close>

type_synonym txn_hash = "Transaction \<Rightarrow> Digest"

definition strip_cache :: "Transaction \<Rightarrow> Transaction" where
  "strip_cache tx = tx\<lparr>cachedTxid := 0, txValid := False\<rparr>"

definition computeID :: "txn_hash \<Rightarrow> Transaction \<Rightarrow> Txid" where
  "computeID H tx = H (strip_cache tx)"

definition InitCaches :: "txn_hash \<Rightarrow> Transaction \<Rightarrow> Transaction" where
  "InitCaches H tx =
     (if \<not> txValid tx then tx\<lparr>cachedTxid := computeID H tx, txValid := True\<rparr> else tx)"

definition ResetCaches :: "Transaction \<Rightarrow> Transaction" where
  "ResetCaches tx = tx\<lparr>txValid := False\<rparr>"

definition ID :: "txn_hash \<Rightarrow> Transaction \<Rightarrow> Txid" where
  "ID H tx = (if txValid tx then cachedTxid tx else computeID H tx)"

definition Src :: "Transaction \<Rightarrow> Address" where
  "Src tx = Sender (txHeader tx)"

definition TxFee :: "Transaction \<Rightarrow> MicroAlgos" where
  "TxFee tx = Fee (txHeader tx)"

definition First :: "Transaction \<Rightarrow> Round" where
  "First tx = FirstValid (txHeader tx)"

definition Last :: "Transaction \<Rightarrow> Round" where
  "Last tx = LastValid (txHeader tx)"

section \<open>Checks\<close>

record TxnContext =
  ctxRound :: Round
  ctxProto :: ConsensusParams
  ctxGenesisID :: string
  ctxGenesisHash :: Digest

definition Alive :: "TxnContext \<Rightarrow> Header \<Rightarrow> (goerror, unit) result" where
  "Alive tc tx =
     (let rnd = ctxRound tc; proto = ctxProto tc in
      if rnd < FirstValid tx \<or> rnd > LastValid tx then
        Err (TxnDeadError rnd (FirstValid tx) (LastValid tx))
      else if txGenesisID tx \<noteq> [] \<and> txGenesisID tx \<noteq> ctxGenesisID tc then Err (Errorf ''tx.GenesisID does not match expected'')
      else if SupportGenesisHash proto then
        (if txGenesisHash tx \<noteq> 0 \<and> txGenesisHash tx \<noteq> ctxGenesisHash tc then Err (Errorf ''tx.GenesisHash does not match expected'')
         else if RequireGenesisHash proto \<and> txGenesisHash tx = 0 then Err (Errorf ''required tx.GenesisHash is missing'')
         else Ok ())
      else if txGenesisHash tx \<noteq> 0 then Err (Errorf ''tx.GenesisHash not allowed'')
      else Ok ())"

definition checkSpender :: "PaymentTxnFields \<Rightarrow> Header \<Rightarrow> SpecialAddresses \<Rightarrow> (goerror, unit) result" where
  "checkSpender payment header spec =
     (if Sender header = CloseRemainderTo payment then Err (Errorf ''transaction cannot close account to its sender'')
      else if Sender header = spFeeSink spec then
        (if Receiver payment \<noteq> spRewardsPool spec then Err (Errorf ''cannot spend from fee sink to non incentive pool address'')
         else if CloseRemainderTo payment \<noteq> 0 then Err (Errorf ''cannot close fee sink'')
         else Ok ())
      else Ok ())"

definition checkType :: "SpecialAddresses \<Rightarrow> ConsensusParams \<Rightarrow> Transaction \<Rightarrow> (goerror, unit) result" where
  "checkType spec proto tx =
     (case txType tx of
        PaymentTx \<Rightarrow> checkSpender (txPayment tx) (txHeader tx) spec
      | KeyRegistrationTx \<Rightarrow>
          (let kr = txKeyreg tx in
           if Nonparticipation kr then
             (if \<not> SupportBecomeNonParticipatingTransactions proto then Err (Errorf ''nonparticipating transaction is not supported'')
              else if \<not> (VotePK kr = 0 \<or> SelectionPK kr = 0) then Err (Errorf ''registers keys but nonparticipatory flag is set'')
              else Ok ())
           else Ok ())
      | AssetConfigTx \<Rightarrow> res_guard (cpAsset proto) (Errorf ''asset transaction not supported'')
      | AssetTransferTx \<Rightarrow> res_guard (cpAsset proto) (Errorf ''asset transaction not supported'')
      | AssetFreezeTx \<Rightarrow> res_guard (cpAsset proto) (Errorf ''asset transaction not supported'')
      | OtherTx _ \<Rightarrow> Err (Errorf ''unknown tx type''))"

text \<open>The types whose fields are not all zero: the keys of \<open>nonZeroFields\<close>.\<close>

definition nonZeroFields :: "Transaction \<Rightarrow> TxType list" where
  "nonZeroFields tx =
     (if txPayment tx \<noteq> PaymentTxnFields_zero then [PaymentTx] else []) @
     (if txKeyreg tx \<noteq> KeyregTxnFields_zero then [KeyRegistrationTx] else []) @
     (if txAssetConfig tx \<noteq> AssetConfigTxnFields_zero then [AssetConfigTx] else []) @
     (if txAssetTransfer tx \<noteq> AssetTransferTxnFields_zero then [AssetTransferTx] else []) @
     (if txAssetFreeze tx \<noteq> AssetFreezeTxnFields_zero then [AssetFreezeTx] else [])"

definition WellFormed :: "SpecialAddresses \<Rightarrow> ConsensusParams \<Rightarrow> Transaction \<Rightarrow> (goerror, unit) result" where
  "WellFormed spec proto tx =
     (let h = txHeader tx; ap = ccAssetParams (txAssetConfig tx) in
      res_bind (checkType spec proto tx) (\<lambda>_.
      if list_ex (\<lambda>t. t \<noteq> txType tx) (nonZeroFields tx) then Err (Errorf ''transaction has non-zero fields for another type'')
      else if Fee h < MinTxnFee proto then Err (MinFeeError (Fee h))
      else if LastValid h < FirstValid h then Err (Errorf ''transaction invalid range'')
      else if LastValid h - FirstValid h > MaxTxnLife proto then Err (Errorf ''transaction window size excessive'')
      else if int (length (elems (Note h))) > MaxTxnNoteBytes proto then Err (Errorf ''transaction note too big'')
      else if int (length (apAssetName ap)) > MaxAssetNameBytes proto then Err (Errorf ''transaction asset name too big'')
      else if int (length (apUnitName ap)) > MaxAssetUnitNameBytes proto then Err (Errorf ''transaction asset unit name too big'')
      else if int (length (apURL ap)) > MaxAssetURLBytes proto then Err (Errorf ''transaction asset url too big'')
      else if Sender h = spRewardsPool spec then Err (Errorf ''transaction from incentive pool is invalid'')
      else if Sender h = 0 then Err (Errorf ''transaction cannot have zero sender'')
      else if \<not> SupportTransactionLeases proto \<and> Lease h \<noteq> 0 then Err (Errorf ''protocol does not support transaction leases'')
      else if \<not> SupportTxGroups proto \<and> Group h \<noteq> 0 then Err (Errorf ''transaction has group but groups not yet enabled'')
      else Ok ()))"

definition RelevantAddrs :: "SpecialAddresses \<Rightarrow> Transaction \<Rightarrow> Address list" where
  "RelevantAddrs spec tx =
     [Sender (txHeader tx), spFeeSink spec] @
     (case txType tx of
        PaymentTx \<Rightarrow>
          [Receiver (txPayment tx)] @
          (if CloseRemainderTo (txPayment tx) \<noteq> 0 then [CloseRemainderTo (txPayment tx)] else [])
      | AssetTransferTx \<Rightarrow>
          [AssetReceiver (txAssetTransfer tx)] @
          (if AssetCloseTo (txAssetTransfer tx) \<noteq> 0 then [AssetCloseTo (txAssetTransfer tx)] else [])
      | _ \<Rightarrow> [])"

definition MatchAddress :: "Address \<Rightarrow> SpecialAddresses \<Rightarrow> Transaction \<Rightarrow> bool" where
  "MatchAddress addr spec tx = list_ex (\<lambda>candidate. addr = candidate) (RelevantAddrs spec tx)"

definition TxAmount :: "Transaction \<Rightarrow> MicroAlgos" where
  "TxAmount tx = (case txType tx of PaymentTx \<Rightarrow> Amount (txPayment tx) | _ \<Rightarrow> 0)"

end
