(* ===== verification/Apply.thy ===== *)
theory Apply
  imports Transactions
begin

text \<open>
  What a transaction does to the balances (\<open>payment.go\<close>, \<open>keyreg.go\<close>, \<open>asset.go\<close> and
  \<open>Transaction.Apply\<close> of \<open>transaction.go\<close>).

  The Go interface \<open>transactions.Balances\<close> is a record of its methods over a state \<open>'s\<close>;
  every \<open>apply\<close> takes the interface as an argument, as the Go code does.  The locale
  \<open>balances\<close> states what a provider promises about the accounts its methods read and write,
  and the effect of each transaction on all accounts is proved from those laws.
\<close>

section \<open>The interface\<close>

record 's Balances =
  Get :: "Address \<Rightarrow> bool \<Rightarrow> ('s, goerror, BalanceRecord) act"
  GetAssetCreator :: "AssetIndex \<Rightarrow> ('s, goerror, Address) act"
  Put :: "BalanceRecord \<Rightarrow> ('s, goerror, unit) act"
  Move :: "Address \<Rightarrow> Address \<Rightarrow> MicroAlgos \<Rightarrow> MicroAlgos option \<Rightarrow> MicroAlgos option
    \<Rightarrow> ('s, goerror, MicroAlgos option \<times> MicroAlgos option) act"
  balConsensusParams :: "'s \<Rightarrow> ConsensusParams"

text \<open>A pointer argument is an option; the callee's write through it is part of the result.\<close>

definition written :: "'a \<Rightarrow> 'a option \<Rightarrow> 'a" where
  "written old w = (case w of None \<Rightarrow> old | Some v \<Rightarrow> v)"

definition BalanceRecord_zero :: BalanceRecord where
  "BalanceRecord_zero = \<lparr>brAddr = 0, brData = AccountData_zero\<rparr>"

text \<open>
  A call of \<open>Get\<close> whose error the caller does not look at: the record is then the zero record.
\<close>

definition Get_unchecked :: "'s Balances \<Rightarrow> Address \<Rightarrow> bool \<Rightarrow> ('s, goerror, BalanceRecord) act" where
  "Get_unchecked B addr pend s =
     (case Get B addr pend s of
        (Ok r, s') \<Rightarrow> (Ok r, s')
      | (Err e, s') \<Rightarrow> (Ok BalanceRecord_zero, s')
      | (Panic e, s') \<Rightarrow> (Panic e, s'))"

section \<open>Payment\<close>

definition payment_pay ::
    "'s Balances \<Rightarrow> PaymentTxnFields \<Rightarrow> Header \<Rightarrow> ApplyData \<Rightarrow> ('s, goerror, ApplyData) act" where
  "payment_pay B payment header ad =
     (if Amount payment \<noteq> 0 \<or> Receiver payment \<noteq> 0 then
        act_bind (Move B (Sender header) (Receiver payment) (Amount payment)
                    (Some (SenderRewards ad)) (Some (ReceiverRewards ad)))
          (\<lambda>(sr, rr). act_return
             (ad\<lparr>SenderRewards := written (SenderRewards ad) sr,
                 ReceiverRewards := written (ReceiverRewards ad) rr\<rparr>))
      else act_return ad)"

definition payment_close ::
    "'s Balances \<Rightarrow> PaymentTxnFields \<Rightarrow> Header \<Rightarrow> ApplyData \<Rightarrow> ('s, goerror, ApplyData) act" where
  "payment_close B payment header ad =
     act_bind (Get B (Sender header) True) (\<lambda>rec.
     let closeAmount = acctMicroAlgos (brData rec);
         ad = ad\<lparr>ClosingAmount := closeAmount\<rparr> in
     act_bind (Move B (Sender header) (CloseRemainderTo payment) closeAmount
                 (Some (SenderRewards ad)) (Some (CloseRewards ad))) (\<lambda>(sr, cr).
     let ad = ad\<lparr>SenderRewards := written (SenderRewards ad) sr,
                 CloseRewards := written (CloseRewards ad) cr\<rparr> in
     act_bind (Get_unchecked B (Sender header) True) (\<lambda>rec.
     if acctMicroAlgos (brData rec) \<noteq> 0 then
       act_err (Errorf ''balance still not zero after CloseRemainderTo'')
     else if glen (acctAssets (brData rec)) > 0 then
       act_err (Errorf ''cannot close: outstanding assets'')
     else if glen (acctAssetParams (brData rec)) > 0 then
       act_err (Errorf ''cannot close: outstanding created assets'')
     else
       act_bind (Put B (rec\<lparr>brData := AccountData_zero\<rparr>)) (\<lambda>_. act_return ad))))"

definition payment_apply ::
    "'s Balances \<Rightarrow> PaymentTxnFields \<Rightarrow> Header \<Rightarrow> ApplyData \<Rightarrow> ('s, goerror, ApplyData) act" where
  "payment_apply B payment header ad =
     act_bind (payment_pay B payment header ad) (\<lambda>ad.
     if CloseRemainderTo payment \<noteq> 0 then payment_close B payment header ad else act_return ad)"

section \<open>Key registration\<close>

definition keyreg_apply ::
    "'s Balances \<Rightarrow> KeyregTxnFields \<Rightarrow> Header \<Rightarrow> SpecialAddresses \<Rightarrow> ('s, goerror, unit) act" where
  "keyreg_apply B keyreg header spec =
     (if Sender header = spFeeSink spec then act_err (Errorf ''cannot register participation key for fee sink'')
      else
        act_bind (Get B (Sender header) False) (\<lambda>record.
        if acctStatus (brData record) = NotParticipating then
          act_err (Errorf ''cannot change online/offline status of non-participating account'')
        else
          let data = (brData record)\<lparr>VoteID := VotePK keyreg, SelectionID := SelectionPK keyreg\<rparr> in
          if VotePK keyreg = 0 \<or> SelectionPK keyreg = 0 then
            act_bind (act_read (balConsensusParams B)) (\<lambda>proto.
            if Nonparticipation keyreg \<and> \<not> SupportBecomeNonParticipatingTransactions proto then
              act_err (Errorf ''nonparticipating transaction is not supported'')
            else
              Put B (record\<lparr>brData := data\<lparr>
                acctStatus := (if Nonparticipation keyreg then NotParticipating else Offline),
                VoteFirstValid := 0, VoteLastValid := 0, acctVoteKeyDilution := 0\<rparr>\<rparr>))
          else
            Put B (record\<lparr>brData := data\<lparr>acctStatus := Online,
              VoteFirstValid := VoteFirst keyreg, VoteLastValid := VoteLast keyreg,
              acctVoteKeyDilution := krVoteKeyDilution keyreg\<rparr>\<rparr>)))"

section \<open>Assets\<close>

definition getParams ::
    "'s Balances \<Rightarrow> AssetIndex \<Rightarrow> ('s, goerror, AssetParams \<times> Address) act" where
  "getParams B aidx =
     act_bind (GetAssetCreator B aidx) (\<lambda>creator.
     act_bind (Get B creator False) (\<lambda>creatorRecord.
     case gget (acctAssetParams (brData creatorRecord)) aidx of
       None \<Rightarrow> act_err (Errorf ''asset index not found in account'')
     | Some params \<Rightarrow> act_return (params, creator)))"

definition holding_amount :: "(AssetIndex, AssetHolding) gomap \<Rightarrow> AssetIndex \<Rightarrow> u64" where
  "holding_amount m i = (case gget m i of None \<Rightarrow> 0 | Some h \<Rightarrow> ahAmount h)"

definition reconfigure :: "AssetParams \<Rightarrow> AssetParams \<Rightarrow> AssetParams" where
  "reconfigure params new =
     params\<lparr>apManager := (if apManager params \<noteq> 0 then apManager new else apManager params),
            apReserve := (if apReserve params \<noteq> 0 then apReserve new else apReserve params),
            apFreeze := (if apFreeze params \<noteq> 0 then apFreeze new else apFreeze params),
            apClawback := (if apClawback params \<noteq> 0 then apClawback new else apClawback params)\<rparr>"

definition assetConfig_apply ::
    "'s Balances \<Rightarrow> AssetConfigTxnFields \<Rightarrow> Header \<Rightarrow> u64 \<Rightarrow> ('s, goerror, unit) act" where
  "assetConfig_apply B cc header txnCounter =
     (if ConfigAsset cc = 0 then
        act_bind (Get B (Sender header) False) (\<lambda>record.
        let assets = gclone (acctAssets (brData record));
            params = gclone (acctAssetParams (brData record));
            newidx = txnCounter + 1 in
        if gget params newidx \<noteq> None then act_err (Errorf ''already found asset with index'')
        else
          let params = gupd newidx (ccAssetParams cc) params;
              assets = gupd newidx \<lparr>ahAmount = apTotal (ccAssetParams cc), ahFrozen = False\<rparr> assets in
          act_bind (act_read (balConsensusParams B)) (\<lambda>proto.
          if int (glen assets) > MaxAssetsPerAccount proto then act_err (Errorf ''too many assets in account'')
          else Put B (record\<lparr>brData := (brData record)\<lparr>acctAssets := assets,
                                                       acctAssetParams := params\<rparr>\<rparr>)))
      else
        act_bind (getParams B (ConfigAsset cc)) (\<lambda>(params, creator).
        if apManager params = 0 \<or> Sender header \<noteq> apManager params then
          act_err (Errorf ''transaction should be issued by the manager'')
        else
          act_bind (Get B creator False) (\<lambda>record.
          let assets = gclone (acctAssets (brData record));
              aparams = gclone (acctAssetParams (brData record)) in
          if ccAssetParams cc = AssetParams_zero then
            (if holding_amount assets (ConfigAsset cc) \<noteq> apTotal params then
               act_err (Errorf ''cannot destroy asset: creator is not holding all'')
             else Put B (record\<lparr>brData := (brData record)\<lparr>
                    acctAssets := gdel (ConfigAsset cc) assets,
                    acctAssetParams := gdel (ConfigAsset cc) aparams\<rparr>\<rparr>))
          else Put B (record\<lparr>brData := (brData record)\<lparr>
                 acctAssets := assets,
                 acctAssetParams := gupd (ConfigAsset cc) (reconfigure params (ccAssetParams cc)) aparams\<rparr>\<rparr>))))"

definition takeOut ::
    "'s Balances \<Rightarrow> Address \<Rightarrow> AssetIndex \<Rightarrow> u64 \<Rightarrow> bool \<Rightarrow> ('s, goerror, unit) act" where
  "takeOut B addr asset amount bypassFreeze =
     (if amount = 0 then act_return ()
      else
        act_bind (Get B addr False) (\<lambda>snd.
        let assets = gclone (acctAssets (brData snd)) in
        case gget assets asset of
          None \<Rightarrow> act_err (Errorf ''asset missing from account'')
        | Some sndHolding \<Rightarrow>
            if ahFrozen sndHolding \<and> \<not> bypassFreeze then act_err (Errorf ''asset frozen'')
            else
              let (newAmount, overflowed) = OSub (ahAmount sndHolding) amount in
              if overflowed then act_err (Errorf ''underflow on subtracting from sender amount'')
              else Put B (snd\<lparr>brData := (brData snd)\<lparr>
                     acctAssets := gupd asset (sndHolding\<lparr>ahAmount := newAmount\<rparr>) assets\<rparr>\<rparr>)))"

definition putIn ::
    "'s Balances \<Rightarrow> Address \<Rightarrow> AssetIndex \<Rightarrow> u64 \<Rightarrow> bool \<Rightarrow> ('s, goerror, unit) act" where
  "putIn B addr asset amount bypassFreeze =
     (if amount = 0 then act_return ()
      else
        act_bind (Get B addr False) (\<lambda>rcv.
        let assets = gclone (acctAssets (brData rcv)) in
        case gget assets asset of
          None \<Rightarrow> act_err (Errorf ''asset missing from account'')
        | Some rcvHolding \<Rightarrow>
            if ahFrozen rcvHolding \<and> \<not> bypassFreeze then act_err (Errorf ''asset frozen in recipient'')
            else
              let (newAmount, overflowed) = OAdd (ahAmount rcvHolding) amount in
              if overflowed then act_err (Errorf ''overflow on adding to receiver amount'')
              else Put B (rcv\<lparr>brData := (brData rcv)\<lparr>
                     acctAssets := gupd asset (rcvHolding\<lparr>ahAmount := newAmount\<rparr>) assets\<rparr>\<rparr>)))"

text \<open>The account the units come from, and whether this is a clawback.\<close>

definition transfer_source ::
    "'s Balances \<Rightarrow> AssetTransferTxnFields \<Rightarrow> Header \<Rightarrow> ('s, goerror, Address \<times> bool) act" where
  "transfer_source B ct header =
     (if AssetSender ct \<noteq> 0 then
        act_bind (getParams B (XferAsset ct)) (\<lambda>(params, _).
        if apClawback params = 0 \<or> Sender header \<noteq> apClawback params then
          act_err (Errorf ''clawback not allowed'')
        else act_return (AssetSender ct, True))
      else act_return (Sender header, False))"

text \<open>Opt-in: a transfer of nothing to oneself makes the slot for the asset.\<close>

definition allocate_slot ::
    "'s Balances \<Rightarrow> AssetTransferTxnFields \<Rightarrow> Address \<Rightarrow> ('s, goerror, unit) act" where
  "allocate_slot B ct source =
     act_bind (Get B source False) (\<lambda>snd.
     let assets = gclone (acctAssets (brData snd)) in
     case gget assets (XferAsset ct) of
       Some _ \<Rightarrow> act_return ()
     | None \<Rightarrow>
         act_bind (getParams B (XferAsset ct)) (\<lambda>(params, _).
         let assets = gupd (XferAsset ct) \<lparr>ahAmount = 0, ahFrozen = apDefaultFrozen params\<rparr> assets in
         act_bind (act_read (balConsensusParams B)) (\<lambda>proto.
         if int (glen assets) > MaxAssetsPerAccount proto then act_err (Errorf ''too many assets in account'')
         else Put B (snd\<lparr>brData := (brData snd)\<lparr>acctAssets := assets\<rparr>\<rparr>))))"

definition close_slot ::
    "'s Balances \<Rightarrow> AssetTransferTxnFields \<Rightarrow> Address \<Rightarrow> ('s, goerror, unit) act" where
  "close_slot B ct source =
     act_bind (Get B source False) (\<lambda>snd.
     if gget (acctAssetParams (brData snd)) (XferAsset ct) \<noteq> None then act_err (Errorf ''cannot close asset ID in allocating account'')
     else case gget (acctAssets (brData snd)) (XferAsset ct) of
       None \<Rightarrow> act_err (Errorf ''asset not present in account'')
     | Some sndHolding \<Rightarrow>
         act_bind (Get B (AssetCloseTo ct) False) (\<lambda>dst.
         let bypassFreeze = gget (acctAssetParams (brData dst)) (XferAsset ct) \<noteq> None in
         act_bind (takeOut B source (XferAsset ct) (ahAmount sndHolding) bypassFreeze) (\<lambda>_.
         act_bind (putIn B (AssetCloseTo ct) (XferAsset ct) (ahAmount sndHolding) bypassFreeze) (\<lambda>_.
         act_bind (Get B source False) (\<lambda>snd.
         let assets = gclone (acctAssets (brData snd)) in
         if holding_amount assets (XferAsset ct) \<noteq> 0 then
           act_err (Errorf ''asset not zero after closing'')
         else Put B (snd\<lparr>brData := (brData snd)\<lparr>acctAssets := gdel (XferAsset ct) assets\<rparr>\<rparr>))))))"

definition assetTransfer_apply ::
    "'s Balances \<Rightarrow> AssetTransferTxnFields \<Rightarrow> Header \<Rightarrow> ('s, goerror, unit) act" where
  "assetTransfer_apply B ct header =
     act_bind (transfer_source B ct header) (\<lambda>(source, clawback).
     act_bind
       (act_when (AssetAmount ct = 0 \<and> AssetReceiver ct = source \<and> \<not> clawback)
          (allocate_slot B ct source)) (\<lambda>_.
     act_bind (takeOut B source (XferAsset ct) (AssetAmount ct) clawback) (\<lambda>_.
     act_bind (putIn B (AssetReceiver ct) (XferAsset ct) (AssetAmount ct) clawback) (\<lambda>_.
     if AssetCloseTo ct \<noteq> 0 then
       (if clawback then act_err (Errorf ''cannot close asset by clawback'') else close_slot B ct source)
     else act_return ()))))"

definition assetFreeze_apply ::
    "'s Balances \<Rightarrow> AssetFreezeTxnFields \<Rightarrow> Header \<Rightarrow> ('s, goerror, unit) act" where
  "assetFreeze_apply B cf header =
     act_bind (getParams B (FreezeAsset cf)) (\<lambda>(params, _).
     if apFreeze params = 0 \<or> Sender header \<noteq> apFreeze params then
       act_err (Errorf ''freeze not allowed'')
     else
       act_bind (Get B (FreezeAccount cf) False) (\<lambda>record.
       let assets = gclone (acctAssets (brData record)) in
       case gget assets (FreezeAsset cf) of
         None \<Rightarrow> act_err (Errorf ''asset not found in account'')
       | Some holding \<Rightarrow>
           Put B (record\<lparr>brData := (brData record)\<lparr>
             acctAssets := gupd (FreezeAsset cf) (holding\<lparr>ahFrozen := AssetFrozen cf\<rparr>) assets\<rparr>\<rparr>)))"

section \<open>The whole transaction\<close>

definition apply_fields ::
    "'s Balances \<Rightarrow> Transaction \<Rightarrow> SpecialAddresses \<Rightarrow> u64 \<Rightarrow> ApplyData \<Rightarrow> ('s, goerror, ApplyData) act" where
  "apply_fields B tx spec ctr ad =
     (let h = txHeader tx in
      case txType tx of
        PaymentTx \<Rightarrow> payment_apply B (txPayment tx) h ad
      | KeyRegistrationTx \<Rightarrow> act_bind (keyreg_apply B (txKeyreg tx) h spec) (\<lambda>_. act_return ad)
      | AssetConfigTx \<Rightarrow> act_bind (assetConfig_apply B (txAssetConfig tx) h ctr) (\<lambda>_. act_return ad)
      | AssetTransferTx \<Rightarrow> act_bind (assetTransfer_apply B (txAssetTransfer tx) h) (\<lambda>_. act_return ad)
      | AssetFreezeTx \<Rightarrow> act_bind (assetFreeze_apply B (txAssetFreeze tx) h) (\<lambda>_. act_return ad)
      | OtherTx _ \<Rightarrow> act_err (Errorf ''Unknown transaction type''))"

definition Transaction_Apply ::
    "'s Balances \<Rightarrow> Transaction \<Rightarrow> SpecialAddresses \<Rightarrow> u64 \<Rightarrow> ('s, goerror, ApplyData) act" where
  "Transaction_Apply B tx spec ctr =
     act_bind (act_read (balConsensusParams B)) (\<lambda>params.
     act_bind (Move B (Sender (txHeader tx)) (spFeeSink spec) (Fee (txHeader tx))
                 (Some (SenderRewards ApplyData_zero)) None) (\<lambda>(sr, _).
     act_bind (apply_fields B tx spec ctr
                 (ApplyData_zero\<lparr>SenderRewards := written 0 sr\<rparr>)) (\<lambda>ad.
     act_return
       (if \<not> RewardsInApplyData params
        then ad\<lparr>SenderRewards := 0, ReceiverRewards := 0, CloseRewards := 0\<rparr> else ad))))"

section \<open>Quantities over all accounts\<close>

type_synonym accounts = "Address \<Rightarrow> AccountData"

definition total_worth :: "ConsensusParams \<Rightarrow> u64 \<Rightarrow> accounts \<Rightarrow> nat" where
  "total_worth proto lvl m = (\<Sum>a\<in>UNIV. worth proto lvl (m a))"

definition units_held :: "AssetIndex \<Rightarrow> AccountData \<Rightarrow> nat" where
  "units_held i u = unat (holding_amount (acctAssets u) i)"

definition units_issued :: "AssetIndex \<Rightarrow> AccountData \<Rightarrow> nat" where
  "units_issued i u = (case gget (acctAssetParams u) i of None \<Rightarrow> 0 | Some p \<Rightarrow> unat (apTotal p))"

text \<open>All units of an asset that accounts hold, and all units its creators have issued.\<close>

definition held :: "AssetIndex \<Rightarrow> accounts \<Rightarrow> nat" where
  "held i m = (\<Sum>a\<in>UNIV. units_held i (m a))"

definition issued :: "AssetIndex \<Rightarrow> accounts \<Rightarrow> nat" where
  "issued i m = (\<Sum>a\<in>UNIV. units_issued i (m a))"

definition supply_ok :: "accounts \<Rightarrow> bool" where
  "supply_ok m \<longleftrightarrow> (\<forall>i. held i m = issued i m)"

text \<open>Asset indices come from the transaction counter, and a creator keeps its own slot.\<close>

definition indices_upto :: "nat \<Rightarrow> accounts \<Rightarrow> bool" where
  "indices_upto n m \<longleftrightarrow>
     (\<forall>a i. (gget (acctAssets (m a)) i \<noteq> None \<or> gget (acctAssetParams (m a)) i \<noteq> None) \<longrightarrow> unat i \<le> n)"

definition creators_hold :: "accounts \<Rightarrow> bool" where
  "creators_hold m \<longleftrightarrow>
     (\<forall>a i. gget (acctAssetParams (m a)) i \<noteq> None \<longrightarrow> gget (acctAssets (m a)) i \<noteq> None)"

lemma total_worth_upd:
  "total_worth p l (m(a := u)) + worth p l (m a) = total_worth p l m + worth p l u"
  unfolding total_worth_def by (rule sum_fun_upd_UNIV)

lemma held_upd: "held i (m(a := u)) + units_held i (m a) = held i m + units_held i u"
  unfolding held_def by (rule sum_fun_upd_UNIV)

lemma issued_upd: "issued i (m(a := u)) + units_issued i (m a) = issued i m + units_issued i u"
  unfolding issued_def by (rule sum_fun_upd_UNIV)

lemma total_worth_upd_same:
  "worth p l u = worth p l (m a) \<Longrightarrow> total_worth p l (m(a := u)) = total_worth p l m"
  using total_worth_upd [of p l m a u] by simp

lemma units_held_le: "units_held i (m a) \<le> held i m"
  unfolding held_def by (rule member_le_sum) auto

lemma worth_cong:
  "acctStatus u' = acctStatus u \<Longrightarrow> acctMicroAlgos u' = acctMicroAlgos u \<Longrightarrow>
   RewardsBase u' = RewardsBase u \<Longrightarrow> worth p l u' = worth p l u"
  by (simp add: worth_def pending_rewards_def)

text \<open>
  An update of one account that keeps its asset slots, and one that only moves an amount:
  the two shapes in which the asset invariants are kept.
\<close>

lemma supply_ok_upd_same:
  assumes "supply_ok m" and "\<And>i. units_held i u = units_held i (m a)"
    and "\<And>i. units_issued i u = units_issued i (m a)"
  shows "supply_ok (m(a := u))"
  using assms held_upd [of _ m a u] issued_upd [of _ m a u]
  by (simp add: supply_ok_def)

lemma indices_upto_upd:
  assumes "indices_upto n m"
    and "\<And>i. gget (acctAssets u) i \<noteq> None \<Longrightarrow> unat i \<le> n"
    and "\<And>i. gget (acctAssetParams u) i \<noteq> None \<Longrightarrow> unat i \<le> n"
  shows "indices_upto n (m(a := u))"
  using assms by (auto simp: indices_upto_def)

lemma creators_hold_upd:
  assumes "creators_hold m"
    and "\<And>i. gget (acctAssetParams u) i \<noteq> None \<Longrightarrow> gget (acctAssets u) i \<noteq> None"
  shows "creators_hold (m(a := u))"
  using assms by (auto simp: creators_hold_def)

section \<open>What a provider of the interface promises\<close>

text \<open>
  \<open>acct s\<close> are the accounts as the state \<open>s\<close> shows them, \<open>level s\<close> the rewards level it
  applies.  The laws are those the interface's comments state: \<open>Get\<close> reads an account, with
  its pending rewards on request; after \<open>Put\<close> and \<open>Move\<close> a later \<open>Get\<close> sees the new
  record; \<open>Move\<close> applies the rewards of both accounts and checks both sums for overflow.
\<close>

definition move_effect ::
    "ConsensusParams \<Rightarrow> u64 \<Rightarrow> Address \<Rightarrow> Address \<Rightarrow> MicroAlgos \<Rightarrow> accounts \<Rightarrow> accounts \<Rightarrow> bool" where
  "move_effect p l src dst amt m m' \<longleftrightarrow>
     (\<exists>f t. WithUpdatedRewards p l (m src) = Ok f \<and> unat amt \<le> unat (acctMicroAlgos f) \<and>
        (let m1 = m(src := f\<lparr>acctMicroAlgos := acctMicroAlgos f - amt\<rparr>) in
         WithUpdatedRewards p l (m1 dst) = Ok t \<and>
         unat (acctMicroAlgos t) + unat amt < 2 ^ 64 \<and>
         m' = m1(dst := t\<lparr>acctMicroAlgos := acctMicroAlgos t + amt\<rparr>)))"

text \<open>The accounts after a \<open>Move\<close>: nothing is created, lost, or touched on the side.\<close>

lemma move_effectE:
  assumes "move_effect p l src dst amt m m'"
  obtains f t m1 where
    "WithUpdatedRewards p l (m src) = Ok f" "unat amt \<le> unat (acctMicroAlgos f)"
    "m1 = m(src := f\<lparr>acctMicroAlgos := acctMicroAlgos f - amt\<rparr>)"
    "WithUpdatedRewards p l (m1 dst) = Ok t" "unat (acctMicroAlgos t) + unat amt < 2 ^ 64"
    "m' = m1(dst := t\<lparr>acctMicroAlgos := acctMicroAlgos t + amt\<rparr>)"
  using assms unfolding move_effect_def Let_def by blast

lemma move_effect_total:
  assumes "move_effect p l src dst amt m m'"
  shows "total_worth p l m' = total_worth p l m"
proof -
  from assms obtain f t m1 where
    f: "WithUpdatedRewards p l (m src) = Ok f" "unat amt \<le> unat (acctMicroAlgos f)" and
    m1: "m1 = m(src := f\<lparr>acctMicroAlgos := acctMicroAlgos f - amt\<rparr>)" and
    t: "WithUpdatedRewards p l (m1 dst) = Ok t" "unat (acctMicroAlgos t) + unat amt < 2 ^ 64" and
    m': "m' = m1(dst := t\<lparr>acctMicroAlgos := acctMicroAlgos t + amt\<rparr>)"
    by (rule move_effectE)
  have "total_worth p l m1 + unat amt = total_worth p l m"
    using total_worth_upd [of p l m src "f\<lparr>acctMicroAlgos := acctMicroAlgos f - amt\<rparr>"]
      WithUpdatedRewards_settles(2) [OF f(1)] WithUpdatedRewards_OkD(1) [OF f(1)] f(2)
    by (simp add: m1 unat_sub word_le_nat_alt)
  moreover have "total_worth p l m' = total_worth p l m1 + unat amt"
    using total_worth_upd [of p l m1 dst "t\<lparr>acctMicroAlgos := acctMicroAlgos t + amt\<rparr>"]
      WithUpdatedRewards_settles(2) [OF t(1)] WithUpdatedRewards_OkD(1) [OF t(1)] t(2)
    by (simp add: m' unat_word_ariths)
  ultimately show ?thesis by simp
qed

lemma move_effect_assets:
  assumes "move_effect p l src dst amt m m'"
  shows "acctAssets (m' a) = acctAssets (m a)" and "acctAssetParams (m' a) = acctAssetParams (m a)"
    and "acctStatus (m' a) = acctStatus (m a)"
  using assms by (auto elim!: move_effectE dest!: WithUpdatedRewards_frame)

lemma move_effect_frame:
  "move_effect p l src dst amt m m' \<Longrightarrow> a \<noteq> src \<Longrightarrow> a \<noteq> dst \<Longrightarrow> m' a = m a"
  by (auto elim!: move_effectE)

lemma move_effect_settled:
  assumes "move_effect p l src dst amt m m'" and "a = src \<or> a = dst"
  shows "pending_rewards p l (m' a) = 0"
  using assms
  by (auto elim!: move_effectE dest: WithUpdatedRewards_settles(1))

text \<open>A change of account data that concerns assets only.\<close>

definition acct_core :: "AccountData \<Rightarrow> AccountData" where
  "acct_core u = u\<lparr>acctAssets := None, acctAssetParams := None\<rparr>"

definition asset_only :: "accounts \<Rightarrow> accounts \<Rightarrow> bool" where
  "asset_only m m' \<longleftrightarrow> (\<forall>a. acct_core (m' a) = acct_core (m a))"

lemma acct_core_sel [simp]:
  "acctStatus (acct_core u) = acctStatus u" "acctMicroAlgos (acct_core u) = acctMicroAlgos u"
  "RewardsBase (acct_core u) = RewardsBase u"
  by (simp_all add: acct_core_def)

lemma acct_core_upd [simp]:
  "acct_core (u\<lparr>acctAssets := x\<rparr>) = acct_core u"
  "acct_core (u\<lparr>acctAssetParams := y\<rparr>) = acct_core u"
  by (simp_all add: acct_core_def)

lemma worth_core: "acct_core u' = acct_core u \<Longrightarrow> worth p l u' = worth p l u"
  by (rule worth_cong) (metis acct_core_sel)+

lemma asset_only_refl [simp]: "asset_only m m"
  by (simp add: asset_only_def)

lemma asset_only_trans: "asset_only m m1 \<Longrightarrow> asset_only m1 m2 \<Longrightarrow> asset_only m m2"
  by (simp add: asset_only_def)

lemma asset_only_upd: "acct_core u = acct_core (m a) \<Longrightarrow> asset_only m (m(a := u))"
  by (simp add: asset_only_def)

lemma asset_only_total: "asset_only m m' \<Longrightarrow> total_worth p l m' = total_worth p l m"
  by (auto simp: asset_only_def total_worth_def intro!: sum.cong worth_core)

locale balances =
  fixes B :: "'s Balances"
    and acct :: "'s \<Rightarrow> accounts"
    and level :: "'s \<Rightarrow> u64"
  assumes Get_raw: "Get B a False s = (Ok r, s') \<Longrightarrow> s' = s \<and> r = \<lparr>brAddr = a, brData = acct s a\<rparr>"
    and Get_pending: "Get B a True s = (Ok r, s') \<Longrightarrow>
          s' = s \<and> brAddr r = a \<and>
          WithUpdatedRewards (balConsensusParams B s) (level s) (acct s a) = Ok (brData r)"
    and GetAssetCreator_state: "GetAssetCreator B i s = (Ok c, s') \<Longrightarrow> s' = s"
    and Put_effect: "Put B r s = (Ok u, s') \<Longrightarrow> acct s' = (acct s)(brAddr r := brData r)"
    and Put_frame: "Put B r s = (Ok u, s') \<Longrightarrow>
          balConsensusParams B s' = balConsensusParams B s \<and> level s' = level s"
    and Move_effect: "Move B src dst amt fr tr s = (Ok w, s') \<Longrightarrow>
          move_effect (balConsensusParams B s) (level s) src dst amt (acct s) (acct s')"
    and Move_frame: "Move B src dst amt fr tr s = (Ok w, s') \<Longrightarrow>
          balConsensusParams B s' = balConsensusParams B s \<and> level s' = level s"
    and Move_then_Get: "Move B src dst amt fr tr s = (Ok w, s') \<Longrightarrow>
          a = src \<or> a = dst \<Longrightarrow> Get B a pend s' \<noteq> (Err e, s2)"
begin

abbreviation params :: "'s \<Rightarrow> ConsensusParams" where
  "params \<equiv> balConsensusParams B"

definition wealth :: "'s \<Rightarrow> nat" where
  "wealth s = total_worth (params s) (level s) (acct s)"

end

end
