(* ===== verification/Apply_Laws.thy ===== *)
theory Apply_Laws
  imports Apply
begin

text \<open>
  What every transaction keeps, proved once for any provider of the \<open>Balances\<close> interface:
  the total of all balances and pending rewards, and the books of every asset (the units held
  are the units issued, asset indices stay below the transaction counter, a creator keeps its
  own slot); and who can become poorer by a transaction.
\<close>

section \<open>Money\<close>


context balances
begin

lemma frame_trans_Move:
  assumes "Move B src dst amt fr tr s = (Ok w, s')"
  shows "wealth s' = wealth s"
  using move_effect_total [OF Move_effect [OF assms]] Move_frame [OF assms]
  by (simp add: wealth_def)

lemma Get_unchecked_after_Move:
  assumes "Move B src dst amt fr tr s = (Ok w, s1)"
    and "Get_unchecked B src pend s1 = (Ok r, s2)"
  shows "Get B src pend s1 = (Ok r, s2)"
  using assms Move_then_Get [OF assms(1), of src]
  by (auto simp: Get_unchecked_def split: prod.splits result.splits)

lemma Put_same_worth:
  assumes "Put B r s = (Ok u, s')"
    and "worth (params s) (level s) (brData r) = worth (params s) (level s) (acct s (brAddr r))"
  shows "wealth s' = wealth s"
  using Put_effect [OF assms(1)] Put_frame [OF assms(1)] assms(2)
  by (simp add: wealth_def total_worth_upd_same)

lemma close_keeps_wealth:
  assumes get: "Get B a True s = (Ok rec, s1)" and zero: "acctMicroAlgos (brData rec) = 0"
    and put: "Put B (rec\<lparr>brData := AccountData_zero\<rparr>) s1 = (Ok u, s')"
  shows "wealth s' = wealth s"
proof -
  from Get_pending [OF get] have s1: "s1 = s" and addr: "brAddr rec = a"
    and upd: "WithUpdatedRewards (params s) (level s) (acct s a) = Ok (brData rec)" by auto
  have "worth (params s) (level s) (acct s a) = 0"
    using WithUpdatedRewards_OkD(1) [OF upd] zero by simp
  moreover have "worth (params s) (level s) AccountData_zero = 0"
    by (simp add: worth_def pending_rewards_def AccountData_zero_def)
  ultimately show ?thesis
    using Put_same_worth [OF put] by (simp add: s1 addr)
qed


lemma Move_keeps:
  assumes "Move B src dst amt fr tr s = (Ok w, s')"
  shows "wealth s' = wealth s \<and> params s' = params s \<and> level s' = level s"
  using frame_trans_Move [OF assms] Move_frame [OF assms] by simp

lemma payment_pay_keeps:
  "payment_pay B payment header ad s = (Ok ad', s') \<Longrightarrow>
   wealth s' = wealth s \<and> params s' = params s \<and> level s' = level s"
  by (auto simp: payment_pay_def act_simps split: if_splits prod.splits dest!: Move_keeps)

lemma payment_closeE:
  assumes "payment_close B payment header ad s = (Ok ad', s')"
  obtains rec amt fr tr w s1 u where
    "Move B (Sender header) (CloseRemainderTo payment) amt fr tr s = (Ok w, s1)"
    "Get B (Sender header) True s1 = (Ok rec, s1)"
    "acctMicroAlgos (brData rec) = 0" "glen (acctAssets (brData rec)) = 0"
    "glen (acctAssetParams (brData rec)) = 0"
    "Put B (rec\<lparr>brData := AccountData_zero\<rparr>) s1 = (Ok u, s')"
proof -
  from assms obtain rec0 s0 amt fr tr w s1 rec s2 u where
    get0: "Get B (Sender header) True s = (Ok rec0, s0)" and
    mv: "Move B (Sender header) (CloseRemainderTo payment) amt fr tr s0 = (Ok w, s1)" and
    get: "Get_unchecked B (Sender header) True s1 = (Ok rec, s2)" and
    zero: "acctMicroAlgos (brData rec) = 0" "glen (acctAssets (brData rec)) = 0"
      "glen (acctAssetParams (brData rec)) = 0" and
    put: "Put B (rec\<lparr>brData := AccountData_zero\<rparr>) s2 = (Ok u, s')"
    unfolding payment_close_def
    by (auto simp: act_simps Let_def split: if_splits prod.splits)
  note get' = Get_unchecked_after_Move [OF mv get]
  have "s0 = s" "s2 = s1" using Get_pending [OF get0] Get_pending [OF get'] by auto
  with mv get' zero put that show thesis by blast
qed

lemma payment_close_keeps:
  assumes "payment_close B payment header ad s = (Ok ad', s')"
  shows "wealth s' = wealth s \<and> params s' = params s \<and> level s' = level s"
proof -
  obtain rec amt fr tr w s1 u where
    mv: "Move B (Sender header) (CloseRemainderTo payment) amt fr tr s = (Ok w, s1)" and
    get: "Get B (Sender header) True s1 = (Ok rec, s1)" and
    zero: "acctMicroAlgos (brData rec) = 0" and
    put: "Put B (rec\<lparr>brData := AccountData_zero\<rparr>) s1 = (Ok u, s')"
    using payment_closeE [OF assms] by metis
  show ?thesis
    using Move_keeps [OF mv] close_keeps_wealth [OF get zero put] Put_frame [OF put] by simp
qed

lemma payment_keeps:
  assumes "payment_apply B payment header ad s = (Ok ad', s')"
  shows "wealth s' = wealth s \<and> params s' = params s \<and> level s' = level s"
  using assms unfolding payment_apply_def
  by (auto simp: act_simps split: if_splits dest!: payment_pay_keeps payment_close_keeps)

text \<open>
  Registering keys leaves the balance alone but may change the account's status, on which its
  pending rewards depend: it keeps the wealth of an account that has none pending.
\<close>

lemma keyregE:
  assumes "keyreg_apply B keyreg header spec s = (Ok u, s')"
  obtains d where
    "Put B \<lparr>brAddr = Sender header, brData = d\<rparr> s = (Ok u, s')"
    "acctMicroAlgos d = acctMicroAlgos (acct s (Sender header))"
    "RewardsBase d = RewardsBase (acct s (Sender header))"
    "acctAssets d = acctAssets (acct s (Sender header))"
    "acctAssetParams d = acctAssetParams (acct s (Sender header))"
    "acctStatus (acct s (Sender header)) \<noteq> NotParticipating" "Sender header \<noteq> spFeeSink spec"
  using assms unfolding keyreg_apply_def
  by (auto simp: act_simps Let_def split: if_splits dest!: Get_raw)

lemma keyreg_keeps:
  assumes "keyreg_apply B keyreg header spec s = (Ok u, s')"
    and settled: "pending_rewards (params s) (level s) (acct s (Sender header)) = 0"
  shows "wealth s' = wealth s \<and> params s' = params s \<and> level s' = level s"
proof -
  obtain d where
    put: "Put B \<lparr>brAddr = Sender header, brData = d\<rparr> s = (Ok u, s')" and
    d: "acctMicroAlgos d = acctMicroAlgos (acct s (Sender header))"
      "RewardsBase d = RewardsBase (acct s (Sender header))"
      "acctStatus (acct s (Sender header)) \<noteq> NotParticipating"
    using assms(1) by (rule keyregE)
  have "worth (params s) (level s) d = worth (params s) (level s) (acct s (Sender header))"
    using settled d by (simp add: worth_def pending_rewards_def)
  then show ?thesis using Put_same_worth [OF put] Put_frame [OF put] by simp
qed

text \<open>The asset transactions only rewrite asset slots and parameters.\<close>

lemma getParams_state: "getParams B i s = (Ok w, s') \<Longrightarrow> s' = s"
  by (auto simp: getParams_def act_simps split: option.splits prod.splits
      dest!: GetAssetCreator_state Get_raw)

lemma getParams_found:
  assumes "getParams B i s = (Ok (p, c), s')"
  shows "gget (acctAssetParams (acct s c)) i = Some p"
  using assms unfolding getParams_def
  by (auto simp: act_simps split: option.splits dest!: GetAssetCreator_state Get_raw)

lemma getParamsD:
  "getParams B i s = (Ok (p, c), s') \<Longrightarrow> s' = s \<and> gget (acctAssetParams (acct s c)) i = Some p"
  using getParams_state getParams_found by blast

lemma takeOutE:
  assumes "takeOut B addr asset amount bypass s = (Ok u, s')"
  obtains "amount = 0" "s' = s"
  | h x where "amount \<noteq> 0" "gget (acctAssets (acct s addr)) asset = Some h"
      "ahFrozen h \<longrightarrow> bypass" "OSub (ahAmount h) amount = (x, False)"
      "Put B \<lparr>brAddr = addr, brData = (acct s addr)\<lparr>acctAssets :=
         gupd asset (h\<lparr>ahAmount := x\<rparr>) (gclone (acctAssets (acct s addr)))\<rparr>\<rparr> s = (Ok u, s')"
  using assms unfolding takeOut_def
  by (auto simp: act_simps Let_def dest!: Get_raw)

lemma putInE:
  assumes "putIn B addr asset amount bypass s = (Ok u, s')"
  obtains "amount = 0" "s' = s"
  | h x where "amount \<noteq> 0" "gget (acctAssets (acct s addr)) asset = Some h"
      "ahFrozen h \<longrightarrow> bypass" "OAdd (ahAmount h) amount = (x, False)"
      "Put B \<lparr>brAddr = addr, brData = (acct s addr)\<lparr>acctAssets :=
         gupd asset (h\<lparr>ahAmount := x\<rparr>) (gclone (acctAssets (acct s addr)))\<rparr>\<rparr> s = (Ok u, s')"
  using assms unfolding putIn_def
  by (auto simp: act_simps Let_def dest!: Get_raw)

end

section \<open>Assets\<close>


text \<open>
  Moving units between slots that exist already: the slots, the parameters and so the
  issued units stay.
\<close>

definition same_slots :: "accounts \<Rightarrow> accounts \<Rightarrow> bool" where
  "same_slots m m' \<longleftrightarrow>
     (\<forall>a. acctAssetParams (m' a) = acctAssetParams (m a) \<and>
          (\<forall>i. gget (acctAssets (m' a)) i = None \<longleftrightarrow> gget (acctAssets (m a)) i = None))"

definition assets_ok :: "nat \<Rightarrow> accounts \<Rightarrow> bool" where
  "assets_ok n m \<longleftrightarrow> supply_ok m \<and> indices_upto n m \<and> creators_hold m"

lemma same_slots_refl [simp]: "same_slots m m"
  by (simp add: same_slots_def)

lemma same_slots_trans: "same_slots m m1 \<Longrightarrow> same_slots m1 m2 \<Longrightarrow> same_slots m m2"
  by (simp add: same_slots_def)

lemma same_slots_issued: "same_slots m m' \<Longrightarrow> issued i m' = issued i m"
  by (simp add: same_slots_def issued_def units_issued_def)

lemma same_slots_assets_ok:
  assumes "same_slots m m'" and "\<And>i. held i m' = held i m" and "assets_ok n m"
  shows "assets_ok n m'"
  using assms(1,3) same_slots_issued [OF assms(1)]
  by (auto simp: assets_ok_def supply_ok_def assms(2) same_slots_def indices_upto_def creators_hold_def)

lemma held_upd_slot:
  assumes "gget (acctAssets u) = (gget (acctAssets (m a)))(i := h)"
  shows "held j (m(a := u)) + (if j = i then units_held i (m a) else 0) =
         held j m + (if j = i then unat (case h of None \<Rightarrow> 0 | Some h \<Rightarrow> ahAmount h) else 0)"
  using held_upd [of j m a u] assms by (auto simp: units_held_def holding_amount_def)

lemma move_effect_slots:
  assumes "move_effect p l src dst amt m m'"
  shows "same_slots m m'" and "held i m' = held i m"
  using move_effect_assets [OF assms]
  by (simp_all add: same_slots_def held_def units_held_def)

lemma asset_free_close:
  assumes "assets_ok n m" and "\<And>i. gget (acctAssets (m a)) i = None"
    and "\<And>i. gget (acctAssetParams (m a)) i = None"
  shows "assets_ok n (m(a := AccountData_zero))"
proof -
  have "supply_ok (m(a := AccountData_zero))"
    by (rule supply_ok_upd_same)
      (use assms in \<open>simp_all add: assets_ok_def units_held_def holding_amount_def units_issued_def AccountData_zero_def\<close>)
  with assms(1) show ?thesis
    by (auto simp: assets_ok_def indices_upto_def creators_hold_def AccountData_zero_def)
qed

context balances
begin

text \<open>Rewriting one slot of one account, and its two uses: taking units out, putting units in.\<close>

definition slot_step :: "'s \<Rightarrow> 's \<Rightarrow> bool" where
  "slot_step s s' \<longleftrightarrow> asset_only (acct s) (acct s') \<and> same_slots (acct s) (acct s') \<and>
     params s' = params s \<and> level s' = level s"

lemma slot_step_refl [simp]: "slot_step s s"
  by (simp add: slot_step_def)

lemma slot_step_trans: "slot_step s s1 \<Longrightarrow> slot_step s1 s2 \<Longrightarrow> slot_step s s2"
  by (auto simp: slot_step_def intro: asset_only_trans same_slots_trans)

lemma slot_Put:
  assumes "gget (acctAssets (acct s a)) i = Some h"
    and "Put B \<lparr>brAddr = a, brData = (acct s a)\<lparr>acctAssets :=
           gupd i h' (gclone (acctAssets (acct s a)))\<rparr>\<rparr> s = (Ok u, s')"
  shows "slot_step s s'"
    and "held j (acct s') + (if j = i then unat (ahAmount h) else 0) =
         held j (acct s) + (if j = i then unat (ahAmount h') else 0)"
proof -
  define d where "d = (acct s a)\<lparr>acctAssets := gupd i h' (gclone (acctAssets (acct s a)))\<rparr>"
  have slot: "gget (acctAssets d) = (gget (acctAssets (acct s a)))(i := Some h')"
    by (auto simp: d_def)
  have acct': "acct s' = (acct s)(a := d)" using Put_effect [OF assms(2)] by (simp add: d_def)
  show "slot_step s s'"
    using Put_frame [OF assms(2)] slot assms(1)
    by (auto simp: slot_step_def acct' asset_only_def same_slots_def) (auto simp: d_def)
  show "held j (acct s') + (if j = i then unat (ahAmount h) else 0) =
         held j (acct s) + (if j = i then unat (ahAmount h') else 0)"
    using held_upd_slot [of d "acct s" a i "Some h'" j] slot assms(1)
    by (auto simp: acct' units_held_def holding_amount_def split: if_splits)
qed

lemma takeOut_effect:
  assumes "takeOut B a i amount bypass s = (Ok u, s')"
  shows "slot_step s s'" "held j (acct s') + (if j = i then unat amount else 0) = held j (acct s)"
proof -
  have "slot_step s s' \<and> held j (acct s') + (if j = i then unat amount else 0) = held j (acct s)"
    using assms
  proof (cases rule: takeOutE)
    case (2 h x)
    then show ?thesis using OSub_nat [OF 2(4)] slot_Put(1) [OF 2(2,5)] slot_Put(2) [OF 2(2,5), of j]
      by (auto split: if_splits)
  qed simp
  then show "slot_step s s'"
    "held j (acct s') + (if j = i then unat amount else 0) = held j (acct s)" by auto
qed

lemma putIn_effect:
  assumes "putIn B a i amount bypass s = (Ok u, s')"
  shows "slot_step s s'" "held j (acct s') = held j (acct s) + (if j = i then unat amount else 0)"
proof -
  have "slot_step s s' \<and> held j (acct s') = held j (acct s) + (if j = i then unat amount else 0)"
    using assms
  proof (cases rule: putInE)
    case (2 h x)
    then show ?thesis using OAdd_nat [OF 2(4)] slot_Put(1) [OF 2(2,5)] slot_Put(2) [OF 2(2,5), of j]
      by (auto split: if_splits)
  qed simp
  then show "slot_step s s'"
    "held j (acct s') = held j (acct s) + (if j = i then unat amount else 0)" by auto
qed

text \<open>Units taken out of one slot and put into another: nobody else's count is changed.\<close>

lemma transfer_units:
  assumes "takeOut B a i amount b s = (Ok u, s1)" and "putIn B a' i amount b s1 = (Ok u', s2)"
  shows "slot_step s s2" "held j (acct s2) = held j (acct s)"
  using slot_step_trans [OF takeOut_effect(1) [OF assms(1)] putIn_effect(1) [OF assms(2)]]
    takeOut_effect(2) [OF assms(1)] putIn_effect(2) [OF assms(2)]
  by auto

definition keeps :: "nat \<Rightarrow> 's \<Rightarrow> 's \<Rightarrow> bool" where
  "keeps n s s' \<longleftrightarrow> asset_only (acct s) (acct s') \<and> (assets_ok n (acct s) \<longrightarrow> assets_ok n (acct s')) \<and>
     params s' = params s \<and> level s' = level s"

lemma keeps_refl [simp]: "keeps n s s"
  by (simp add: keeps_def)

lemma keeps_trans: "keeps n s s1 \<Longrightarrow> keeps n s1 s2 \<Longrightarrow> keeps n s s2"
  by (auto simp: keeps_def intro: asset_only_trans)

lemma asset_only_wealth:
  "asset_only (acct s) (acct s') \<and> params s' = params s \<and> level s' = level s \<Longrightarrow>
   wealth s' = wealth s \<and> params s' = params s \<and> level s' = level s"
  by (simp add: wealth_def asset_only_total)

lemma keeps_wealth:
  "keeps n s s' \<Longrightarrow> wealth s' = wealth s \<and> params s' = params s \<and> level s' = level s"
  by (rule asset_only_wealth) (simp add: keeps_def)

lemma transfer_keeps:
  assumes "takeOut B a i amount b s = (Ok u, s1)" and "putIn B a' i amount b s1 = (Ok u', s2)"
  shows "keeps n s s2"
  using transfer_units [OF assms] same_slots_assets_ok
  by (auto simp: keeps_def slot_step_def)

lemma freeze_keeps:
  assumes "assetFreeze_apply B cf header s = (Ok u, s')"
  shows "keeps n s s'"
proof -
  obtain h where h: "gget (acctAssets (acct s (FreezeAccount cf))) (FreezeAsset cf) = Some h" and
    put: "Put B \<lparr>brAddr = FreezeAccount cf, brData = (acct s (FreezeAccount cf))\<lparr>acctAssets :=
           gupd (FreezeAsset cf) (h\<lparr>ahFrozen := AssetFrozen cf\<rparr>)
             (gclone (acctAssets (acct s (FreezeAccount cf))))\<rparr>\<rparr> s = (Ok u, s')"
    using assms unfolding assetFreeze_apply_def
    by (auto simp: act_simps Let_def dest!: Get_raw getParams_state)
  have "held j (acct s') = held j (acct s)" for j
    using slot_Put(2) [OF h put, of j] by (simp split: if_splits)
  then show ?thesis
    using slot_Put(1) [OF h put] same_slots_assets_ok by (auto simp: keeps_def slot_step_def)
qed

text \<open>Opting in makes an empty slot for an asset that exists.\<close>

lemma allocate_keeps:
  assumes "allocate_slot B ct source s = (Ok u, s')"
  shows "keeps n s s'"
proof (cases "gget (acctAssets (acct s source)) (XferAsset ct)")
  case (Some h)
  then have "s' = s" using assms unfolding allocate_slot_def
    by (auto simp: act_simps Let_def dest!: Get_raw)
  then show ?thesis by simp
next
  case None
  define i where "i = XferAsset ct"
  from None assms obtain p c where found: "gget (acctAssetParams (acct s c)) i = Some p" and
    put: "Put B \<lparr>brAddr = source, brData = (acct s source)\<lparr>acctAssets :=
        gupd i \<lparr>ahAmount = 0, ahFrozen = apDefaultFrozen p\<rparr> (gclone (acctAssets (acct s source)))\<rparr>\<rparr> s
        = (Ok u, s')"
    unfolding allocate_slot_def i_def
    by (auto simp: act_simps Let_def dest!: Get_raw getParamsD)
  let ?d = "(acct s source)\<lparr>acctAssets :=
        gupd i \<lparr>ahAmount = 0, ahFrozen = apDefaultFrozen p\<rparr> (gclone (acctAssets (acct s source)))\<rparr>"
  have acct': "acct s' = (acct s)(source := ?d)" using Put_effect [OF put] by simp
  have "assets_ok n (acct s')" if ok: "assets_ok n (acct s)"
  proof -
    have "unat i \<le> n"
      using ok found by (auto simp: assets_ok_def indices_upto_def)
    moreover have "supply_ok ((acct s)(source := ?d))"
      by (rule supply_ok_upd_same)
        (use ok None in \<open>simp_all add: assets_ok_def units_held_def units_issued_def holding_amount_def i_def\<close>)
    ultimately show ?thesis
      using ok by (auto simp: assets_ok_def acct' indices_upto_def creators_hold_def)
  qed
  then show ?thesis
    using Put_frame [OF put] by (auto simp: keeps_def acct' intro: asset_only_upd)
qed

text \<open>Closing a slot moves what it holds, then deletes an empty slot of somebody else's asset.\<close>

lemma delete_slot_keeps:
  assumes put: "Put B \<lparr>brAddr = a, brData = (acct s a)\<lparr>acctAssets :=
        gdel i (gclone (acctAssets (acct s a)))\<rparr>\<rparr> s = (Ok u, s')"
    and empty: "holding_amount (acctAssets (acct s a)) i = 0"
    and foreign: "gget (acctAssetParams (acct s a)) i = None"
  shows "keeps n s s'"
proof -
  let ?d = "(acct s a)\<lparr>acctAssets := gdel i (gclone (acctAssets (acct s a)))\<rparr>"
  have acct': "acct s' = (acct s)(a := ?d)" using Put_effect [OF put] by simp
  have "assets_ok n (acct s')" if ok: "assets_ok n (acct s)"
  proof -
    have "supply_ok ((acct s)(a := ?d))"
      by (rule supply_ok_upd_same)
        (use ok empty in \<open>auto simp: assets_ok_def units_held_def units_issued_def holding_amount_def\<close>)
    then show ?thesis
      using ok foreign by (auto simp: assets_ok_def acct' indices_upto_def creators_hold_def)
  qed
  then show ?thesis
    using Put_frame [OF put] by (auto simp: keeps_def acct' intro: asset_only_upd)
qed

lemma close_slot_keeps:
  assumes "close_slot B ct source s = (Ok u, s')"
  shows "keeps n s s'"
proof -
  obtain amt b u1 s1 u2 s2 where
    foreign: "gget (acctAssetParams (acct s source)) (XferAsset ct) = None" and
    out: "takeOut B source (XferAsset ct) amt b s = (Ok u1, s1)" and
    into: "putIn B (AssetCloseTo ct) (XferAsset ct) amt b s1 = (Ok u2, s2)" and
    empty: "holding_amount (acctAssets (acct s2 source)) (XferAsset ct) = 0" and
    put: "Put B \<lparr>brAddr = source, brData = (acct s2 source)\<lparr>acctAssets :=
        gdel (XferAsset ct) (gclone (acctAssets (acct s2 source)))\<rparr>\<rparr> s2 = (Ok u, s')"
    using assms unfolding close_slot_def
    by (auto simp: act_simps Let_def holding_amount_def dest!: Get_raw)
  have "gget (acctAssetParams (acct s2 source)) (XferAsset ct) = None"
    using foreign transfer_units(1) [OF out into] by (simp add: slot_step_def same_slots_def)
  with put empty have "keeps n s2 s'" by (rule delete_slot_keeps)
  with transfer_keeps [OF out into] show ?thesis by (rule keeps_trans)
qed

lemma transfer_source_state: "transfer_source B ct header s = (Ok w, s') \<Longrightarrow> s' = s"
  by (auto simp: transfer_source_def act_simps dest!: getParams_state)

lemma assetTransferE:
  assumes "assetTransfer_apply B ct header s = (Ok u, s')"
  obtains source clawback u1 s1 u2 s2 u3 s3 where
    "transfer_source B ct header s = (Ok (source, clawback), s)"
    "act_when (AssetAmount ct = 0 \<and> AssetReceiver ct = source \<and> \<not> clawback)
       (allocate_slot B ct source) s = (Ok u1, s1)"
    "takeOut B source (XferAsset ct) (AssetAmount ct) clawback s1 = (Ok u2, s2)"
    "putIn B (AssetReceiver ct) (XferAsset ct) (AssetAmount ct) clawback s2 = (Ok u3, s3)"
    "s' = s3 \<or> \<not> clawback \<and> close_slot B ct source s3 = (Ok u, s')"
proof -
  obtain source clawback s0 u1 s1 u2 s2 u3 s3 where
    src: "transfer_source B ct header s = (Ok (source, clawback), s0)" and
    alloc: "act_when (AssetAmount ct = 0 \<and> AssetReceiver ct = source \<and> \<not> clawback)
       (allocate_slot B ct source) s0 = (Ok u1, s1)" and
    move: "takeOut B source (XferAsset ct) (AssetAmount ct) clawback s1 = (Ok u2, s2)"
      "putIn B (AssetReceiver ct) (XferAsset ct) (AssetAmount ct) clawback s2 = (Ok u3, s3)" and
    close: "(if AssetCloseTo ct \<noteq> 0 then
         if clawback then act_err (Errorf ''cannot close asset by clawback'') else close_slot B ct source
       else act_return ()) s3 = (Ok u, s')"
    using assms unfolding assetTransfer_apply_def
    by (auto simp: act_bind_Ok act_case_prod_Ok)
  have "s' = s3 \<or> \<not> clawback \<and> close_slot B ct source s3 = (Ok u, s')"
    using close by (auto simp: act_simps)
  with src alloc move transfer_source_state [OF src] that show thesis by metis
qed

lemma assetTransfer_keeps:
  assumes "assetTransfer_apply B ct header s = (Ok u, s')"
  shows "keeps n s s'"
  using assms
proof (cases rule: assetTransferE)
  case (1 source clawback u1 s1 u2 s2 u3 s3)
  have "keeps n s s1" using 1(2) allocate_keeps by (auto simp: act_simps split: if_splits)
  moreover have "keeps n s1 s3" by (rule transfer_keeps [OF 1(3,4)])
  moreover have "keeps n s3 s'" using 1(5) close_slot_keeps by auto
  ultimately show ?thesis by (blast intro: keeps_trans)
qed

end


lemma assets_ok_mono: "assets_ok n m \<Longrightarrow> n \<le> n' \<Longrightarrow> assets_ok n' m"
  by (fastforce simp: assets_ok_def indices_upto_def)

lemma fresh_unheld:
  assumes "indices_upto n m" and "n < unat i"
  shows "gget (acctAssets (m a)) i = None" "gget (acctAssetParams (m a)) i = None"
    "held i m = 0" "issued i m = 0"
proof -
  have none: "gget (acctAssets (m a)) i = None" "gget (acctAssetParams (m a)) i = None" for a
    using assms by (fastforce simp: indices_upto_def)+
  then show "gget (acctAssets (m a)) i = None" "gget (acctAssetParams (m a)) i = None" by auto
  from none show "held i m = 0" "issued i m = 0"
    by (simp_all add: held_def issued_def units_held_def holding_amount_def units_issued_def)
qed

text \<open>A new asset: all its units are issued and all of them are in the creator's slot.\<close>

lemma create_assets_ok:
  assumes ok: "assets_ok n m" and i: "unat i = Suc n"
    and u: "gget (acctAssets u) = (gget (acctAssets (m a)))(i := Some h)"
      "gget (acctAssetParams u) = (gget (acctAssetParams (m a)))(i := Some p)"
    and full: "ahAmount h = apTotal p"
  shows "assets_ok (Suc n) (m(a := u))"
proof -
  note none = fresh_unheld [of n m i]
  have "held j (m(a := u)) = issued j (m(a := u))" for j
  proof (cases "j = i")
    case True
    then show ?thesis
      using held_upd [of i m a u] issued_upd [of i m a u] none ok i u full
      by (simp add: assets_ok_def units_held_def holding_amount_def units_issued_def)
  next
    case False
    then show ?thesis
      using held_upd [of j m a u] issued_upd [of j m a u] ok u
      by (simp add: assets_ok_def supply_ok_def units_held_def holding_amount_def units_issued_def)
  qed
  moreover have "indices_upto (Suc n) (m(a := u))"
    using assets_ok_mono [OF ok, of "Suc n"] i u
    by (intro indices_upto_upd) (auto simp: assets_ok_def indices_upto_def split: if_splits)
  moreover have "creators_hold (m(a := u))"
    using ok u by (intro creators_hold_upd) (auto simp: assets_ok_def creators_hold_def split: if_splits)
  ultimately show ?thesis by (simp add: assets_ok_def supply_ok_def)
qed

text \<open>Destroying an asset all of whose units are back with the creator.\<close>

lemma destroy_assets_ok:
  assumes ok: "assets_ok n m"
    and p: "gget (acctAssetParams (m a)) i = Some p"
      "holding_amount (acctAssets (m a)) i = apTotal p"
    and u: "gget (acctAssets u) = (gget (acctAssets (m a)))(i := None)"
      "gget (acctAssetParams u) = (gget (acctAssetParams (m a)))(i := None)"
  shows "assets_ok n (m(a := u))"
proof -
  have "held j (m(a := u)) = issued j (m(a := u))" for j
    using held_upd [of j m a u] issued_upd [of j m a u] ok p u
    by (cases "j = i")
       (simp_all add: assets_ok_def supply_ok_def units_held_def holding_amount_def units_issued_def)
  moreover have "indices_upto n (m(a := u))"
    using ok u by (intro indices_upto_upd) (auto simp: assets_ok_def indices_upto_def split: if_splits)
  moreover have "creators_hold (m(a := u))"
    using ok u by (intro creators_hold_upd) (auto simp: assets_ok_def creators_hold_def split: if_splits)
  ultimately show ?thesis by (simp add: assets_ok_def supply_ok_def)
qed

lemma reconfigure_assets_ok:
  assumes ok: "assets_ok n m"
    and p: "gget (acctAssetParams (m a)) i = Some p" "apTotal p' = apTotal p"
    and u: "gget (acctAssets u) = gget (acctAssets (m a))"
      "gget (acctAssetParams u) = (gget (acctAssetParams (m a)))(i := Some p')"
  shows "assets_ok n (m(a := u))"
proof -
  have "supply_ok (m(a := u))"
    by (rule supply_ok_upd_same)
       (use ok p u in \<open>auto simp: assets_ok_def units_held_def holding_amount_def units_issued_def\<close>)
  moreover have "indices_upto n (m(a := u))"
    using ok p u by (intro indices_upto_upd) (auto simp: assets_ok_def indices_upto_def split: if_splits)
  moreover have "creators_hold (m(a := u))"
    using ok p u by (intro creators_hold_upd) (auto simp: assets_ok_def creators_hold_def split: if_splits)
  ultimately show ?thesis by (simp add: assets_ok_def)
qed

lemma reconfigure_Total [simp]: "apTotal (reconfigure p q) = apTotal p"
  by (simp add: reconfigure_def)

context balances
begin

text \<open>The three ways a configuration transaction succeeds.\<close>

lemma assetConfigE:
  assumes "assetConfig_apply B cc header ctr s = (Ok u, s')"
  obtains (create) d where "ConfigAsset cc = 0"
      "Put B \<lparr>brAddr = Sender header, brData = d\<rparr> s = (Ok u, s')"
      "acct_core d = acct_core (acct s (Sender header))"
      "gget (acctAssets d) = (gget (acctAssets (acct s (Sender header))))
         (ctr + 1 := Some \<lparr>ahAmount = apTotal (ccAssetParams cc), ahFrozen = False\<rparr>)"
      "gget (acctAssetParams d) = (gget (acctAssetParams (acct s (Sender header))))
         (ctr + 1 := Some (ccAssetParams cc))"
  | (destroy) c p d where "ConfigAsset cc \<noteq> 0" "ccAssetParams cc = AssetParams_zero"
      "gget (acctAssetParams (acct s c)) (ConfigAsset cc) = Some p"
      "apManager p \<noteq> 0" "Sender header = apManager p"
      "holding_amount (acctAssets (acct s c)) (ConfigAsset cc) = apTotal p"
      "Put B \<lparr>brAddr = c, brData = d\<rparr> s = (Ok u, s')"
      "acct_core d = acct_core (acct s c)"
      "gget (acctAssets d) = (gget (acctAssets (acct s c)))(ConfigAsset cc := None)"
      "gget (acctAssetParams d) = (gget (acctAssetParams (acct s c)))(ConfigAsset cc := None)"
  | (change) c p d where "ConfigAsset cc \<noteq> 0" "ccAssetParams cc \<noteq> AssetParams_zero"
      "gget (acctAssetParams (acct s c)) (ConfigAsset cc) = Some p"
      "apManager p \<noteq> 0" "Sender header = apManager p"
      "Put B \<lparr>brAddr = c, brData = d\<rparr> s = (Ok u, s')"
      "acct_core d = acct_core (acct s c)"
      "gget (acctAssets d) = gget (acctAssets (acct s c))"
      "gget (acctAssetParams d) = (gget (acctAssetParams (acct s c)))
         (ConfigAsset cc := Some (reconfigure p (ccAssetParams cc)))"
proof (cases "ConfigAsset cc = 0")
  case True
  from assms True show thesis unfolding assetConfig_apply_def
    by (auto simp: act_simps Let_def fun_eq_iff dest!: Get_raw intro!: create)
next
  case False
  then obtain p c where p: "gget (acctAssetParams (acct s c)) (ConfigAsset cc) = Some p"
      "apManager p \<noteq> 0" "Sender header = apManager p" and
    rest: "(if ccAssetParams cc = AssetParams_zero
      then holding_amount (acctAssets (acct s c)) (ConfigAsset cc) = apTotal p \<and>
        Put B \<lparr>brAddr = c, brData = (acct s c)\<lparr>
          acctAssets := gdel (ConfigAsset cc) (gclone (acctAssets (acct s c))),
          acctAssetParams := gdel (ConfigAsset cc) (gclone (acctAssetParams (acct s c)))\<rparr>\<rparr> s = (Ok u, s')
      else Put B \<lparr>brAddr = c, brData = (acct s c)\<lparr>
          acctAssets := gclone (acctAssets (acct s c)),
          acctAssetParams := gupd (ConfigAsset cc) (reconfigure p (ccAssetParams cc))
            (gclone (acctAssetParams (acct s c)))\<rparr>\<rparr> s = (Ok u, s'))"
    using assms unfolding assetConfig_apply_def
    by (auto simp: act_simps Let_def holding_amount_def dest!: Get_raw getParamsD)
  show thesis
  proof (cases "ccAssetParams cc = AssetParams_zero")
    case True
    note put = rest [unfolded if_P [OF True]]
    show thesis
      by (rule destroy [OF False True p conjunct1 [OF put] conjunct2 [OF put]]) (auto simp: fun_eq_iff)
  next
    case neq: False
    show thesis
      by (rule change [OF False neq p rest [unfolded if_not_P [OF neq]]]) (auto simp: fun_eq_iff)
  qed
qed

lemma Put_asset_only:
  assumes "Put B \<lparr>brAddr = a, brData = d\<rparr> s = (Ok u, s')" and "acct_core d = acct_core (acct s a)"
  shows "asset_only (acct s) (acct s') \<and> params s' = params s \<and> level s' = level s"
  using Put_effect [OF assms(1)] Put_frame [OF assms(1)] assms(2) by (simp add: asset_only_upd)

lemma assetConfig_keeps:
  assumes "assetConfig_apply B cc header ctr s = (Ok u, s')"
  shows "asset_only (acct s) (acct s') \<and> params s' = params s \<and> level s' = level s"
    and "assets_ok (unat ctr) (acct s) \<Longrightarrow> Suc (unat ctr) < 2 ^ 64 \<Longrightarrow>
         assets_ok (Suc (unat ctr)) (acct s')"
proof -
  show "asset_only (acct s) (acct s') \<and> params s' = params s \<and> level s' = level s"
    using assms by (cases rule: assetConfigE) (blast dest: Put_asset_only)+
  assume ok: "assets_ok (unat ctr) (acct s)" and wide: "Suc (unat ctr) < 2 ^ 64"
  from wide have i: "unat (ctr + 1) = Suc (unat ctr)"
    by (simp add: unat_word_ariths)
  show "assets_ok (Suc (unat ctr)) (acct s')"
    using assms
  proof (cases rule: assetConfigE)
    case (create d)
    show ?thesis using create_assets_ok [OF ok i create(4,5)] Put_effect [OF create(2)] by simp
  next
    case (destroy c p d)
    show ?thesis
      using assets_ok_mono [OF destroy_assets_ok [OF ok destroy(3,6,9,10)]] Put_effect [OF destroy(7)]
      by simp
  next
    case (change c p d)
    show ?thesis
      using assets_ok_mono [OF reconfigure_assets_ok [OF ok change(3) _ change(8,9)]]
        Put_effect [OF change(6)] by simp
  qed
qed

text \<open>Payments and key registrations leave every asset slot as it is.\<close>

lemma Move_assets_ok:
  assumes "Move B src dst amt fr tr s = (Ok w, s')" and "assets_ok n (acct s)"
  shows "assets_ok n (acct s')"
  using move_effect_slots [OF Move_effect [OF assms(1)]] assms(2) by (rule same_slots_assets_ok)

lemma payment_pay_assets_ok:
  "payment_pay B payment header ad s = (Ok ad', s') \<Longrightarrow> assets_ok n (acct s) \<Longrightarrow> assets_ok n (acct s')"
  by (auto simp: payment_pay_def act_simps split: if_splits dest: Move_assets_ok)

lemma payment_close_assets_ok:
  assumes "payment_close B payment header ad s = (Ok ad', s')" and "assets_ok n (acct s)"
  shows "assets_ok n (acct s')"
  using assms(1)
proof (cases rule: payment_closeE)
  case (1 rec amt fr tr w s1 u)
  have rec: "brAddr rec = Sender header" "acctAssets (brData rec) = acctAssets (acct s1 (Sender header))"
      "acctAssetParams (brData rec) = acctAssetParams (acct s1 (Sender header))"
    using Get_pending [OF 1(2)] WithUpdatedRewards_frame by auto
  have "assets_ok n ((acct s1)(Sender header := AccountData_zero))"
    using asset_free_close [OF Move_assets_ok [OF 1(1) assms(2)]] 1(4,5) rec
    by (simp add: glen_0_iff)
  then show ?thesis using Put_effect [OF 1(6)] rec by simp
qed

lemma payment_assets_ok:
  "payment_apply B payment header ad s = (Ok ad', s') \<Longrightarrow> assets_ok n (acct s) \<Longrightarrow> assets_ok n (acct s')"
  unfolding payment_apply_def
  by (auto simp: act_simps split: if_splits dest: payment_pay_assets_ok payment_close_assets_ok)

lemma keyreg_assets_ok:
  assumes "keyreg_apply B keyreg header spec s = (Ok u, s')" and ok: "assets_ok n (acct s)"
  shows "assets_ok n (acct s')"
proof -
  obtain d where put: "Put B \<lparr>brAddr = Sender header, brData = d\<rparr> s = (Ok u, s')" and
    d: "acctAssets d = acctAssets (acct s (Sender header))"
      "acctAssetParams d = acctAssetParams (acct s (Sender header))"
    using assms(1) by (rule keyregE)
  have slots: "same_slots (acct s) (acct s')" and held: "\<And>i. held i (acct s') = held i (acct s)"
    using Put_effect [OF put] d
    by (auto simp: same_slots_def held_def units_held_def intro!: sum.cong)
  show ?thesis using slots held ok by (rule same_slots_assets_ok)
qed

text \<open>
  A whole transaction.  Its fee is moved first, which settles the sender's rewards; this is
  why a key registration that changes the sender's status cannot change what it is worth.
\<close>

lemma apply_fields_keeps:
  assumes "apply_fields B tx spec ctr ad s = (Ok ad', s')"
    and "pending_rewards (params s) (level s) (acct s (Sender (txHeader tx))) = 0"
  shows "wealth s' = wealth s \<and> params s' = params s \<and> level s' = level s"
  using assms
  by (cases "txType tx")
     (auto simp: apply_fields_def act_simps Let_def
       dest!: payment_keeps keyreg_keeps asset_only_wealth [OF assetConfig_keeps(1)]
         assetTransfer_keeps [where n = 0, THEN keeps_wealth] freeze_keeps [where n = 0, THEN keeps_wealth])

lemma apply_fields_assets_ok:
  assumes "apply_fields B tx spec ctr ad s = (Ok ad', s')"
    and "assets_ok (unat ctr) (acct s)" and "Suc (unat ctr) < 2 ^ 64"
  shows "assets_ok (Suc (unat ctr)) (acct s')"
proof (cases "txType tx = AssetConfigTx")
  case True
  with assms show ?thesis
    by (auto simp: apply_fields_def act_simps Let_def intro: assetConfig_keeps(2))
next
  case False
  have "assets_ok (unat ctr) (acct s')"
    using assms False
    by (cases "txType tx")
       (auto simp: apply_fields_def act_simps Let_def keeps_def
         dest: payment_assets_ok keyreg_assets_ok dest!: assetTransfer_keeps [where n = "unat ctr"]
           freeze_keeps [where n = "unat ctr"])
  then show ?thesis by (rule assets_ok_mono) simp
qed

lemma Transaction_ApplyE:
  assumes "Transaction_Apply B tx spec ctr s = (Ok ad, s')"
  obtains fr w s1 ad0 ad1 where
    "Move B (Sender (txHeader tx)) (spFeeSink spec) (Fee (txHeader tx)) fr None s = (Ok w, s1)"
    "apply_fields B tx spec ctr ad0 s1 = (Ok ad1, s')"
  using assms unfolding Transaction_Apply_def by (auto simp: act_simps)

lemma Transaction_Apply_keeps:
  assumes "Transaction_Apply B tx spec ctr s = (Ok ad, s')"
  shows "wealth s' = wealth s \<and> params s' = params s \<and> level s' = level s"
  using assms
proof (rule Transaction_ApplyE)
  fix fr w s1 ad0 ad1
  assume mv: "Move B (Sender (txHeader tx)) (spFeeSink spec) (Fee (txHeader tx)) fr None s = (Ok w, s1)"
    and fields: "apply_fields B tx spec ctr ad0 s1 = (Ok ad1, s')"
  have "pending_rewards (params s1) (level s1) (acct s1 (Sender (txHeader tx))) = 0"
    using move_effect_settled [OF Move_effect [OF mv]] Move_frame [OF mv] by simp
  with apply_fields_keeps [OF fields] Move_keeps [OF mv] show ?thesis by simp
qed

lemma Transaction_Apply_assets_ok:
  assumes "Transaction_Apply B tx spec ctr s = (Ok ad, s')"
    and "assets_ok (unat ctr) (acct s)" and "Suc (unat ctr) < 2 ^ 64"
  shows "assets_ok (Suc (unat ctr)) (acct s')"
  using assms(1)
  by (rule Transaction_ApplyE) (blast intro: apply_fields_assets_ok Move_assets_ok assms(2,3))

end

section \<open>Who can become poorer\<close>


lemma move_effect_mono:
  assumes "move_effect p l src dst amt m m'" and "a \<noteq> src"
  shows "worth p l (m a) \<le> worth p l (m' a)"
  using assms(1)
proof (rule move_effectE)
  fix f t m1
  assume m1: "m1 = m(src := f\<lparr>acctMicroAlgos := acctMicroAlgos f - amt\<rparr>)"
    and t: "WithUpdatedRewards p l (m1 dst) = Ok t" "unat (acctMicroAlgos t) + unat amt < 2 ^ 64"
    and m': "m' = m1(dst := t\<lparr>acctMicroAlgos := acctMicroAlgos t + amt\<rparr>)"
  show ?thesis
    using WithUpdatedRewards_settles(2) [OF t(1)] WithUpdatedRewards_OkD(1) [OF t(1)] t(2) assms(2)
    by (auto simp: m' m1 unat_word_ariths)
qed

context balances
begin

text \<open>Only the sender of a transaction can become poorer by it.\<close>

definition not_debited :: "Address \<Rightarrow> 's \<Rightarrow> 's \<Rightarrow> bool" where
  "not_debited a s s' \<longleftrightarrow>
     worth (params s) (level s) (acct s a) \<le> worth (params s) (level s) (acct s' a)"

lemma Move_not_debited:
  "Move B src dst amt fr tr s = (Ok w, s') \<Longrightarrow> a \<noteq> src \<Longrightarrow> not_debited a s s'"
  unfolding not_debited_def by (blast dest: Move_effect intro: move_effect_mono)

lemma not_debited_trans:
  "not_debited a s s1 \<Longrightarrow> params s1 = params s \<and> level s1 = level s \<Longrightarrow> not_debited a s1 s2 \<Longrightarrow>
   not_debited a s s2"
  by (auto simp: not_debited_def)

lemma asset_only_not_debited: "asset_only (acct s) (acct s') \<Longrightarrow> not_debited a s s'"
  by (simp add: not_debited_def asset_only_def worth_core [of "acct s' a" "acct s a"])

lemma payment_pay_not_debited:
  "payment_pay B payment header ad s = (Ok ad', s') \<Longrightarrow> a \<noteq> Sender header \<Longrightarrow> not_debited a s s'"
  by (auto simp: payment_pay_def act_simps not_debited_def [of a s s] split: if_splits
      dest!: Move_not_debited)

lemma payment_close_not_debited:
  assumes "payment_close B payment header ad s = (Ok ad', s')" and a: "a \<noteq> Sender header"
  shows "not_debited a s s'"
  using assms(1)
proof (cases rule: payment_closeE)
  case (1 rec amt fr tr w s1 u)
  have "acct s' a = acct s1 a"
    using Put_effect [OF 1(6)] Get_pending [OF 1(2)] a by simp
  with Move_not_debited [OF 1(1) a] show ?thesis by (simp add: not_debited_def)
qed

lemma payment_not_debited:
  assumes "payment_apply B payment header ad s = (Ok ad', s')" and a: "a \<noteq> Sender header"
  shows "not_debited a s s'"
proof -
  obtain ad1 s1 where pay: "payment_pay B payment header ad s = (Ok ad1, s1)" and
    close: "s' = s1 \<or> payment_close B payment header ad1 s1 = (Ok ad', s')"
    using assms(1) unfolding payment_apply_def by (auto simp: act_simps split: if_splits)
  have "not_debited a s1 s'"
    using close payment_close_not_debited [OF _ a] by (auto simp: not_debited_def)
  with payment_pay_not_debited [OF pay a] payment_pay_keeps [OF pay] show ?thesis
    by (blast intro: not_debited_trans)
qed

lemma keyreg_not_debited:
  assumes "keyreg_apply B keyreg header spec s = (Ok u, s')" and a: "a \<noteq> Sender header"
  shows "not_debited a s s'"
  using assms(1)
proof (rule keyregE)
  fix d assume put: "Put B \<lparr>brAddr = Sender header, brData = d\<rparr> s = (Ok u, s')"
  show ?thesis using Put_effect [OF put] a by (simp add: not_debited_def)
qed

lemma apply_fields_not_debited:
  assumes "apply_fields B tx spec ctr ad s = (Ok ad', s')" and "a \<noteq> Sender (txHeader tx)"
  shows "not_debited a s s'"
  using assms
  by (cases "txType tx")
     (auto simp: apply_fields_def act_simps Let_def keeps_def
       intro: payment_not_debited keyreg_not_debited
       dest: asset_only_not_debited [where a = a]
       dest!: assetTransfer_keeps [where n = 0] freeze_keeps [where n = 0] assetConfig_keeps(1))

lemma Transaction_Apply_not_debited:
  assumes "Transaction_Apply B tx spec ctr s = (Ok ad, s')" and a: "a \<noteq> Sender (txHeader tx)"
  shows "worth (params s) (level s) (acct s a) \<le> worth (params s) (level s) (acct s' a)"
  using assms(1)
proof (rule Transaction_ApplyE)
  fix fr w s1 ad0 ad1
  assume mv: "Move B (Sender (txHeader tx)) (spFeeSink spec) (Fee (txHeader tx)) fr None s = (Ok w, s1)"
    and fields: "apply_fields B tx spec ctr ad0 s1 = (Ok ad1, s')"
  show ?thesis
    using not_debited_trans [OF Move_not_debited [OF mv a] Move_frame [OF mv]
        apply_fields_not_debited [OF fields a]]
    by (simp add: not_debited_def)
qed

text \<open>
  Who can reduce an account's holding of an asset: the account itself, the asset's clawback
  address, or its manager destroying it.
\<close>

lemma takeOut_others:
  "takeOut B addr i amount b s = (Ok u, s') \<Longrightarrow> a \<noteq> addr \<Longrightarrow> acct s' a = acct s a"
  by (erule takeOutE) (auto dest!: Put_effect)

lemma takeOut_other_asset:
  "takeOut B addr i amount b s = (Ok u, s') \<Longrightarrow> j \<noteq> i \<Longrightarrow> units_held j (acct s' a) = units_held j (acct s a)"
  by (erule takeOutE) (auto dest!: Put_effect simp: units_held_def holding_amount_def)

lemma putIn_mono:
  assumes "putIn B addr i amount b s = (Ok u, s')"
  shows "units_held j (acct s a) \<le> units_held j (acct s' a)"
  using assms
proof (cases rule: putInE)
  case (2 h x)
  then show ?thesis
    using OAdd_nat [OF 2(4)] Put_effect [OF 2(5)] by (auto simp: units_held_def holding_amount_def)
qed simp

lemma allocate_units:
  assumes "allocate_slot B ct source s = (Ok u, s')"
  shows "units_held j (acct s' a) = units_held j (acct s a)"
proof (cases "gget (acctAssets (acct s source)) (XferAsset ct)")
  case (Some h)
  then have "s' = s" using assms unfolding allocate_slot_def
    by (auto simp: act_simps Let_def dest!: Get_raw)
  then show ?thesis by simp
next
  case None
  with assms show ?thesis unfolding allocate_slot_def
    by (auto simp: act_simps Let_def units_held_def holding_amount_def dest!: Get_raw getParamsD Put_effect)
qed

lemma close_slot_others:
  assumes "close_slot B ct source s = (Ok u, s')" and "a \<noteq> source"
  shows "units_held j (acct s a) \<le> units_held j (acct s' a)"
proof -
  obtain amt b u1 s1 u2 s2 r where
    out: "takeOut B source (XferAsset ct) amt b s = (Ok u1, s1)" and
    into: "putIn B (AssetCloseTo ct) (XferAsset ct) amt b s1 = (Ok u2, s2)" and
    put: "Put B r s2 = (Ok u, s')" "brAddr r = source"
    using assms(1) unfolding close_slot_def by (auto simp: act_simps Let_def dest!: Get_raw)
  show ?thesis
    using takeOut_others [OF out assms(2)] putIn_mono [OF into, of j a] Put_effect [OF put(1)]
      put(2) assms(2) by simp
qed

text \<open>The clawback address of an asset may move units out of any account that holds it.\<close>

lemma transfer_sourceE:
  assumes "transfer_source B ct header s = (Ok (source, clawback), s')"
  obtains "\<not> clawback" "source = Sender header" "AssetSender ct = 0" "s' = s"
  | c p where "clawback" "source = AssetSender ct" "s' = s"
      "gget (acctAssetParams (acct s c)) (XferAsset ct) = Some p"
      "apClawback p \<noteq> 0" "apClawback p = Sender header"
  using assms unfolding transfer_source_def
  by (auto simp: act_simps dest!: getParamsD split: if_splits)

lemma assetTransfer_units:
  assumes "assetTransfer_apply B ct header s = (Ok u, s')" and a: "a \<noteq> Sender header"
    and less: "units_held i (acct s' a) < units_held i (acct s a)"
  shows "a = AssetSender ct \<and> i = XferAsset ct \<and>
    (\<exists>c p. gget (acctAssetParams (acct s c)) i = Some p \<and> apClawback p = Sender header)"
  using assms(1)
proof (cases rule: assetTransferE)
  case (1 source clawback u1 s1 u2 s2 u3 s3)
  note out = 1(3) and into = 1(4)
  have alloc: "units_held i (acct s1 a) = units_held i (acct s a)"
    using 1(2) allocate_units by (auto simp: act_simps split: if_splits)
  show ?thesis
    using 1(1)
  proof (cases rule: transfer_sourceE)
    case own: 1
    have "units_held i (acct s3 a) \<le> units_held i (acct s' a)"
      using 1(5) own a by (auto intro: close_slot_others)
    then show ?thesis
      using less alloc takeOut_others [OF out] putIn_mono [OF into, of i a] own a by simp
  next
    case (2 c p)
    have "units_held i (acct s2 a) < units_held i (acct s1 a)"
      using 1(5) 2 less alloc putIn_mono [OF into, of i a] by auto
    then have "a = source" "i = XferAsset ct"
      using takeOut_others [OF out, of a] takeOut_other_asset [OF out, of i a] by force+
    with 2 show ?thesis by auto
  qed
qed

text \<open>The manager of an asset may destroy it, which empties the creator's slot.\<close>

lemma assetConfig_units:
  assumes "assetConfig_apply B cc header ctr s = (Ok u, s')" and "a \<noteq> Sender header"
    and "units_held i (acct s' a) < units_held i (acct s a)"
  shows "i = ConfigAsset cc \<and> ccAssetParams cc = AssetParams_zero \<and>
    (\<exists>p. gget (acctAssetParams (acct s a)) i = Some p \<and> apManager p = Sender header)"
  using assms(1)
proof (cases rule: assetConfigE)
  case (create d)
  then show ?thesis using assms(2,3) Put_effect [OF create(2)] by simp
next
  case (destroy c p d)
  then show ?thesis using assms(3) Put_effect [OF destroy(7)]
    by (auto simp: units_held_def holding_amount_def split: if_splits)
next
  case (change c p d)
  then show ?thesis using assms(3) Put_effect [OF change(6)]
    by (auto simp: units_held_def holding_amount_def split: if_splits)
qed

lemma assetFreeze_units:
  assumes "assetFreeze_apply B cf header s = (Ok u, s')"
  shows "units_held i (acct s' a) = units_held i (acct s a)"
  using assms unfolding assetFreeze_apply_def
  by (auto simp: act_simps Let_def units_held_def holding_amount_def
      dest!: Get_raw getParams_state Put_effect)

lemma Move_units: 
  "Move B src dst amt fr tr s = (Ok w, s') \<Longrightarrow> units_held i (acct s' a) = units_held i (acct s a)"
  using move_effect_assets(1) [OF Move_effect] by (simp add: units_held_def)

lemma Move_params:
  "Move B src dst amt fr tr s = (Ok w, s') \<Longrightarrow> acctAssetParams (acct s' a) = acctAssetParams (acct s a)"
  using move_effect_assets(2) [OF Move_effect] by simp

lemma payment_units:
  assumes "payment_apply B payment header ad s = (Ok ad', s')" and a: "a \<noteq> Sender header"
  shows "units_held i (acct s' a) = units_held i (acct s a)"
proof -
  obtain ad1 s1 where pay: "payment_pay B payment header ad s = (Ok ad1, s1)" and
    close: "s' = s1 \<or> payment_close B payment header ad1 s1 = (Ok ad', s')"
    using assms(1) unfolding payment_apply_def by (auto simp: act_simps split: if_splits)
  have "units_held i (acct s1 a) = units_held i (acct s a)"
    using pay by (auto simp: payment_pay_def act_simps split: if_splits dest!: Move_units [where a = a])
  moreover have "units_held i (acct s' a) = units_held i (acct s1 a)"
    if "payment_close B payment header ad1 s1 = (Ok ad', s')"
    using that
  proof (cases rule: payment_closeE)
    case (1 rec amt fr tr w s2 u)
    then show ?thesis
      using Put_effect [OF 1(6)] Get_pending [OF 1(2)] Move_units [OF 1(1), of i a] a by simp
  qed
  ultimately show ?thesis using close by auto
qed

lemma keyreg_units:
  assumes "keyreg_apply B keyreg header spec s = (Ok u, s')"
  shows "units_held i (acct s' a) = units_held i (acct s a)"
  using assms
proof (rule keyregE)
  fix d assume put: "Put B \<lparr>brAddr = Sender header, brData = d\<rparr> s = (Ok u, s')"
    and "acctAssets d = acctAssets (acct s (Sender header))"
  then show ?thesis using Put_effect [OF put] by (simp add: units_held_def)
qed

lemma apply_fields_units:
  assumes "apply_fields B tx spec ctr ad s = (Ok ad', s')" and a: "a \<noteq> Sender (txHeader tx)"
    and less: "units_held i (acct s' a) < units_held i (acct s a)"
  shows "txType tx = AssetTransferTx \<and> a = AssetSender (txAssetTransfer tx) \<and>
      i = XferAsset (txAssetTransfer tx) \<and>
      (\<exists>c p. gget (acctAssetParams (acct s c)) i = Some p \<and> apClawback p = Sender (txHeader tx)) \<or>
    txType tx = AssetConfigTx \<and> i = ConfigAsset (txAssetConfig tx) \<and>
      ccAssetParams (txAssetConfig tx) = AssetParams_zero \<and>
      (\<exists>p. gget (acctAssetParams (acct s a)) i = Some p \<and> apManager p = Sender (txHeader tx))"
proof (cases "txType tx")
  case PaymentTx
  with assms payment_units [of "txPayment tx" "txHeader tx" ad s ad' s' a i] show ?thesis
    by (simp add: apply_fields_def Let_def)
next
  case KeyRegistrationTx
  with assms show ?thesis by (auto simp: apply_fields_def Let_def act_simps dest!: keyreg_units [of _ _ _ _ _ _ i a])
next
  case AssetConfigTx
  with assms assetConfig_units [OF _ a less] show ?thesis
    by (auto simp: apply_fields_def Let_def act_simps)
next
  case AssetTransferTx
  with assms assetTransfer_units [OF _ a less] show ?thesis
    by (auto simp: apply_fields_def Let_def act_simps)
next
  case AssetFreezeTx
  with assms show ?thesis by (auto simp: apply_fields_def Let_def act_simps dest!: assetFreeze_units [of _ _ _ _ _ i a])
next
  case (OtherTx t)
  with assms show ?thesis by (simp add: apply_fields_def Let_def act_simps)
qed

lemma Transaction_Apply_units:
  assumes "Transaction_Apply B tx spec ctr s = (Ok ad, s')" and a: "a \<noteq> Sender (txHeader tx)"
    and less: "units_held i (acct s' a) < units_held i (acct s a)"
  shows "txType tx = AssetTransferTx \<and> a = AssetSender (txAssetTransfer tx) \<and>
      i = XferAsset (txAssetTransfer tx) \<and>
      (\<exists>c p. gget (acctAssetParams (acct s c)) i = Some p \<and> apClawback p = Sender (txHeader tx)) \<or>
    txType tx = AssetConfigTx \<and> i = ConfigAsset (txAssetConfig tx) \<and>
      ccAssetParams (txAssetConfig tx) = AssetParams_zero \<and>
      (\<exists>p. gget (acctAssetParams (acct s a)) i = Some p \<and> apManager p = Sender (txHeader tx))"
  using assms(1)
proof (rule Transaction_ApplyE)
  fix fr w s1 ad0 ad1
  assume mv: "Move B (Sender (txHeader tx)) (spFeeSink spec) (Fee (txHeader tx)) fr None s = (Ok w, s1)"
    and fields: "apply_fields B tx spec ctr ad0 s1 = (Ok ad1, s')"
  show ?thesis
    using apply_fields_units [OF fields a] less by (simp only: Move_units [OF mv] Move_params [OF mv])
qed

end


section \<open>State predicates every interface call keeps\<close>

text \<open>
  A predicate on the state that the four calls of the interface keep is kept by every
  transaction: the layers below use this for what \<open>Apply\<close> must not touch.
\<close>

definition act_keeps :: "('s \<Rightarrow> bool) \<Rightarrow> ('s, 'e, 'a) act \<Rightarrow> bool" where
  "act_keeps P m \<longleftrightarrow> (\<forall>s b s'. m s = (Ok b, s') \<longrightarrow> P s \<longrightarrow> P s')"

lemma act_keepsD: "act_keeps P m \<Longrightarrow> m s = (Ok b, s') \<Longrightarrow> P s \<Longrightarrow> P s'"
  by (simp add: act_keeps_def)

named_theorems act_keeps_intros \<open>introduction rules for kept predicates\<close>

lemma act_keeps_bind [act_keeps_intros]:
  "act_keeps P m \<Longrightarrow> (\<And>a. act_keeps P (f a)) \<Longrightarrow> act_keeps P (act_bind m f)"
  unfolding act_keeps_def act_bind_Ok by blast

lemma act_keeps_pure [act_keeps_intros]:
  "act_keeps P (act_return a)" "act_keeps P (act_err e)" "act_keeps P (act_panic e)"
  "act_keeps P (act_lift r)" "act_keeps P (act_read g)" "act_keeps P (act_guard c e)"
  by (simp_all add: act_keeps_def act_simps)

lemma act_keeps_when [act_keeps_intros]: "act_keeps P m \<Longrightarrow> act_keeps P (act_when c m)"
  by (simp add: act_keeps_def act_simps)

lemma act_keeps_if [act_keeps_intros]:
  "act_keeps P m \<Longrightarrow> act_keeps P n \<Longrightarrow> act_keeps P (if c then m else n)"
  by simp

lemma act_keeps_option [act_keeps_intros]:
  "act_keeps P m \<Longrightarrow> (\<And>x. act_keeps P (f x)) \<Longrightarrow> act_keeps P (case y of None \<Rightarrow> m | Some x \<Rightarrow> f x)"
  by (cases y) simp_all

lemma act_keeps_prod [act_keeps_intros]:
  "(\<And>x y. act_keeps P (f x y)) \<Longrightarrow> act_keeps P (case z of (x, y) \<Rightarrow> f x y)"
  by (cases z) simp

lemma act_keeps_Let [act_keeps_intros]: "(\<And>x. act_keeps P (f x)) \<Longrightarrow> act_keeps P (Let y f)"
  by (simp add: Let_def)

text \<open>A failing \<open>Get\<close> must keep it too, since one caller goes on after the error.\<close>

definition calls_keep :: "'s Balances \<Rightarrow> ('s \<Rightarrow> bool) \<Rightarrow> bool" where
  "calls_keep B P \<longleftrightarrow> (\<forall>a p s r s'. Get B a p s = (r, s') \<longrightarrow> P s \<longrightarrow> P s') \<and>
     (\<forall>i. act_keeps P (GetAssetCreator B i)) \<and>
     (\<forall>r. act_keeps P (Put B r)) \<and> (\<forall>src dst amt fr tr. act_keeps P (Move B src dst amt fr tr))"

lemma calls_keepD [act_keeps_intros]:
  assumes "calls_keep B P"
  shows "act_keeps P (Get B a p)" "act_keeps P (GetAssetCreator B i)" "act_keeps P (Put B r)"
    "act_keeps P (Move B src dst amt fr tr)" "act_keeps P (Get_unchecked B a p)"
proof -
  have get: "Get B a p s = (r, s') \<Longrightarrow> P s \<Longrightarrow> P s'" for s r s'
    using assms unfolding calls_keep_def by blast
  show "act_keeps P (Get B a p)" using get by (auto simp: act_keeps_def)
  show "act_keeps P (Get_unchecked B a p)"
    using get by (auto simp: act_keeps_def Get_unchecked_def split: prod.splits result.splits)
qed (use assms in \<open>simp_all add: calls_keep_def\<close>)

lemma getParams_act_keeps [act_keeps_intros]: "calls_keep B P \<Longrightarrow> act_keeps P (getParams B i)"
  unfolding getParams_def by (intro act_keeps_intros)

lemma takeOut_act_keeps [act_keeps_intros]: "calls_keep B P \<Longrightarrow> act_keeps P (takeOut B a i n f)"
  unfolding takeOut_def by (intro act_keeps_intros)

lemma putIn_act_keeps [act_keeps_intros]: "calls_keep B P \<Longrightarrow> act_keeps P (putIn B a i n f)"
  unfolding putIn_def by (intro act_keeps_intros)

lemma payment_act_keeps [act_keeps_intros]: "calls_keep B P \<Longrightarrow> act_keeps P (payment_apply B p h ad)"
  unfolding payment_apply_def payment_pay_def payment_close_def by (intro act_keeps_intros)

lemma keyreg_act_keeps [act_keeps_intros]: "calls_keep B P \<Longrightarrow> act_keeps P (keyreg_apply B k h spec)"
  unfolding keyreg_apply_def by (intro act_keeps_intros)

lemma assetConfig_act_keeps [act_keeps_intros]: "calls_keep B P \<Longrightarrow> act_keeps P (assetConfig_apply B c h n)"
  unfolding assetConfig_apply_def by (intro act_keeps_intros)

lemma assetTransfer_act_keeps [act_keeps_intros]: "calls_keep B P \<Longrightarrow> act_keeps P (assetTransfer_apply B c h)"
  unfolding assetTransfer_apply_def transfer_source_def allocate_slot_def close_slot_def
  by (intro act_keeps_intros)

lemma assetFreeze_act_keeps [act_keeps_intros]: "calls_keep B P \<Longrightarrow> act_keeps P (assetFreeze_apply B c h)"
  unfolding assetFreeze_apply_def by (intro act_keeps_intros)

lemma Transaction_Apply_keeps_inv:
  assumes "calls_keep B P" and "Transaction_Apply B tx spec ctr s = (Ok ad, s')" and "P s"
  shows "P s'"
proof -
  have "act_keeps P (apply_fields B tx spec ctr d)" for d
    unfolding apply_fields_def using assms(1)
    by (cases "txType tx") (auto intro!: act_keeps_intros simp: Let_def)
  then have "act_keeps P (Transaction_Apply B tx spec ctr)"
    unfolding Transaction_Apply_def using assms(1) by (intro act_keeps_intros)
  then show ?thesis using assms(2,3) by (rule act_keepsD)
qed

end
