(* ===== verification/Multisig.thy ===== *)
theory Multisig
  imports Basics
begin

text \<open>
  Multisignatures (\<open>crypto/multisig.go\<close>): the address of a group of keys, signing by one
  member, assembling and merging partial signatures, and verification.

  A signature is a 64-byte array; the hash \<open>H\<close>, the signature check \<open>V\<close> of a message and the
  signing function of a key come from the C library and are parameters.
\<close>

section \<open>Data\<close>

type_synonym PublicKey = bytes32
type_synonym Signature = "512 word"

record MultisigSubsig =
  Key :: PublicKey
  subSig :: Signature

record MultisigSig =
  msVersion :: byte
  msThreshold :: byte
  Subsigs :: "MultisigSubsig slice"

definition MultisigSig_zero :: MultisigSig where
  "MultisigSig_zero = \<lparr>msVersion = 0, msThreshold = 0, Subsigs = None\<rparr>"

definition MultisigSubsig_zero :: MultisigSubsig where
  "MultisigSubsig_zero = \<lparr>Key = 0, subSig = 0\<rparr>"

type_synonym hash_fun = "byte list \<Rightarrow> Digest"
type_synonym 'm verifier = "PublicKey \<Rightarrow> 'm \<Rightarrow> Signature \<Rightarrow> bool"

text \<open>The 32 bytes of an array, first byte first.\<close>

definition array_bytes :: "bytes32 \<Rightarrow> byte list" where
  "array_bytes w = map (\<lambda>i. ucast (drop_bit (8 * (31 - i)) w)) [0..<32]"

definition string_bytes :: "string \<Rightarrow> byte list" where
  "string_bytes s = map (\<lambda>c. of_nat (of_char c)) s"

section \<open>Operations\<close>

definition MultisigPreimageFromPKs :: "byte \<Rightarrow> byte \<Rightarrow> PublicKey list \<Rightarrow> MultisigSig" where
  "MultisigPreimageFromPKs version threshold pks =
     \<lparr>msVersion = version, msThreshold = threshold,
      Subsigs = Some (map (\<lambda>pk. MultisigSubsig_zero\<lparr>Key := pk\<rparr>) pks)\<rparr>"

definition Msig_Blank :: "MultisigSig \<Rightarrow> bool" where
  "Msig_Blank msig =
     (if msVersion msig \<noteq> 0 then False
      else if msThreshold msig \<noteq> 0 then False
      else if Subsigs msig \<noteq> None then False
      else True)"

definition Preimage :: "MultisigSig \<Rightarrow> byte \<times> byte \<times> PublicKey list" where
  "Preimage msig = (msVersion msig, msThreshold msig, map Key (elems (Subsigs msig)))"

definition multiSigString :: string where
  "multiSigString = ''MultisigAddr''"

definition maxMultisig :: nat where
  "maxMultisig = 255"

definition multisig_buffer :: "byte \<Rightarrow> byte \<Rightarrow> PublicKey list \<Rightarrow> byte list" where
  "multisig_buffer version threshold pk =
     string_bytes multiSigString @ [version, threshold] @ concat (map array_bytes pk)"

definition MultisigAddrGen ::
    "hash_fun \<Rightarrow> byte \<Rightarrow> byte \<Rightarrow> PublicKey list \<Rightarrow> (goerror, Digest) result" where
  "MultisigAddrGen H version threshold pk =
     (if version \<noteq> 1 then Err (Errorf ''unknown version'')
      else if threshold = 0 \<or> length pk = 0 \<or> unat threshold > length pk then
        Err (Errorf ''Invalid threshold'')
      else Ok (H (multisig_buffer version threshold pk)))"

definition MultisigAddrGenWithSubsigs ::
    "hash_fun \<Rightarrow> byte \<Rightarrow> byte \<Rightarrow> MultisigSubsig list \<Rightarrow> (goerror, Digest) result" where
  "MultisigAddrGenWithSubsigs H version threshold subsigs =
     (if version \<noteq> 1 then Err (Errorf ''unknown version'')
      else if threshold = 0 \<or> length subsigs = 0 \<or> unat threshold > length subsigs then
        Err (Errorf ''Invalid threshold'')
      else Ok (H (multisig_buffer version threshold (map Key subsigs))))"

text \<open>The secret key: its public half and what it signs a message to.\<close>

record 'm SecretKey =
  SignatureVerifier :: PublicKey
  skSign :: "'m \<Rightarrow> Signature"

definition MultisigSign ::
    "hash_fun \<Rightarrow> 'm \<Rightarrow> Digest \<Rightarrow> byte \<Rightarrow> byte \<Rightarrow> PublicKey list \<Rightarrow> 'm SecretKey
     \<Rightarrow> (goerror, MultisigSig) result" where
  "MultisigSign H msg addr version threshold pk sk =
     (if version \<noteq> 1 then Err (Errorf ''unknown version'')
      else res_bind (MultisigAddrGen H version threshold pk) (\<lambda>addrnew.
        if addr \<noteq> addrnew then Err (Errorf ''Invalid address'')
        else if \<not> list_ex (\<lambda>k. SignatureVerifier sk = k) pk then Err (Errorf ''Key does not exist'')
        else Ok \<lparr>msVersion = version, msThreshold = threshold,
               Subsigs = Some (map (\<lambda>k. \<lparr>Key = k,
                 subSig = (if SignatureVerifier sk = k then skSign sk msg else 0)\<rparr>) pk)\<rparr>))"

text \<open>\<open>MultisigAssemble\<close>: the checks against the first signature, in the order of the loop.\<close>

fun assemble_check :: "MultisigSig \<Rightarrow> MultisigSig list \<Rightarrow> (goerror, unit) result" where
  "assemble_check u0 [] = Ok ()"
| "assemble_check u0 (u # us) =
     (if msThreshold u0 \<noteq> msThreshold u then Err (Errorf ''Invalid threshold'')
      else if msVersion u0 \<noteq> msVersion u then Err (Errorf ''Invalid version'')
      else if length (elems (Subsigs u0)) \<noteq> length (elems (Subsigs u)) then
        Err (Errorf ''Invalid number of signatures'')
      else if map Key (elems (Subsigs u0)) \<noteq> map Key (elems (Subsigs u)) then
        Err (Errorf ''Public key lists do not match'')
      else assemble_check u0 us)"

definition overlay :: "MultisigSubsig list \<Rightarrow> MultisigSubsig list \<Rightarrow> MultisigSubsig list" where
  "overlay = map2 (\<lambda>m u. if subSig u \<noteq> 0 then m\<lparr>subSig := subSig u\<rparr> else m)"

definition MultisigAssemble :: "MultisigSig list \<Rightarrow> (goerror, MultisigSig) result" where
  "MultisigAssemble unisig =
     (if length unisig < 2 then Err (Errorf ''invalid number of signatures to assemble'')
      else
        let u0 = hd unisig in
        res_bind (assemble_check u0 (tl unisig)) (\<lambda>_.
        Ok \<lparr>msVersion = msVersion u0, msThreshold = msThreshold u0,
            Subsigs = Some (fold (\<lambda>u acc. overlay acc (elems (Subsigs u))) unisig
              (map (\<lambda>s. \<lparr>Key = Key s, subSig = 0\<rparr>) (elems (Subsigs u0))))\<rparr>))"

definition nonblank :: "MultisigSubsig list \<Rightarrow> MultisigSubsig list" where
  "nonblank = filter (\<lambda>s. subSig s \<noteq> 0)"

text \<open>The counter of the third check is a \<open>uint8\<close>: it wraps.\<close>

definition MultisigVerify ::
    "hash_fun \<Rightarrow> 'm verifier \<Rightarrow> 'm \<Rightarrow> Digest \<Rightarrow> MultisigSig \<Rightarrow> bool \<times> goerror option" where
  "MultisigVerify H V msg addr sig =
     (let subs = elems (Subsigs sig) in
      if length subs = 0 \<or> subs ! 0 = MultisigSubsig_zero then (False, None)
      else case MultisigAddrGenWithSubsigs H (msVersion sig) (msThreshold sig) subs of
        Err e \<Rightarrow> (False, Some e)
      | Panic e \<Rightarrow> (False, Some e)
      | Ok addrnew \<Rightarrow>
          if addr \<noteq> addrnew then (False, Some (Errorf ''Invalid address''))
          else if length subs > maxMultisig then (False, Some (Errorf ''Invalid number of signatures''))
          else if length subs < unat (msThreshold sig) then
            (False, Some (Errorf ''Invalid number of signatures''))
          else
            let counter = (of_nat (length (nonblank subs)) :: byte) in
            if counter < msThreshold sig then (False, Some (Errorf ''Invalid number of signatures''))
            else if \<not> list_all (\<lambda>s. V (Key s) msg (subSig s)) (nonblank subs) then
              (False, Some (Errorf ''Verification failure: subsignature''))
            else if length (nonblank subs) < unat (msThreshold sig) then
              (False, Some (Errorf ''Invalid number of signatures''))
            else (True, None))"

text \<open>
  \<open>MultisigAdd\<close> writes into its second argument; the writes before an invalid duplicate stay.
\<close>

fun add_check :: "MultisigSig \<Rightarrow> MultisigSig list \<Rightarrow> (goerror, unit) result" where
  "add_check m [] = Ok ()"
| "add_check m (u # us) =
     (if msThreshold m \<noteq> msThreshold u then Err (Errorf ''Invalid threshold'')
      else if msVersion m \<noteq> msVersion u then Err (Errorf ''Invalid version'')
      else if length (elems (Subsigs m)) \<noteq> length (elems (Subsigs u)) then
        Err (Errorf ''Public key lists do not match'')
      else if map Key (elems (Subsigs m)) \<noteq> map Key (elems (Subsigs u)) then
        Err (Errorf ''Public key lists do not match'')
      else add_check m us)"

fun add_subsigs ::
    "MultisigSubsig list \<Rightarrow> MultisigSubsig list \<Rightarrow> (goerror, unit) result \<times> MultisigSubsig list" where
  "add_subsigs (m # ms) (u # us) =
     (if subSig u \<noteq> 0 \<and> subSig m \<noteq> 0 \<and> subSig m \<noteq> subSig u then
        (Err (Errorf ''Invalid duplicates''), m # ms)
      else
        let m' = (if subSig u \<noteq> 0 \<and> subSig m = 0 then m\<lparr>subSig := subSig u\<rparr> else m);
            (r, ms') = add_subsigs ms us in (r, m' # ms'))"
| "add_subsigs ms us = (Ok (), ms)"

fun add_all ::
    "MultisigSig list \<Rightarrow> MultisigSubsig list \<Rightarrow> (goerror, unit) result \<times> MultisigSubsig list" where
  "add_all [] ms = (Ok (), ms)"
| "add_all (u # us) ms =
     (case add_subsigs ms (elems (Subsigs u)) of
        (Ok _, ms') \<Rightarrow> add_all us ms'
      | (e, ms') \<Rightarrow> (e, ms'))"

definition MultisigAdd ::
    "MultisigSig list \<Rightarrow> MultisigSig \<Rightarrow> (goerror, unit) result \<times> MultisigSig" where
  "MultisigAdd unisig msig =
     (if length unisig < 1 then (Err (Errorf ''invalid number of signatures to add''), msig)
      else case add_check msig unisig of
        Ok _ \<Rightarrow>
          (let (r, ms') = add_all unisig (elems (Subsigs msig)) in
           (r, msig\<lparr>Subsigs := map_option (\<lambda>_. ms') (Subsigs msig)\<rparr>))
      | e \<Rightarrow> (e, msig))"

fun merge_subsigs ::
    "MultisigSubsig list \<Rightarrow> MultisigSubsig list \<Rightarrow> (goerror, MultisigSubsig list) result" where
  "merge_subsigs (a # as) (b # bs) =
     (if subSig a = 0 then
        res_bind (merge_subsigs as bs) (\<lambda>r. Ok (\<lparr>Key = Key a, subSig = subSig b\<rparr> # r))
      else if subSig b = 0 \<or> subSig b = subSig a then
        res_bind (merge_subsigs as bs) (\<lambda>r. Ok (\<lparr>Key = Key a, subSig = subSig a\<rparr> # r))
      else Err (Errorf ''Invalid duplicates''))"
| "merge_subsigs as bs = Ok []"

definition MultisigMerge :: "MultisigSig \<Rightarrow> MultisigSig \<Rightarrow> (goerror, MultisigSig) result" where
  "MultisigMerge msig1 msig2 =
     (let s1 = elems (Subsigs msig1); s2 = elems (Subsigs msig2) in
      if msThreshold msig1 \<noteq> msThreshold msig2 \<or> msVersion msig1 \<noteq> msVersion msig2 \<or>
         length s1 \<noteq> length s2 then Err (Errorf ''Invalid threshold'')
      else if map Key s1 \<noteq> map Key s2 then Err (Errorf ''Public key lists do not match'')
      else res_bind (merge_subsigs s1 s2) (\<lambda>subs.
        Ok \<lparr>msVersion = msVersion msig1, msThreshold = msThreshold msig1, Subsigs = Some subs\<rparr>))"

definition Msig_Equal :: "MultisigSig \<Rightarrow> MultisigSig \<Rightarrow> bool" where
  "Msig_Equal msig other =
     (if msVersion msig \<noteq> msVersion other then False
      else if msThreshold msig \<noteq> msThreshold other then False
      else elems (Subsigs msig) = elems (Subsigs other))"

section \<open>Verification\<close>

text \<open>
  What it takes to verify, with the \<open>uint8\<close> counter gone: at most 255 subsignatures are
  admitted, so it cannot wrap.
\<close>

definition msig_valid :: "hash_fun \<Rightarrow> 'm verifier \<Rightarrow> 'm \<Rightarrow> Digest \<Rightarrow> MultisigSig \<Rightarrow> bool" where
  "msig_valid H V msg addr sig \<longleftrightarrow>
     (let subs = elems (Subsigs sig) in
      subs \<noteq> [] \<and> subs ! 0 \<noteq> MultisigSubsig_zero \<and> msVersion sig = 1 \<and> msThreshold sig \<noteq> 0 \<and>
      length subs \<le> 255 \<and> addr = H (multisig_buffer 1 (msThreshold sig) (map Key subs)) \<and>
      unat (msThreshold sig) \<le> length (nonblank subs) \<and>
      list_all (\<lambda>s. V (Key s) msg (subSig s)) (nonblank subs))"

lemma length_nonblank: "length (nonblank subs) \<le> length subs"
  by (simp add: nonblank_def)

lemma counter_exact:
  "length subs \<le> 255 \<Longrightarrow> unat (of_nat (length (nonblank subs)) :: byte) = length (nonblank subs)"
  using length_nonblank [of subs] by (simp add: unat_of_nat)

lemma MultisigVerify_iff: "fst (MultisigVerify H V msg addr sig) \<longleftrightarrow> msig_valid H V msg addr sig"
proof -
  define subs where "subs = elems (Subsigs sig)"
  have len: "length (nonblank subs) \<le> length subs" by (rule length_nonblank)
  show ?thesis
    unfolding MultisigVerify_def msig_valid_def MultisigAddrGenWithSubsigs_def subs_def [symmetric] Let_def
    using len counter_exact [of subs]
    by (auto simp: maxMultisig_def word_less_nat_alt not_less)
qed

section \<open>Signing and assembling\<close>


text \<open>Which positions of a list of subsignatures are signed.\<close>

definition signed :: "MultisigSubsig list \<Rightarrow> nat set" where
  "signed subs = {j. j < length subs \<and> subSig (subs ! j) \<noteq> 0}"

lemma card_signed: "card (signed subs) = length (nonblank subs)"
  by (simp add: signed_def nonblank_def length_filter_conv_card)

lemma length_overlay [simp]: "length m = length u \<Longrightarrow> length (overlay m u) = length m"
  by (simp add: overlay_def)

lemma overlay_nth:
  "length m = length u \<Longrightarrow> j < length m \<Longrightarrow>
   overlay m u ! j = (if subSig (u ! j) \<noteq> 0 then (m ! j)\<lparr>subSig := subSig (u ! j)\<rparr> else m ! j)"
  by (simp add: overlay_def)

lemma overlay_keys: "length m = length u \<Longrightarrow> map Key (overlay m u) = map Key m"
  by (rule nth_equalityI) (auto simp: overlay_nth)

lemma signed_overlay: "length m = length u \<Longrightarrow> signed (overlay m u) = signed m \<union> signed u"
  by (auto simp: signed_def overlay_nth split: if_splits)

definition all_verify :: "'m verifier \<Rightarrow> 'm \<Rightarrow> MultisigSubsig list \<Rightarrow> bool" where
  "all_verify V msg subs \<longleftrightarrow> (\<forall>j\<in>signed subs. V (Key (subs ! j)) msg (subSig (subs ! j)))"

lemma all_verify_nonblank:
  "list_all (\<lambda>s. V (Key s) msg (subSig s)) (nonblank subs) \<longleftrightarrow> all_verify V msg subs"
  by (auto simp: list_all_iff nonblank_def all_verify_def signed_def in_set_conv_nth)

lemma overlay_verify:
  assumes "map Key m = map Key u" and "all_verify V msg m" and "all_verify V msg u"
  shows "all_verify V msg (overlay m u)"
proof -
  have len: "length m = length u" using assms(1) by (rule map_eq_imp_length_eq)
  have "Key (m ! j) = Key (u ! j)" if "j < length u" for j
    using assms(1) that len by (metis nth_map)
  with assms(2,3) len show ?thesis
    by (auto simp: all_verify_def signed_def overlay_nth)
qed

lemma fold_overlay:
  assumes "\<forall>u\<in>set us. map Key (elems (Subsigs u)) = map Key acc \<and> all_verify V msg (elems (Subsigs u))"
    and "all_verify V msg acc"
  shows "let res = fold (\<lambda>u acc. overlay acc (elems (Subsigs u))) us acc in
    map Key res = map Key acc \<and> all_verify V msg res \<and>
    signed res = signed acc \<union> (\<Union>u\<in>set us. signed (elems (Subsigs u)))"
  using assms
proof (induction us arbitrary: acc)
  case Nil
  then show ?case by simp
next
  case (Cons u us)
  let ?acc = "overlay acc (elems (Subsigs u))"
  have u: "map Key acc = map Key (elems (Subsigs u))" "all_verify V msg (elems (Subsigs u))"
    using Cons.prems(1) by auto
  have len: "length acc = length (elems (Subsigs u))" using u(1) by (rule map_eq_imp_length_eq)
  have keys: "map Key ?acc = map Key acc" using len by (rule overlay_keys)
  have ver: "all_verify V msg ?acc" using u(1) Cons.prems(2) u(2) by (rule overlay_verify)
  have "\<forall>v\<in>set us. map Key (elems (Subsigs v)) = map Key ?acc \<and> all_verify V msg (elems (Subsigs v))"
    using Cons.prems(1) keys by simp
  from Cons.IH [OF this ver] show ?case
    using keys signed_overlay [OF len] by (simp add: Un_assoc Let_def)
qed

text \<open>What one member of the group contributes.\<close>

lemma MultisigSign_Ok:
  assumes "MultisigSign H msg addr version threshold pk sk = Ok sig"
  shows "version = 1" "threshold \<noteq> 0" "pk \<noteq> []" "unat threshold \<le> length pk"
    "addr = H (multisig_buffer 1 threshold pk)" "SignatureVerifier sk \<in> set pk"
    "msVersion sig = 1" "msThreshold sig = threshold"
    "elems (Subsigs sig) = map (\<lambda>k. \<lparr>Key = k,
       subSig = (if SignatureVerifier sk = k then skSign sk msg else 0)\<rparr>) pk"
  using assms
  by (auto simp: MultisigSign_def MultisigAddrGen_def act_simps list_ex_iff elems_def split: if_splits)

lemma assemble_check_Ok:
  "assemble_check u0 us = Ok () \<longleftrightarrow>
     (\<forall>u\<in>set us. msThreshold u = msThreshold u0 \<and> msVersion u = msVersion u0 \<and>
        map Key (elems (Subsigs u)) = map Key (elems (Subsigs u0)))"
  by (induction us) (auto dest: map_eq_imp_length_eq)

lemma list_all2_memE:
  assumes "list_all2 P xs ys"
  shows "y \<in> set ys \<Longrightarrow> \<exists>x\<in>set xs. P x y" and "x \<in> set xs \<Longrightarrow> \<exists>y\<in>set ys. P x y"
  using assms by (induction rule: list_all2_induct) auto

lemma partials:
  assumes sigs: "list_all2 (\<lambda>sk sig. MultisigSign H msg addr 1 t pk sk = Ok sig) sks sigs"
    and good: "\<forall>sk\<in>set sks. V (SignatureVerifier sk) msg (skSign sk msg) \<and> skSign sk msg \<noteq> 0"
    and u: "u \<in> set sigs"
  shows "msVersion u = 1" "msThreshold u = t" "map Key (elems (Subsigs u)) = pk"
    "all_verify V msg (elems (Subsigs u))"
proof -
  obtain sk where sk: "sk \<in> set sks" "MultisigSign H msg addr 1 t pk sk = Ok u"
    using list_all2_memE(1) [OF sigs u] by blast
  note ok = MultisigSign_Ok [OF sk(2)]
  show "msVersion u = 1" "msThreshold u = t" using ok by auto
  show "map Key (elems (Subsigs u)) = pk" by (simp add: ok(9) comp_def)
  show "all_verify V msg (elems (Subsigs u))"
    using bspec [OF good sk(1)] by (auto simp: ok(9) all_verify_def signed_def split: if_splits)
qed

lemma signed_partials:
  assumes sigs: "list_all2 (\<lambda>sk sig. MultisigSign H msg addr 1 t pk sk = Ok sig) sks sigs"
    and good: "\<forall>sk\<in>set sks. skSign sk msg \<noteq> 0"
  shows "card (SignatureVerifier ` set sks) \<le> card (\<Union>u\<in>set sigs. signed (elems (Subsigs u)))"
proof -
  let ?S = "\<Union>u\<in>set sigs. signed (elems (Subsigs u))"
  have "SignatureVerifier ` set sks \<subseteq> (\<lambda>j. pk ! j) ` ?S"
  proof
    fix k assume "k \<in> SignatureVerifier ` set sks"
    then obtain sk where sk: "sk \<in> set sks" "k = SignatureVerifier sk" by auto
    then obtain u where u: "u \<in> set sigs" "MultisigSign H msg addr 1 t pk sk = Ok u"
      using list_all2_memE(2) [OF sigs] by blast
    note ok = MultisigSign_Ok [OF u(2)]
    obtain j where j: "j < length pk" "pk ! j = k" using ok(6) sk(2) by (auto simp: in_set_conv_nth)
    then have "j \<in> signed (elems (Subsigs u))" using good sk by (simp add: ok(9) signed_def)
    with u(1) j show "k \<in> (\<lambda>j. pk ! j) ` ?S" by auto
  qed
  moreover have "finite ?S" by (auto simp: signed_def)
  ultimately show ?thesis by (meson card_image_le card_mono finite_imageI order_trans)
qed

lemma assemble_partials:
  assumes sigs: "list_all2 (\<lambda>sk sig. MultisigSign H msg addr 1 t pk sk = Ok sig) sks sigs"
    and good: "\<forall>sk\<in>set sks. V (SignatureVerifier sk) msg (skSign sk msg) \<and> skSign sk msg \<noteq> 0"
    and two: "2 \<le> length sks"
  obtains res where "MultisigAssemble sigs = Ok \<lparr>msVersion = 1, msThreshold = t, Subsigs = Some res\<rparr>"
    "map Key res = pk" "all_verify V msg res"
    "signed res = (\<Union>u\<in>set sigs. signed (elems (Subsigs u)))"
proof -
  obtain u0 us where us: "sigs = u0 # us" "us \<noteq> []"
    using two sigs by (cases sigs; cases "tl sigs") (auto dest: list_all2_lengthD)
  note part = partials [of H msg addr t pk sks sigs V, OF sigs good]
  have u0: "u0 \<in> set sigs" by (simp add: us)
  define acc where "acc = map (\<lambda>s. \<lparr>Key = Key s, subSig = 0\<rparr>) (elems (Subsigs u0))"
  define res where "res = fold (\<lambda>u acc. overlay acc (elems (Subsigs u))) sigs acc"
  have acc: "map Key acc = pk" "signed acc = {}" "all_verify V msg acc"
    using part(3) [OF u0] by (auto simp: acc_def comp_def signed_def all_verify_def)
  have pre: "\<forall>u\<in>set sigs. map Key (elems (Subsigs u)) = map Key acc \<and> all_verify V msg (elems (Subsigs u))"
    using part(3,4) acc(1) by auto
  have res: "map Key res = pk \<and> all_verify V msg res \<and>
      signed res = signed acc \<union> (\<Union>u\<in>set sigs. signed (elems (Subsigs u)))"
    using fold_overlay [OF pre acc(3), unfolded Let_def, folded res_def] by (simp only: acc(1))
  have same: "msThreshold u = msThreshold u0 \<and> msVersion u = msVersion u0 \<and>
      map Key (elems (Subsigs u)) = map Key (elems (Subsigs u0))" if "u \<in> set us" for u
    using that part(1,2,3) [OF u0] part(1,2,3) [of u] by (simp add: us(1))
  have "assemble_check u0 us = Ok ()"
    unfolding assemble_check_Ok using same by blast
  then have "MultisigAssemble sigs = Ok \<lparr>msVersion = 1, msThreshold = t, Subsigs = Some res\<rparr>"
    using us part(1,2) [OF u0]
    by (cases us) (simp_all add: MultisigAssemble_def Let_def res_bind_def res_def acc_def)
  with res acc(2) that show thesis by simp
qed

lemma sign_assemble_valid:
  assumes sigs: "list_all2 (\<lambda>sk sig. MultisigSign H msg addr 1 t pk sk = Ok sig) sks sigs"
    and good: "\<forall>sk\<in>set sks. V (SignatureVerifier sk) msg (skSign sk msg) \<and> skSign sk msg \<noteq> 0"
    and enough: "unat t \<le> card (SignatureVerifier ` set sks)"
    and two: "2 \<le> length sks" and pk: "length pk \<le> 255" "pk ! 0 \<noteq> 0"
  shows "\<exists>msig. MultisigAssemble sigs = Ok msig \<and> msig_valid H V msg addr msig"
proof -
  obtain res where
    asm: "MultisigAssemble sigs = Ok \<lparr>msVersion = 1, msThreshold = t, Subsigs = Some res\<rparr>" and
    res: "map Key res = pk" "all_verify V msg res"
      "signed res = (\<Union>u\<in>set sigs. signed (elems (Subsigs u)))"
    by (rule assemble_partials [of H msg addr t pk sks sigs V, OF sigs good two])
  obtain sk0 u0 where "MultisigSign H msg addr 1 t pk sk0 = Ok u0"
    using sigs two by (cases sks; cases sigs) auto
  note ok = MultisigSign_Ok [OF this]
  have len: "length res = length pk" using res(1) by (metis length_map)
  have "unat t \<le> length (nonblank res)"
    using enough signed_partials [OF sigs] good res(3) by (simp add: card_signed [symmetric])
  moreover have "Key (res ! 0) = pk ! 0"
    using res(1) ok(3) len by (metis length_greater_0_conv nth_map)
  then have "res ! 0 \<noteq> MultisigSubsig_zero" using pk(2) by (auto simp: MultisigSubsig_zero_def)
  ultimately have "msig_valid H V msg addr \<lparr>msVersion = 1, msThreshold = t, Subsigs = Some res\<rparr>"
    using res ok pk(1) len
    by (auto simp: msig_valid_def elems_def Let_def all_verify_nonblank)
  with asm show ?thesis by blast
qed

section \<open>Merging\<close>

text \<open>The signatures a multisignature holds, with their positions, and how a merge combines two entries.\<close>

definition signed_at :: "MultisigSig \<Rightarrow> (nat \<times> Signature) set" where
  "signed_at m = {(i, sg). i < length (elems (Subsigs m)) \<and> sg = subSig (elems (Subsigs m) ! i) \<and> sg \<noteq> 0}"

definition merges :: "MultisigSubsig \<Rightarrow> MultisigSubsig \<Rightarrow> MultisigSubsig \<Rightarrow> bool" where
  "merges a b c \<longleftrightarrow>
     Key c = Key a \<and> (subSig a = 0 \<or> subSig b = 0 \<or> subSig b = subSig a) \<and> subSig c = (if subSig a = 0 then subSig b else subSig a)"

lemma merge_subsigs_pointwise:
  "length as = length bs \<Longrightarrow>
   merge_subsigs as bs = Ok cs \<longleftrightarrow> length cs = length as \<and> (\<forall>i<length as. merges (as ! i) (bs ! i) (cs ! i))"
proof (induction as bs arbitrary: cs rule: list_induct2)
  case (Cons a as b bs)
  have "merge_subsigs (a # as) (b # bs) = Ok cs \<longleftrightarrow> (\<exists>c cs'. cs = c # cs' \<and> merges a b c \<and> merge_subsigs as bs = Ok cs')"
    by (auto simp: merges_def act_simps)
  then show ?case
    unfolding Cons.IH by (cases cs) (auto simp: All_less_Suc2)
qed auto

lemma merges_iff: "Key c = Key a \<Longrightarrow>
   merges a b c \<longleftrightarrow> (\<forall>sg. sg \<noteq> 0 \<longrightarrow> (sg = subSig c \<longleftrightarrow> sg = subSig a \<or> sg = subSig b))"
  unfolding merges_def by metis

text \<open>A merge holds the signatures of both, at their positions, and nothing else.\<close>

lemma MultisigMerge_iff:
  "MultisigMerge a b = Ok c \<longleftrightarrow>
     msVersion b = msVersion a \<and> msVersion c = msVersion a \<and> msThreshold b = msThreshold a \<and> msThreshold c = msThreshold a \<and>
     Subsigs c \<noteq> None \<and> map Key (elems (Subsigs b)) = map Key (elems (Subsigs a)) \<and>
     map Key (elems (Subsigs c)) = map Key (elems (Subsigs a)) \<and> signed_at c = signed_at a \<union> signed_at b"
proof -
  define as bs cs where "as = elems (Subsigs a)" and "bs = elems (Subsigs b)" and "cs = elems (Subsigs c)"
  have sets: "signed_at c = signed_at a \<union> signed_at b \<longleftrightarrow> (\<forall>i<length as. merges (as ! i) (bs ! i) (cs ! i))"
    if keys: "map Key bs = map Key as" "map Key cs = map Key as"
  proof -
    have len: "length bs = length as" "length cs = length as"
      using keys by (metis length_map)+
    have "Key (cs ! i) = Key (as ! i)" if "i < length as" for i
      using keys(2) len that by (metis nth_map)
    then have "(\<forall>i<length as. merges (as ! i) (bs ! i) (cs ! i)) \<longleftrightarrow>
        (\<forall>i<length as. \<forall>sg. sg \<noteq> 0 \<longrightarrow> (sg = subSig (cs ! i) \<longleftrightarrow> sg = subSig (as ! i) \<or> sg = subSig (bs ! i)))"
      by (simp add: merges_iff)
    moreover have "signed_at c = signed_at a \<union> signed_at b \<longleftrightarrow>
        (\<forall>i sg. i < length as \<and> sg = subSig (cs ! i) \<and> sg \<noteq> 0 \<longleftrightarrow>
           i < length as \<and> sg = subSig (as ! i) \<and> sg \<noteq> 0 \<or> i < length as \<and> sg = subSig (bs ! i) \<and> sg \<noteq> 0)"
      unfolding signed_at_def as_def[symmetric] bs_def[symmetric] cs_def[symmetric] len by (simp add: set_eq_iff)
    ultimately show ?thesis
      by blast
  qed
  have "MultisigMerge a b = Ok c \<longleftrightarrow>
     msVersion b = msVersion a \<and> msVersion c = msVersion a \<and> msThreshold b = msThreshold a \<and> msThreshold c = msThreshold a \<and>
     Subsigs c \<noteq> None \<and> map Key bs = map Key as \<and> length bs = length as \<and> merge_subsigs as bs = Ok cs"
    unfolding MultisigMerge_def Let_def as_def[symmetric] bs_def[symmetric]
    by (cases c) (auto simp: act_simps cs_def)
  moreover have "map Key cs = map Key as" if "length cs = length as" "\<forall>i<length as. merges (as ! i) (bs ! i) (cs ! i)"
    using that by (auto simp: merges_def intro!: nth_equalityI)
  ultimately show ?thesis
    using sets merge_subsigs_pointwise[of as bs cs] unfolding as_def[symmetric] bs_def[symmetric] cs_def[symmetric]
    by (metis length_map)
qed

section \<open>Addresses\<close>

text \<open>The address of a group binds its threshold and keys, up to a collision of the hash.\<close>

lemma array_bytes_inj: "array_bytes x = array_bytes y \<Longrightarrow> x = y"
proof (rule bit_eqI)
  fix n assume "array_bytes x = array_bytes y" and "possible_bit TYPE(256 word) n"
  then have n: "n < 256" and eq: "array_bytes x ! (31 - n div 8) = array_bytes y ! (31 - n div 8)"
    by (auto simp: possible_bit_def)
  have "bit (array_bytes w ! (31 - n div 8)) (n mod 8) = bit w n" for w
    using n by (auto simp: array_bytes_def bit_simps algebra_simps)
  with eq show "bit x n = bit y n" by metis
qed

lemma length_array_bytes [simp]: "length (array_bytes w) = 32"
  by (simp add: array_bytes_def)

lemma concat_array_bytes_inj:
  "concat (map array_bytes xs) = concat (map array_bytes ys) \<Longrightarrow> xs = ys"
proof (induction xs arbitrary: ys)
  case Nil
  then show ?case by (cases ys) (auto simp: array_bytes_def)
next
  case (Cons x xs)
  show ?case
  proof (cases ys)
    case Nil
    with Cons.prems show ?thesis by (auto simp: array_bytes_def)
  next
    case (Cons y ys')
    with Cons.prems have "array_bytes x = array_bytes y"
      "concat (map array_bytes xs) = concat (map array_bytes ys')" by auto
    with Cons Cons.IH array_bytes_inj show ?thesis by simp
  qed
qed

lemma multisig_buffer_inj:
  "multisig_buffer v t pk = multisig_buffer v' t' pk' \<Longrightarrow> v = v' \<and> t = t' \<and> pk = pk'"
  by (auto simp: multisig_buffer_def dest: concat_array_bytes_inj)

end
