(* ===== verification/SignedTxns.thy ===== *)
theory SignedTxns
  imports Transactions Multisig
begin

text \<open>
  Signed transactions (\<open>data/transactions/signedtxn.go\<close>, \<open>logicsig.go\<close>, \<open>tx.go\<close>): their data,
  caches and pool priority, the forms in which a block holds them, and the commitments to a
  payset (\<open>aggregates.go\<close>).  The length of an encoding is a parameter, the codec being a
  library.
\<close>

section \<open>Data\<close>

record LogicSig =
  Logic :: "byte list"
  lsSig :: Signature
  lsMsig :: MultisigSig
  lsArgs :: "byte slice list"

record SignedTxn =
  stSig :: Signature
  stMsig :: MultisigSig
  stLsig :: LogicSig
  Txn :: Transaction
  cachedEncodingLen :: int

record SignedTxnWithAD =
  adSignedTxn :: SignedTxn
  adApplyData :: ApplyData

record SignedTxnInBlock =
  ibTxn :: SignedTxnWithAD
  HasGenesisID :: bool
  HasGenesisHash :: bool

type_synonym Tx = "byte list"

record SignedSingleTxnInBlock =
  sibTx :: Tx
  sibHasGenesisID :: bool
  sibHasGenesisHash :: bool

type_synonym Payset = "SignedTxnInBlock list"
type_synonym PayProxySet = "SignedSingleTxnInBlock list"

definition LogicSig_zero :: LogicSig where
  "LogicSig_zero = \<lparr>Logic = [], lsSig = 0, lsMsig = MultisigSig_zero, lsArgs = []\<rparr>"

definition SignedTxn_zero :: SignedTxn where
  "SignedTxn_zero = \<lparr>stSig = 0, stMsig = MultisigSig_zero, stLsig = LogicSig_zero,
     Txn = Transaction_zero, cachedEncodingLen = 0\<rparr>"

definition SignedTxnInBlock_zero :: SignedTxnInBlock where
  "SignedTxnInBlock_zero = \<lparr>ibTxn = \<lparr>adSignedTxn = SignedTxn_zero, adApplyData = ApplyData_zero\<rparr>,
     HasGenesisID = False, HasGenesisHash = False\<rparr>"

section \<open>Logic signatures\<close>

definition Lsig_Blank :: "LogicSig \<Rightarrow> bool" where
  "Lsig_Blank lsig = (length (Logic lsig) = 0)"

definition Lsig_Len :: "LogicSig \<Rightarrow> int" where
  "Lsig_Len lsig = foldl (\<lambda>n arg. n + int (length (elems arg))) (int (length (Logic lsig))) (lsArgs lsig)"

definition Lsig_Equal :: "LogicSig \<Rightarrow> LogicSig \<Rightarrow> bool" where
  "Lsig_Equal lsig b =
     (if length (Logic lsig) = 0 \<and> length (Logic b) = 0 then True
      else if \<not> (lsSig lsig = lsSig b \<and> Msig_Equal (lsMsig lsig) (lsMsig b)) then False
      else if length (lsArgs lsig) \<noteq> length (lsArgs b) then False
      else list_all (\<lambda>(a, a'). elems a = elems a') (zip (lsArgs lsig) (lsArgs b)))"

section \<open>Caches and priority\<close>

type_synonym encoding_len = "SignedTxn \<Rightarrow> int"

text \<open>The encoding omits the unexported caches.\<close>

definition computeEncodingLen :: "encoding_len \<Rightarrow> SignedTxn \<Rightarrow> int" where
  "computeEncodingLen E s = E (s\<lparr>cachedEncodingLen := 0, Txn := strip_cache (Txn s)\<rparr>)"

definition SignedTxn_InitCaches :: "txn_hash \<Rightarrow> encoding_len \<Rightarrow> SignedTxn \<Rightarrow> SignedTxn" where
  "SignedTxn_InitCaches H E s =
     (let s = (if cachedEncodingLen s = 0 then s\<lparr>cachedEncodingLen := computeEncodingLen E s\<rparr> else s) in
      s\<lparr>Txn := InitCaches H (Txn s)\<rparr>)"

definition SignedTxn_ResetCaches :: "SignedTxn \<Rightarrow> SignedTxn" where
  "SignedTxn_ResetCaches s = s\<lparr>cachedEncodingLen := 0, Txn := ResetCaches (Txn s)\<rparr>"

definition SignedTxn_ID :: "txn_hash \<Rightarrow> SignedTxn \<Rightarrow> Txid" where
  "SignedTxn_ID H s = ID H (Txn s)"

definition GetEncodedLength :: "encoding_len \<Rightarrow> SignedTxn \<Rightarrow> int" where
  "GetEncodedLength E s =
     (let encodingLen = cachedEncodingLen s in
      if encodingLen = 0 then computeEncodingLen E s else encodingLen)"

type_synonym TxnPriority = u64

definition maxTxnBytesForPriority :: int where
  "maxTxnBytesForPriority = 2 ^ 20"

definition Priority_LessThan :: "TxnPriority \<Rightarrow> TxnPriority \<Rightarrow> bool" where
  "Priority_LessThan a b = (a < b)"

definition Priority_Mul :: "TxnPriority \<Rightarrow> u64 \<Rightarrow> TxnPriority" where
  "Priority_Mul a b = MulSaturate a b"

definition PtrPriority :: "encoding_len \<Rightarrow> SignedTxn \<Rightarrow> (goerror, TxnPriority) result" where
  "PtrPriority E s =
     (let encodingLen = GetEncodedLength E s in
      if encodingLen = 0 then Panic (Errorf ''bug: SignedTxn.encodingLen is zero'')
      else Ok (MulSaturate (TxFee (Txn s)) (of_int (maxTxnBytesForPriority div encodingLen))))"

definition AssembleSignedTxn ::
    "txn_hash \<Rightarrow> encoding_len \<Rightarrow> Transaction \<Rightarrow> Signature \<Rightarrow> MultisigSig \<Rightarrow> (goerror, SignedTxn) result" where
  "AssembleSignedTxn H E txn sig msig =
     (if sig \<noteq> 0 \<and> \<not> Msig_Blank msig then Err (Errorf ''signed txn can only have one of sig or msig'')
      else Ok (SignedTxn_InitCaches H E
             (SignedTxn_zero\<lparr>Txn := txn, stSig := sig, stMsig := msig\<rparr>)))"

definition Sign :: "txn_hash \<Rightarrow> encoding_len \<Rightarrow> Transaction SecretKey \<Rightarrow> Transaction \<Rightarrow> SignedTxn" where
  "Sign H E secrets tx =
     SignedTxn_InitCaches H E (SignedTxn_zero\<lparr>Txn := tx, stSig := skSign secrets tx\<rparr>)"

section \<open>Byte-string transactions\<close>

definition ComputeID :: "hash_fun \<Rightarrow> Tx \<Rightarrow> Txid" where
  "ComputeID Hash tx = Hash tx"

definition Tx_Hash :: "Tx \<Rightarrow> byte list" where
  "Tx_Hash tx = tx"

fun Index_from :: "int \<Rightarrow> Tx list \<Rightarrow> Tx \<Rightarrow> int" where
  "Index_from i [] tx = -1"
| "Index_from i (t # ts) tx = (if t = tx then i else Index_from (i + 1) ts tx)"

definition Txs_Index :: "Tx list \<Rightarrow> Tx \<Rightarrow> int" where
  "Txs_Index txs tx = Index_from 0 txs tx"

definition Txs_IndexByHash :: "Tx list \<Rightarrow> byte list \<Rightarrow> int" where
  "Txs_IndexByHash txs hash = Index_from 0 (map Tx_Hash txs) hash"

definition Txs_Hash :: "Tx list \<Rightarrow> (goerror, byte list) result" where
  "Txs_Hash txs =
     (case map Tx_Hash txs of
        [] \<Rightarrow> Panic (Errorf ''index out of range'')
      | h # _ \<Rightarrow> Ok h)"

section \<open>Lemmas\<close>

lemma strip_cache_InitCaches [simp]: "strip_cache (InitCaches H tx) = strip_cache tx"
  by (simp add: strip_cache_def InitCaches_def)

lemma strip_cache_ResetCaches [simp]: "strip_cache (ResetCaches tx) = strip_cache tx"
  by (simp add: strip_cache_def ResetCaches_def)

text \<open>A transaction whose cache, if any, holds its own identifier.\<close>

definition cache_ok :: "txn_hash \<Rightarrow> Transaction \<Rightarrow> bool" where
  "cache_ok H tx \<longleftrightarrow> (txValid tx \<longrightarrow> cachedTxid tx = computeID H tx)"

lemma ID_cache_ok: "cache_ok H tx \<Longrightarrow> ID H tx = computeID H tx"
  by (simp add: cache_ok_def ID_def)

lemma cache_ok_InitCaches: "cache_ok H tx \<Longrightarrow> cache_ok H (InitCaches H tx)"
  by (simp add: cache_ok_def InitCaches_def computeID_def strip_cache_def)

lemma cache_ok_ResetCaches: "cache_ok H (ResetCaches tx)"
  by (simp add: cache_ok_def ResetCaches_def)

lemma Index_from_cases:
  "Index_from i ts tx = -1 \<and> tx \<notin> set ts \<or>
   (\<exists>j<length ts. Index_from i ts tx = i + int j \<and> ts ! j = tx \<and> (\<forall>k<j. ts ! k \<noteq> tx))"
proof (induction ts arbitrary: i)
  case (Cons t ts)
  show ?case
  proof (cases "t = tx")
    case True
    then show ?thesis by (auto intro!: exI [of _ 0])
  next
    case False
    from Cons.IH [of "i + 1"] show ?thesis
    proof
      assume "\<exists>j<length ts. Index_from (i + 1) ts tx = i + 1 + int j \<and> ts ! j = tx \<and> (\<forall>k<j. ts ! k \<noteq> tx)"
      then obtain j where "j < length ts" "Index_from (i + 1) ts tx = i + 1 + int j" "ts ! j = tx"
        "\<forall>k<j. ts ! k \<noteq> tx" by auto
      with False show ?thesis by (auto simp: nth_Cons less_Suc_eq_0_disj intro!: exI [of _ "Suc j"] split: nat.splits)
    qed (use False in simp)
  qed
qed simp

end
