(* ===== verification/Merkle.thy ===== *)
theory Merkle
  imports Multisig
begin

text \<open>
  The in-memory Merkle tree (\<open>crypto/merkle\<close>): leaves are appended, the inner levels are
  brought up to date lazily, level by level, when a root or a path is asked for.

  The tree is a state; every method is an action on it, and a Go panic (an explicit one or an
  index out of range) is the outcome \<open>Panic\<close>.  Indices and counts, \<open>int64\<close> in the code, are
  natural numbers.  The hash function under the hasher is a parameter.
\<close>

unbundle bit_operations_syntax

section \<open>Hasher\<close>

type_synonym hash = "byte list"

record LogHasher =
  EmptyRoot :: hash
  HashLeaf :: "byte list \<Rightarrow> (goerror, hash) result"
  HashChildren :: "hash \<Rightarrow> hash \<Rightarrow> hash"

definition LeafHashPrefix :: byte where "LeafHashPrefix = 0"
definition NodeHashPrefix :: byte where "NodeHashPrefix = 1"

definition New :: "(byte list \<Rightarrow> hash) \<Rightarrow> LogHasher" where
  "New h = \<lparr>EmptyRoot = h [],
            HashLeaf = (\<lambda>leaf. Ok (h ([LeafHashPrefix] @ leaf))),
            HashChildren = (\<lambda>l r. h ([NodeHashPrefix] @ l @ r))\<rparr>"

section \<open>Node positions\<close>

definition parent :: "nat \<Rightarrow> nat" where
  "parent leafIndex = drop_bit 1 leafIndex"

definition isRightChild :: "nat \<Rightarrow> bool" where
  "isRightChild leafIndex \<longleftrightarrow> leafIndex AND 1 = 1"

definition sibling :: "nat \<Rightarrow> nat" where
  "sibling leaf = (if isRightChild leaf then leaf - 1 else leaf + 1)"

definition isPowerOfTwoPlusOne :: "nat \<Rightarrow> bool" where
  "isPowerOfTwoPlusOne leafCount =
     (if leafCount = 0 then False
      else if leafCount = 1 then True
      else (leafCount - 1) AND (leafCount - 2) = 0)"

section \<open>The tree\<close>

text \<open>A \<open>TreeEntry\<close> is its one field, the hash.\<close>

type_synonym TreeEntry = hash

record TreeEntryDescriptor =
  Value :: TreeEntry
  XCoord :: int
  YCoord :: int

record InMemoryMerkleTree =
  tree :: "TreeEntry list list"
  leavesProcessed :: nat
  levelCount :: nat

type_synonym 'a mt_act = "(InMemoryMerkleTree, goerror, 'a) act"

definition NewInMemoryMerkleTree :: InMemoryMerkleTree where
  "NewInMemoryMerkleTree = \<lparr>tree = [], leavesProcessed = 0, levelCount = 0\<rparr>"

definition lazyLevelCount :: "InMemoryMerkleTree \<Rightarrow> nat" where
  "lazyLevelCount mt = length (tree mt)"

definition NodeCount :: "nat \<Rightarrow> nat mt_act" where
  "NodeCount level mt =
     (if lazyLevelCount mt \<le> level then act_panic (Errorf ''lazyLevelCount <= level in nodeCount'') mt
      else act_return (length (tree mt ! level)) mt)"

text \<open>The expression \<open>mt.tree[level][j]\<close>.\<close>

definition node_at :: "nat \<Rightarrow> nat \<Rightarrow> TreeEntry mt_act" where
  "node_at level j mt =
     (if level < length (tree mt) \<and> j < length (tree mt ! level)
      then act_return (tree mt ! level ! j) mt
      else act_panic (Errorf ''index out of range'') mt)"

definition LeafCount :: "nat mt_act" where
  "LeafCount mt = (if length (tree mt) = 0 then act_return 0 mt else NodeCount 0 mt)"

definition LeafHash :: "nat \<Rightarrow> (TreeEntry option) mt_act" where
  "LeafHash leaf =
     act_bind LeafCount (\<lambda>n.
     if leaf = 0 \<or> leaf > n then act_return None
     else act_bind (node_at 0 (leaf - 1)) (\<lambda>h. act_return (Some h)))"

definition root :: "TreeEntry mt_act" where
  "root mt =
     (let lastLevel = length (tree mt) - 1 in
      if length (tree mt) = 0 then act_panic (Errorf ''index out of range'') mt
      else if length (tree mt ! lastLevel) > 1 then act_panic (Errorf ''found multiple nodes in root'') mt
      else node_at lastLevel 0 mt)"

definition lastNode :: "nat \<Rightarrow> TreeEntry mt_act" where
  "lastNode level =
     act_bind (NodeCount level) (\<lambda>levelNodes.
     if levelNodes < 1 then act_panic (Errorf ''no nodes at level in lastNode'')
     else node_at level (levelNodes - 1))"

definition addLevel :: "unit mt_act" where
  "addLevel = act_modify (\<lambda>mt. mt\<lparr>tree := tree mt @ [[]]\<rparr>)"

definition pushBack :: "nat \<Rightarrow> TreeEntry \<Rightarrow> unit mt_act" where
  "pushBack level treeEntry mt =
     (if lazyLevelCount mt \<le> level then act_panic (Errorf ''lazyLevelCount <= level in pushBack'') mt
      else act_return () (mt\<lparr>tree := (tree mt)[level := tree mt ! level @ [treeEntry]]\<rparr>))"

definition popBack :: "nat \<Rightarrow> unit mt_act" where
  "popBack level mt =
     (if length (tree mt) \<le> level then act_panic (Errorf ''index out of range'') mt
      else if length (tree mt ! level) < 1 then act_panic (Errorf ''no nodes to pop in popBack'') mt
      else act_return () (mt\<lparr>tree := (tree mt)[level := butlast (tree mt ! level)]\<rparr>))"

definition addLeafHash :: "hash \<Rightarrow> (nat \<times> TreeEntry) mt_act" where
  "addLeafHash leafData =
     act_bind (act_read lazyLevelCount) (\<lambda>n.
     act_bind (act_when (n = 0)
       (act_bind addLevel (\<lambda>_. act_modify (\<lambda>mt. mt\<lparr>leavesProcessed := 1\<rparr>)))) (\<lambda>_.
     act_bind (pushBack 0 leafData) (\<lambda>_.
     act_bind LeafCount (\<lambda>leafCount.
     act_bind (act_when (isPowerOfTwoPlusOne leafCount)
       (act_modify (\<lambda>mt. mt\<lparr>levelCount := levelCount mt + 1\<rparr>))) (\<lambda>_.
     act_return (leafCount, leafData))))))"

definition AddLeaf :: "LogHasher \<Rightarrow> byte list \<Rightarrow> (nat \<times> TreeEntry) mt_act" where
  "AddLeaf h leafData = act_bind (act_lift (HashLeaf h leafData)) addLeafHash"

section \<open>Updating\<close>

text \<open>The inner loop: hash the pairs from \<open>j\<close> on into the level above.\<close>

function hash_pairs :: "LogHasher \<Rightarrow> nat \<Rightarrow> nat \<Rightarrow> nat \<Rightarrow> unit mt_act" where
  "hash_pairs h level j lst =
     (if j < lst then
        act_bind (node_at level j) (\<lambda>l.
        act_bind (node_at level (j + 1)) (\<lambda>r.
        act_bind (pushBack (level + 1) (HashChildren h l r)) (\<lambda>_.
        hash_pairs h level (j + 2) lst)))
      else act_return ())"
  by pat_completeness auto
termination by (relation "measure (\<lambda>(h, level, j, lst). lst - j)") auto

text \<open>
  Start the level above if it is missing; else drop its last node if that is the parent of
  the first node to be processed.
\<close>

definition prepare_level :: "nat \<Rightarrow> nat \<Rightarrow> unit mt_act" where
  "prepare_level level first =
     act_bind (act_read lazyLevelCount) (\<lambda>n.
     if n \<le> level + 1 then addLevel
     else act_bind (NodeCount (level + 1)) (\<lambda>c. act_when (c = parent first + 1) (popBack (level + 1))))"

definition update_level :: "LogHasher \<Rightarrow> nat \<Rightarrow> nat \<Rightarrow> nat \<Rightarrow> unit mt_act" where
  "update_level h level first lst =
     act_bind (prepare_level level first) (\<lambda>_.
     act_bind (hash_pairs h level (first - first mod 2) lst) (\<lambda>_.
     if \<not> isRightChild lst then act_bind (node_at level lst) (pushBack (level + 1))
     else act_return ()))"

function update_levels :: "LogHasher \<Rightarrow> nat \<Rightarrow> nat \<Rightarrow> nat \<Rightarrow> unit mt_act" where
  "update_levels h level first lst =
     (if lst \<noteq> 0 then
        act_bind (update_level h level first lst) (\<lambda>_.
        update_levels h (level + 1) (parent first) (parent lst))
      else act_return ())"
  by pat_completeness auto
termination
  by (relation "measure (\<lambda>(h, level, first, lst). lst)") (auto simp: parent_def drop_bit_eq_div)

declare hash_pairs.simps [simp del] update_levels.simps [simp del]

definition updateToSnapshot :: "LogHasher \<Rightarrow> nat \<Rightarrow> TreeEntry mt_act" where
  "updateToSnapshot h snapshot =
     (if snapshot = 0 then act_return (EmptyRoot h)
      else if snapshot = 1 then node_at 0 0
      else
        act_bind (act_read leavesProcessed) (\<lambda>processed.
        if snapshot = processed then root
        else
          act_bind LeafCount (\<lambda>leafCount.
          if snapshot > leafCount then act_panic (Errorf ''snapshot size > leaf count in updateToSnapshot'')
          else if snapshot \<le> processed then act_panic (Errorf ''snapshot size <= leavesProcessed in updateToSnapshot'')
          else
            act_bind (update_levels h 0 processed (snapshot - 1)) (\<lambda>_.
            act_bind (act_modify (\<lambda>mt. mt\<lparr>leavesProcessed := snapshot\<rparr>)) (\<lambda>_.
            root)))))"

section \<open>Past snapshots\<close>

text \<open>
  \<open>recomputePastSnapshot\<close>: \<open>want\<close> is the level at which the rightmost node is to be recorded,
  if any; the recorded node is the second result.
\<close>

definition record_at :: "nat option \<Rightarrow> nat \<Rightarrow> TreeEntry \<Rightarrow> TreeEntry \<Rightarrow> TreeEntry" where
  "record_at want level old new = (if want = Some level then new else old)"

function climb_right :: "nat option \<Rightarrow> nat \<Rightarrow> nat \<Rightarrow> TreeEntry \<Rightarrow> (nat \<times> nat \<times> TreeEntry) mt_act" where
  "climb_right want level lst recorded =
     (if isRightChild lst then
        act_bind (if want = Some level then node_at level lst else act_return recorded) (\<lambda>recorded.
        climb_right want (level + 1) (parent lst) recorded)
      else act_return (level, lst, recorded))"
  by pat_completeness auto
termination
  by (relation "measure (\<lambda>(want, level, lst, recorded). lst)")
     (auto simp: parent_def isRightChild_def drop_bit_eq_div intro: Suc_leI gr0I)

function climb_hash ::
    "LogHasher \<Rightarrow> nat option \<Rightarrow> nat \<Rightarrow> nat \<Rightarrow> TreeEntry \<Rightarrow> TreeEntry \<Rightarrow> (TreeEntry \<times> TreeEntry) mt_act" where
  "climb_hash h want level lst subtreeRoot recorded =
     (if lst \<noteq> 0 then
        act_bind
          (if isRightChild lst
           then act_bind (node_at level (lst - 1)) (\<lambda>l. act_return (HashChildren h l subtreeRoot))
           else act_return subtreeRoot) (\<lambda>subtreeRoot.
        climb_hash h want (level + 1) (parent lst) subtreeRoot
          (record_at want (level + 1) recorded subtreeRoot))
      else act_return (subtreeRoot, recorded))"
  by pat_completeness auto
termination
  by (relation "measure (\<lambda>(h, want, level, lst, subtreeRoot, recorded). lst)")
     (auto simp: parent_def drop_bit_eq_div)

declare climb_right.simps [simp del] climb_hash.simps [simp del]

definition recomputePastSnapshot ::
    "LogHasher \<Rightarrow> nat \<Rightarrow> nat option \<Rightarrow> TreeEntry \<Rightarrow> (TreeEntry \<times> TreeEntry) mt_act" where
  "recomputePastSnapshot h snapshot want recorded =
     act_bind (act_read leavesProcessed) (\<lambda>processed.
     if snapshot = processed then
       act_bind (act_read lazyLevelCount) (\<lambda>n.
       act_bind
         (case want of
            None \<Rightarrow> act_return recorded
          | Some nodeLevel \<Rightarrow>
              if n > nodeLevel then
                (if nodeLevel > 0 then lastNode nodeLevel else node_at nodeLevel (snapshot - 1))
              else act_return recorded) (\<lambda>recorded.
       act_bind root (\<lambda>r. act_return (r, recorded))))
     else if snapshot \<ge> processed then
       act_panic (Errorf ''snapshot size >= leavesProcessed in recomputePastSnapshot'')
     else
       act_bind (climb_right want 0 (snapshot - 1) recorded) (\<lambda>(level, lst, recorded).
       act_bind (node_at level lst) (\<lambda>subtreeRoot.
       climb_hash h want level lst subtreeRoot (record_at want level recorded subtreeRoot))))"

definition RootAtSnapshot :: "LogHasher \<Rightarrow> nat \<Rightarrow> TreeEntry mt_act" where
  "RootAtSnapshot h snapshot =
     (if snapshot = 0 then act_return (EmptyRoot h)
      else
        act_bind LeafCount (\<lambda>leafCount.
        if snapshot > leafCount then act_return []
        else
          act_bind (act_read leavesProcessed) (\<lambda>processed.
          if snapshot \<ge> processed then updateToSnapshot h snapshot
          else act_bind (recomputePastSnapshot h snapshot None []) (\<lambda>(r, _). act_return r))))"

definition CurrentRoot :: "LogHasher \<Rightarrow> TreeEntry mt_act" where
  "CurrentRoot h = act_bind LeafCount (RootAtSnapshot h)"

section \<open>Paths\<close>

function climb_path ::
    "LogHasher \<Rightarrow> nat \<Rightarrow> nat \<Rightarrow> nat \<Rightarrow> nat \<Rightarrow> TreeEntryDescriptor list \<Rightarrow> (TreeEntryDescriptor list) mt_act" where
  "climb_path h snapshot level node lst path =
     (if lst \<noteq> 0 then
        act_bind
          (let sib = sibling node in
           if sib < lst then
             act_bind (node_at level sib) (\<lambda>e.
             act_return (path @ [\<lparr>Value = e, XCoord = int level, YCoord = int sib\<rparr>]))
           else if sib = lst then
             act_bind (recomputePastSnapshot h snapshot (Some level) []) (\<lambda>(_, e).
             act_return (path @ [\<lparr>Value = e, XCoord = - int level, YCoord = - int sib\<rparr>]))
           else act_return path) (\<lambda>path.
        climb_path h snapshot (level + 1) (parent node) (parent lst) path)
      else act_return path)"
  by pat_completeness auto
termination
  by (relation "measure (\<lambda>(h, snapshot, level, node, lst, path). lst)")
     (auto simp: parent_def drop_bit_eq_div)

declare climb_path.simps [simp del]

definition pathFromNodeToRootAtSnapshot ::
    "LogHasher \<Rightarrow> nat \<Rightarrow> nat \<Rightarrow> nat \<Rightarrow> (TreeEntryDescriptor list) mt_act" where
  "pathFromNodeToRootAtSnapshot h node level snapshot =
     (if snapshot = 0 then act_return []
      else
        let lst = drop_bit level (snapshot - 1) in
        act_bind (act_read levelCount) (\<lambda>levels.
        act_bind LeafCount (\<lambda>leafCount.
        if level \<ge> levels \<or> node > lst \<or> snapshot > leafCount then act_return []
        else
          act_bind (act_read leavesProcessed) (\<lambda>processed.
          act_bind (act_when (snapshot > processed)
            (act_bind (updateToSnapshot h snapshot) (\<lambda>_. act_return ()))) (\<lambda>_.
          climb_path h snapshot level node lst [])))))"

definition PathToRootAtSnapshot :: "LogHasher \<Rightarrow> nat \<Rightarrow> nat \<Rightarrow> (TreeEntryDescriptor list) mt_act" where
  "PathToRootAtSnapshot h leaf snapshot =
     act_bind LeafCount (\<lambda>leafCount.
     if leaf > snapshot \<or> snapshot > leafCount \<or> leaf = 0 then act_return []
     else pathFromNodeToRootAtSnapshot h (leaf - 1) 0 snapshot)"

definition PathToCurrentRoot :: "LogHasher \<Rightarrow> nat \<Rightarrow> (TreeEntryDescriptor list) mt_act" where
  "PathToCurrentRoot h leaf = act_bind LeafCount (PathToRootAtSnapshot h leaf)"

function skip_right :: "nat \<Rightarrow> nat \<Rightarrow> nat \<times> nat" where
  "skip_right level node =
     (if isRightChild node then skip_right (level + 1) (parent node) else (level, node))"
  by pat_completeness auto
termination
  by (relation "measure (\<lambda>(level, node). node)")
     (auto simp: parent_def isRightChild_def drop_bit_eq_div intro: Suc_leI gr0I)

declare skip_right.simps [simp del]

definition SnapshotConsistency :: "LogHasher \<Rightarrow> nat \<Rightarrow> nat \<Rightarrow> (TreeEntryDescriptor list) mt_act" where
  "SnapshotConsistency h snapshot1 snapshot2 =
     act_bind LeafCount (\<lambda>leafCount.
     if snapshot1 = 0 \<or> snapshot1 \<ge> snapshot2 \<or> snapshot2 > leafCount then act_return []
     else
       let (level, node) = skip_right 0 (snapshot1 - 1) in
       act_bind (act_read leavesProcessed) (\<lambda>processed.
       act_bind (act_when (snapshot2 > processed)
         (act_bind (updateToSnapshot h snapshot2) (\<lambda>_. act_return ()))) (\<lambda>_.
       act_bind
         (if node \<noteq> 0 then
            act_bind (node_at level node) (\<lambda>e.
            act_return [\<lparr>Value = e, XCoord = int level, YCoord = int node\<rparr>])
          else act_return []) (\<lambda>proof_nodes.
       act_bind (pathFromNodeToRootAtSnapshot h node level snapshot2) (\<lambda>path.
       act_return (proof_nodes @ path))))))"

section \<open>Root of a list of leaves\<close>

definition bytes_array :: "byte list \<Rightarrow> bytes32" where
  "bytes_array = foldl (\<lambda>w b. push_bit 8 w OR ucast b) 0"

text \<open>\<open>Root\<close> does not look at the results of \<open>AddLeaf\<close>, its error included.\<close>

definition ignore :: "'a mt_act \<Rightarrow> unit mt_act" where
  "ignore m mt =
     (case m mt of
        (Ok _, mt') \<Rightarrow> (Ok (), mt')
      | (Err _, mt') \<Rightarrow> (Ok (), mt')
      | (Panic e, mt') \<Rightarrow> (Panic e, mt'))"

definition add_leaves :: "LogHasher \<Rightarrow> byte list list \<Rightarrow> unit mt_act" where
  "add_leaves h leaves = act_each (\<lambda>leaf. ignore (AddLeaf h leaf)) leaves"

definition Root :: "LogHasher \<Rightarrow> byte list list \<Rightarrow> (goerror, Digest) result" where
  "Root h leaves =
     fst (act_bind (add_leaves h leaves) (\<lambda>_.
          act_bind (CurrentRoot h) (\<lambda>r.
          if length r \<noteq> 32 then act_panic (Errorf ''merkleRoot: merkle root hash not the same length as a crypto.Digest'')
          else act_return (bytes_array r))) NewInMemoryMerkleTree)"

fun Order :: "byte list \<Rightarrow> byte list \<Rightarrow> (goerror, bool) result" where
  "Order [] bs = Ok True"
| "Order (a # as) [] = Panic (Errorf ''index out of range'')"
| "Order (a # as) (b # bs) = (if a < b then Ok True else if b < a then Ok False else Order as bs)"

end
