(* ===== verification/Merkle_Laws.thy ===== *)
theory Merkle_Laws
  imports Merkle
begin

text \<open>
  The Merkle tree against its reference, the tree hash of RFC 6962: whatever was asked of the
  tree before, a root or a path at any snapshot is that of the reference tree over the leaves of
  the snapshot, and no call panics.  The invariant \<open>mt_ok\<close> says which levels the lazily
  evaluated tree holds.
\<close>

section \<open>Reference\<close>

text \<open>
  The hash of a complete or partial subtree of height \<open>k\<close> over its leaf hashes, node \<open>j\<close> of
  level \<open>k\<close> of the tree over \<open>xs\<close>, and that level: the tree hash of RFC 6962.
\<close>

primrec sub :: "LogHasher \<Rightarrow> nat \<Rightarrow> hash list \<Rightarrow> hash" where
  "sub h 0 xs = hd xs"
| "sub h (Suc k) xs =
     (if length xs \<le> 2 ^ k then sub h k xs
      else HashChildren h (sub h k (take (2 ^ k) xs)) (sub h k (drop (2 ^ k) xs)))"

definition node_hash :: "LogHasher \<Rightarrow> hash list \<Rightarrow> nat \<Rightarrow> nat \<Rightarrow> hash" where
  "node_hash h xs k j = sub h k (take (2 ^ k) (drop (j * 2 ^ k) xs))"

definition level_nodes :: "LogHasher \<Rightarrow> hash list \<Rightarrow> nat \<Rightarrow> hash list" where
  "level_nodes h xs k = map (node_hash h xs k) [0..<(length xs + 2 ^ k - 1) div 2 ^ k]"

lemma parent_div: "parent n = n div 2"
  by (simp add: parent_def drop_bit_eq_div)

lemma isRightChild_odd: "isRightChild n \<longleftrightarrow> odd n"
  by (simp add: isRightChild_def and_one_eq odd_iff_mod_2_eq_one)

lemma sub_cong_height: "length xs \<le> 2 ^ k \<Longrightarrow> k \<le> k' \<Longrightarrow> sub h k' xs = sub h k xs"
proof (induction k')
  case (Suc k')
  show ?case
  proof (cases "k = Suc k'")
    case False
    with Suc.prems have "k \<le> k'" by simp
    moreover have "(2::nat) ^ k \<le> 2 ^ k'" using \<open>k \<le> k'\<close> by (simp add: power_increasing)
    then have "length xs \<le> 2 ^ k'" by (rule order_trans [OF Suc.prems(1)])
    ultimately show ?thesis using Suc by simp
  qed simp
qed simp

lemma node_hash_leaf: "j < length xs \<Longrightarrow> node_hash h xs 0 j = xs ! j"
  by (simp add: node_hash_def hd_drop_conv_nth take_Suc hd_take)

text \<open>A node hashes its two children; a node without a right child is its left child.\<close>

lemma node_hash_pair:
  assumes "(2 * j + 1) * 2 ^ k < length xs"
  shows "node_hash h xs (Suc k) j = HashChildren h (node_hash h xs k (2 * j)) (node_hash h xs k (2 * j + 1))"
proof -
  let ?L = "take (2 ^ Suc k) (drop (j * 2 ^ Suc k) xs)"
  have "2 ^ k < length ?L" using assms by (simp add: algebra_simps)
  then have "sub h (Suc k) ?L = HashChildren h (sub h k (take (2 ^ k) ?L)) (sub h k (drop (2 ^ k) ?L))"
    by (simp only: sub.simps if_not_P not_le)
  moreover have "take (2 ^ k) ?L = take (2 ^ k) (drop (2 * j * 2 ^ k) xs)"
    by (simp add: min_def algebra_simps)
  moreover have "drop (2 ^ k) ?L = take (2 ^ k) (drop ((2 * j + 1) * 2 ^ k) xs)"
    by (simp add: drop_take algebra_simps)
  ultimately show ?thesis by (simp only: node_hash_def)
qed

lemma node_hash_single:
  assumes "length xs \<le> (2 * j + 1) * 2 ^ k"
  shows "node_hash h xs (Suc k) j = node_hash h xs k (2 * j)"
proof -
  let ?L = "take (2 ^ Suc k) (drop (j * 2 ^ Suc k) xs)"
  have "length ?L \<le> 2 ^ k" using assms by (simp add: algebra_simps)
  moreover have "?L = take (2 ^ k) (drop (2 * j * 2 ^ k) xs)"
    using assms by (simp add: algebra_simps)
  ultimately show ?thesis by (simp add: node_hash_def)
qed

lemma node_hash_prefix:
  "(j + 1) * 2 ^ k \<le> n \<Longrightarrow> node_hash h (take n xs) k j = node_hash h xs k j"
  by (simp add: node_hash_def drop_take min_def algebra_simps)


text \<open>The levels of a tree over \<open>n\<close> leaves: there are \<open>(n - 1) div 2 ^ k + 1\<close> nodes on level \<open>k\<close>.\<close>

definition width :: "nat \<Rightarrow> nat \<Rightarrow> nat" where
  "width n k = (n - 1) div 2 ^ k"

lemma level_nodes_alt:
  assumes "xs \<noteq> []"
  shows "level_nodes h xs k = map (node_hash h xs k) [0..<Suc (width (length xs) k)]"
proof -
  have "length xs + 2 ^ k - 1 = (length xs - 1) + 2 ^ k" using assms by (cases xs) auto
  then have "(length xs + 2 ^ k - 1) div 2 ^ k = Suc (width (length xs) k)"
    by (simp add: width_def)
  then show ?thesis by (simp only: level_nodes_def)
qed

lemma width_Suc: "width n (Suc k) = width n k div 2"
  by (simp add: width_def div_mult2_eq [symmetric] mult.commute)

lemma width_0 [simp]: "width n 0 = n - 1"
  by (simp add: width_def)

lemma width_0_iff: "0 < n \<Longrightarrow> width n k = 0 \<longleftrightarrow> n \<le> 2 ^ k"
  by (auto simp: width_def div_eq_0_iff)

lemma width_mono: "m \<le> n \<Longrightarrow> width m k \<le> width n k"
  by (simp add: width_def div_le_mono diff_le_mono)

text \<open>Where node \<open>j\<close> of level \<open>k\<close> stands in a tree over \<open>n\<close> leaves.\<close>

lemma node_exists: "0 < n \<Longrightarrow> j \<le> width n k \<longleftrightarrow> j * 2 ^ k < n"
  by (auto simp: width_def less_eq_div_iff_mult_less_eq)

lemma node_complete: "0 < n \<Longrightarrow> j < width n k \<Longrightarrow> (j + 1) * 2 ^ k \<le> n"
  using node_exists [of n "j + 1" k] by simp

lemma children_hash:
  assumes "0 < length xs" and "j \<le> width (length xs) (Suc k)"
  shows "node_hash h xs (Suc k) j =
    (if 2 * j < width (length xs) k
     then HashChildren h (node_hash h xs k (2 * j)) (node_hash h xs k (2 * j + 1))
     else node_hash h xs k (2 * j))"
proof (cases "2 * j < width (length xs) k")
  case True
  then have "(2 * j + 1) * 2 ^ k < length xs" using node_exists [OF assms(1), of "2 * j + 1" k] by simp
  with True show ?thesis by (simp add: node_hash_pair)
next
  case False
  then have "\<not> (2 * j + 1) * 2 ^ k < length xs" using node_exists [OF assms(1), of "2 * j + 1" k] by simp
  with False show ?thesis by (simp add: node_hash_single not_less)
qed

section \<open>Bringing the tree up to date\<close>

lemma node_at_Ok:
  "l < length (tree mt) \<Longrightarrow> j < length (tree mt ! l) \<Longrightarrow> node_at l j mt = (Ok (tree mt ! l ! j), mt)"
  by (simp add: node_at_def act_return_def)

lemma pushBack_Ok:
  "l < length (tree mt) \<Longrightarrow>
   pushBack l e mt = (Ok (), mt\<lparr>tree := (tree mt)[l := tree mt ! l @ [e]]\<rparr>)"
  by (simp add: pushBack_def lazyLevelCount_def act_return_def)

text \<open>Level \<open>l\<close> of the tree agrees with the reference tree over \<open>xs\<close>, as far as that goes.\<close>

definition agrees :: "LogHasher \<Rightarrow> hash list \<Rightarrow> nat \<Rightarrow> InMemoryMerkleTree \<Rightarrow> bool" where
  "agrees h xs l mt \<longleftrightarrow> l < length (tree mt) \<and>
     (\<forall>j\<le>width (length xs) l. j < length (tree mt ! l) \<and> tree mt ! l ! j = node_hash h xs l j)"

lemma agrees_node_at:
  "agrees h xs l mt \<Longrightarrow> j \<le> width (length xs) l \<Longrightarrow> node_at l j mt = (Ok (node_hash h xs l j), mt)"
  by (simp add: agrees_def node_at_Ok)

lemma agrees_upd_other: "k \<noteq> l \<Longrightarrow> agrees h xs l (mt\<lparr>tree := (tree mt)[k := x]\<rparr>) \<longleftrightarrow> agrees h xs l mt"
  by (simp add: agrees_def)

lemma hash_pairs_run:
  assumes "xs \<noteq> []" and "agrees h xs l mt" and "Suc l < length (tree mt)"
    and "tree mt ! Suc l = map (node_hash h xs (Suc l)) [0..<i]"
    and "2 * i \<le> Suc (width (length xs) l)"
  shows "hash_pairs h l (2 * i) (width (length xs) l) mt =
    (Ok (), mt\<lparr>tree := (tree mt)[Suc l := map (node_hash h xs (Suc l)) [0..<Suc (width (length xs) l) div 2]]\<rparr>)"
  using assms(2-5)
proof (induction "Suc (width (length xs) l) - 2 * i" arbitrary: i mt rule: less_induct)
  case less
  let ?w = "width (length xs) l"
  show ?case
  proof (cases "2 * i < ?w")
    case True
    define e where "e = HashChildren h (node_hash h xs l (2 * i)) (node_hash h xs l (2 * i + 1))"
    have e: "e = node_hash h xs (Suc l) i"
      using children_hash [of xs i l h] True assms(1) by (simp add: e_def width_Suc)
    define mt' where "mt' = mt\<lparr>tree := (tree mt)[Suc l := tree mt ! Suc l @ [e]]\<rparr>"
    have step: "hash_pairs h l (2 * i) ?w mt = hash_pairs h l (2 * Suc i) ?w mt'"
      by (subst hash_pairs.simps)
         (use True less.prems in \<open>simp add: act_bind_eq [OF agrees_node_at] act_bind_eq [OF pushBack_Ok] e_def mt'_def\<close>)
    have "hash_pairs h l (2 * Suc i) ?w mt' =
      (Ok (), mt'\<lparr>tree := (tree mt')[Suc l := map (node_hash h xs (Suc l)) [0..<Suc ?w div 2]]\<rparr>)"
      by (rule less.hyps) (use True less.prems e in \<open>auto simp: mt'_def agrees_upd_other\<close>)
    with step show ?thesis by (simp add: mt'_def)
  next
    case False
    with less.prems(4) have "Suc ?w div 2 = i" by auto
    moreover have "hash_pairs h l (2 * i) ?w mt = (Ok (), mt)"
      using False by (subst hash_pairs.simps) (simp add: act_return_def)
    moreover have "(tree mt)[Suc l := map (node_hash h xs (Suc l)) [0..<i]] = tree mt"
      using less.prems(3) by (metis list_update_id)
    ultimately show ?thesis by simp
  qed
qed


text \<open>
  \<open>tree_of n\<close>: the levels above the leaves are those of the tree over the first \<open>n\<close> leaves.
  \<open>mid n s l\<close>: an update from \<open>n\<close> to \<open>s\<close> leaves has reached level \<open>l\<close>.
\<close>

definition tree_of :: "LogHasher \<Rightarrow> hash list \<Rightarrow> nat \<Rightarrow> hash list list \<Rightarrow> bool" where
  "tree_of h leaves n T \<longleftrightarrow> T \<noteq> [] \<and> T ! 0 = leaves \<and>
     (\<forall>k. Suc k < length T \<longrightarrow> T ! Suc k = level_nodes h (take n leaves) (Suc k)) \<and>
     (\<forall>k. Suc k < length T \<longleftrightarrow> width n k \<noteq> 0)"

definition mid :: "LogHasher \<Rightarrow> hash list \<Rightarrow> nat \<Rightarrow> nat \<Rightarrow> nat \<Rightarrow> hash list list \<Rightarrow> bool" where
  "mid h leaves n s l T \<longleftrightarrow> l < length T \<and> T ! 0 = leaves \<and>
     (\<forall>k<l. T ! Suc k = level_nodes h (take s leaves) (Suc k) \<and> width s k \<noteq> 0) \<and>
     (\<forall>k\<ge>l. Suc k < length T \<longrightarrow> T ! Suc k = level_nodes h (take n leaves) (Suc k)) \<and>
     (\<forall>k\<ge>l. Suc k < length T \<longleftrightarrow> width n k \<noteq> 0)"

lemma midD:
  assumes "mid h leaves n s l T"
  shows "l < length T" "T ! 0 = leaves"
    "\<And>k. k < l \<Longrightarrow> T ! Suc k = level_nodes h (take s leaves) (Suc k)"
    "\<And>k. k < l \<Longrightarrow> width s k \<noteq> 0"
    "\<And>k. l \<le> k \<Longrightarrow> Suc k < length T \<Longrightarrow> T ! Suc k = level_nodes h (take n leaves) (Suc k)"
    "\<And>k. l \<le> k \<Longrightarrow> Suc k < length T \<longleftrightarrow> width n k \<noteq> 0"
  using assms by (simp_all add: mid_def)

lemma mid_start: "tree_of h leaves n T \<Longrightarrow> mid h leaves n s 0 T"
  by (simp add: mid_def tree_of_def)

lemma width_antimono: "k \<le> l \<Longrightarrow> width n k = 0 \<Longrightarrow> width n l = 0"
  by (induction l) (auto simp: width_Suc le_Suc_eq)

lemma mid_end:
  assumes "mid h leaves n s l T" and "width s l = 0" and "n \<le> s"
  shows "tree_of h leaves s T"
proof -
  have zero: "width s k = 0" "width n k = 0" if "l \<le> k" for k
    using width_antimono [OF that assms(2)] width_mono [OF assms(3), of k] by simp_all
  have len: "Suc k < length T \<longleftrightarrow> k < l" for k
    using assms(1) zero(2) [of k] by (cases "k < l") (auto simp: mid_def)
  have low: "T ! Suc k = level_nodes h (take s leaves) (Suc k) \<and> width s k \<noteq> 0" if "k < l" for k
    using assms(1) that by (simp add: mid_def)
  have "Suc k < length T \<longleftrightarrow> width s k \<noteq> 0" for k
    using len [of k] low [of k] zero(1) [of k] by (cases "k < l") auto
  with assms(1) low len show ?thesis by (auto simp: mid_def tree_of_def)
qed

lemma mid_agrees:
  assumes "mid h leaves n s l (tree mt)" and "0 < s" and "s \<le> length leaves"
  shows "agrees h (take s leaves) l mt"
proof (cases l)
  case 0
  with assms show ?thesis by (auto simp: agrees_def mid_def node_hash_leaf)
next
  case (Suc k)
  with assms have "tree mt ! l = level_nodes h (take s leaves) l" by (simp add: mid_def)
  moreover have "take s leaves \<noteq> []" using assms by auto
  ultimately show ?thesis
    using assms by (simp add: agrees_def mid_def level_nodes_alt del: upt_Suc)
qed

text \<open>The nodes of the level above that need no change: those complete with \<open>n\<close> leaves.\<close>

lemma kept_nodes:
  assumes "n \<le> s"
  shows "map (node_hash h (take n leaves) k) [0..<n div 2 ^ k] = map (node_hash h (take s leaves) k) [0..<n div 2 ^ k]"
proof -
  have "node_hash h (take n leaves) k j = node_hash h (take s leaves) k j" if "j < n div 2 ^ k" for j
  proof -
    have "j + 1 \<le> n div 2 ^ k" using that by simp
    then have "(j + 1) * 2 ^ k \<le> n" by (simp add: less_eq_div_iff_mult_less_eq)
    then show ?thesis using assms node_hash_prefix [of j k n h leaves] node_hash_prefix [of j k s h leaves] by simp
  qed
  then show ?thesis by simp
qed

lemma width_cases:
  assumes "0 < n"
  shows "width n k = n div 2 ^ k \<or> Suc (width n k) = n div 2 ^ k"
proof -
  obtain m where n: "n = Suc m" using assms by (cases n) auto
  show ?thesis by (simp add: width_def n div_Suc)
qed


text \<open>First the level above is cut back to the nodes it keeps.\<close>

lemma prepare_level_eq:
  "prepare_level l f mt =
     (if length (tree mt) \<le> Suc l then (Ok (), mt\<lparr>tree := tree mt @ [[]]\<rparr>)
      else if length (tree mt ! Suc l) \<noteq> Suc (parent f) then (Ok (), mt)
      else (Ok (), mt\<lparr>tree := (tree mt)[Suc l := butlast (tree mt ! Suc l)]\<rparr>))"
  by (simp add: prepare_level_def act_bind_def act_read_def lazyLevelCount_def addLevel_def act_modify_def
      NodeCount_def act_return_def act_when_def popBack_def)

lemma cut_back:
  assumes "mid h leaves n s l (tree mt)" and "0 < n" and "n \<le> s" and "n \<le> length leaves"
  obtains T where "prepare_level l (n div 2 ^ l) mt = (Ok (), mt\<lparr>tree := T\<rparr>)" "Suc l < length T"
     "T ! Suc l = map (node_hash h (take s leaves) (Suc l)) [0..<n div 2 ^ Suc l]"
     "\<And>k. k \<noteq> Suc l \<Longrightarrow> k < length T \<Longrightarrow> T ! k = tree mt ! k"
     "\<And>k. k \<noteq> Suc l \<Longrightarrow> k < length T \<longleftrightarrow> k < length (tree mt)"
proof (cases "length (tree mt) \<le> Suc l")
  case True
  have len: "length (tree mt) = Suc l" using True assms(1) by (simp add: mid_def)
  have "Suc l < length (tree mt) \<longleftrightarrow> width n l \<noteq> 0" using assms(1) by (simp add: mid_def)
  then have "width n l = 0" using len by simp
  then have "n \<le> 2 ^ l" using width_0_iff [OF assms(2), of l] by simp
  then have "n < 2 ^ Suc l" by (rule order.strict_trans1) simp
  then have "n div 2 ^ Suc l = 0" by (rule div_less)
  with len show thesis
    by (intro that [of "tree mt @ [[]]"]) (auto simp: prepare_level_eq nth_append less_Suc_eq)
next
  case False
  define T where "T = (tree mt)[Suc l := map (node_hash h (take s leaves) (Suc l)) [0..<n div 2 ^ Suc l]]"
  have "tree mt ! Suc l = level_nodes h (take n leaves) (Suc l)" using midD(5) [OF assms(1)] False by simp
  moreover have "take n leaves \<noteq> []" "length (take n leaves) = n" using assms(2,4) by auto
  ultimately have lev: "tree mt ! Suc l = map (node_hash h (take n leaves) (Suc l)) [0..<Suc (width n (Suc l))]"
    by (metis level_nodes_alt)
  have par: "parent (n div 2 ^ l) = n div 2 ^ Suc l"
    by (simp add: parent_div div_mult2_eq [symmetric] mult.commute)
  have "prepare_level l (n div 2 ^ l) mt = (Ok (), mt\<lparr>tree := T\<rparr>)"
  proof (cases "width n (Suc l) = n div 2 ^ Suc l")
    case True
    have "butlast (tree mt ! Suc l) = map (node_hash h (take n leaves) (Suc l)) [0..<n div 2 ^ Suc l]"
      unfolding lev True by simp
    moreover have "length (tree mt ! Suc l) = Suc (n div 2 ^ Suc l)" unfolding lev True by simp
    ultimately show ?thesis
      using False kept_nodes [OF assms(3), of h leaves "Suc l"]
      by (simp only: prepare_level_eq par T_def if_False simp_thms)
  next
    case neq: False
    then have eq: "Suc (width n (Suc l)) = n div 2 ^ Suc l"
      using width_cases [OF assms(2), of "Suc l"] by simp
    have "tree mt ! Suc l = map (node_hash h (take s leaves) (Suc l)) [0..<n div 2 ^ Suc l]"
      unfolding lev eq by (rule kept_nodes [OF assms(3)])
    then have "T = tree mt" unfolding T_def by (metis list_update_id)
    moreover have "length (tree mt ! Suc l) = n div 2 ^ Suc l" unfolding lev eq by simp
    ultimately show ?thesis using False by (simp add: prepare_level_eq par)
  qed
  with False show thesis by (intro that [of T]) (simp_all add: T_def)
qed

text \<open>Then the new nodes are hashed, and a last node without a sibling is copied up.\<close>

lemma copy_last:
  assumes "xs \<noteq> []" and "agrees h xs l mt" and "Suc l < length (tree mt)"
    and "tree mt ! Suc l = map (node_hash h xs (Suc l)) [0..<Suc (width (length xs) l) div 2]"
  shows "(if \<not> isRightChild (width (length xs) l)
          then act_bind (node_at l (width (length xs) l)) (pushBack (l + 1)) else act_return ()) mt =
     (Ok (), mt\<lparr>tree := (tree mt)[Suc l := level_nodes h xs (Suc l)]\<rparr>)"
proof (cases "even (width (length xs) l)")
  case True
  then obtain j where j: "width (length xs) l = 2 * j" by (rule evenE)
  have "node_hash h xs (Suc l) j = node_hash h xs l (2 * j)"
    using children_hash [of xs j l h] assms(1) j by (simp add: width_Suc)
  then have "level_nodes h xs (Suc l) = tree mt ! Suc l @ [node_hash h xs l (2 * j)]"
    using assms(1,4) j by (simp add: level_nodes_alt width_Suc)
  moreover have "node_at l (2 * j) mt = (Ok (node_hash h xs l (2 * j)), mt)"
    using agrees_node_at [OF assms(2), of "2 * j"] j by simp
  ultimately show ?thesis
    using assms(3) by (simp add: isRightChild_odd act_bind_eq pushBack_Ok j)
next
  case False
  then obtain j where j: "width (length xs) l = 2 * j + 1" by (rule oddE)
  have "level_nodes h xs (Suc l) = tree mt ! Suc l"
    using assms(1,4) j by (simp add: level_nodes_alt width_Suc)
  then show ?thesis using False by (simp add: isRightChild_odd act_return_def)
qed

lemma update_level_run:
  assumes mid: "mid h leaves n s l (tree mt)" and w: "width s l \<noteq> 0"
    and n: "0 < n" "n < s" and s: "s \<le> length leaves"
  obtains T where "update_level h l (n div 2 ^ l) (width s l) mt = (Ok (), mt\<lparr>tree := T\<rparr>)"
    "mid h leaves n s (Suc l) T"
proof -
  let ?xs = "take s leaves"
  have xs: "?xs \<noteq> []" "length ?xs = s" using n s by auto
  obtain T0 where T0: "prepare_level l (n div 2 ^ l) mt = (Ok (), mt\<lparr>tree := T0\<rparr>)" "Suc l < length T0"
     "T0 ! Suc l = map (node_hash h ?xs (Suc l)) [0..<n div 2 ^ Suc l]"
     "\<And>k. k \<noteq> Suc l \<Longrightarrow> k < length T0 \<Longrightarrow> T0 ! k = tree mt ! k"
     "\<And>k. k \<noteq> Suc l \<Longrightarrow> k < length T0 \<longleftrightarrow> k < length (tree mt)"
    using cut_back [OF mid n(1), of thesis] n s by auto
  have "0 < length T0" using T0(2) by linarith
  then have T00: "T0 ! 0 = leaves" using T0(4) [of 0] midD(2) [OF mid] by simp
  let ?mt0 = "mt\<lparr>tree := T0\<rparr>"
  have agr: "agrees h ?xs l mt" using mid n s by (intro mid_agrees) auto
  then have agr0: "agrees h ?xs l ?mt0"
    using T0(2) T0(4) [of l] by (simp add: agrees_def)
  have start: "n div 2 ^ l - n div 2 ^ l mod 2 = 2 * (n div 2 ^ Suc l)"
    by (simp add: div_mult2_eq [symmetric] mult.commute minus_mod_eq_mult_div)
  have "n div 2 ^ l \<le> width s l" using n(2) by (simp add: width_def div_le_mono)
  then have fits: "2 * (n div 2 ^ Suc l) \<le> Suc (width s l)"
    using start by linarith
  define T1 where "T1 = T0[Suc l := map (node_hash h ?xs (Suc l)) [0..<Suc (width s l) div 2]]"
  have pairs: "hash_pairs h l (2 * (n div 2 ^ Suc l)) (width s l) ?mt0 = (Ok (), mt\<lparr>tree := T1\<rparr>)"
    using hash_pairs_run [OF xs(1) agr0] T0(2,3) fits by (simp only: xs(2) T1_def) simp
  define T where "T = T0[Suc l := level_nodes h ?xs (Suc l)]"
  have agr1: "agrees h ?xs l (mt\<lparr>tree := T1\<rparr>)"
    using agr0 by (simp add: T1_def agrees_def)
  have copy: "(if \<not> isRightChild (width s l)
      then act_bind (node_at l (width s l)) (pushBack (l + 1)) else act_return ()) (mt\<lparr>tree := T1\<rparr>) =
      (Ok (), mt\<lparr>tree := T\<rparr>)"
    using copy_last [OF xs(1) agr1, unfolded xs(2)] T0(2) by (simp add: T1_def T_def)
  have "update_level h l (n div 2 ^ l) (width s l) mt = (Ok (), mt\<lparr>tree := T\<rparr>)"
    unfolding update_level_def start using T0(1) pairs copy by (simp add: act_bind_eq)
  moreover have "mid h leaves n s (Suc l) T"
    unfolding mid_def using midD [OF mid] w T0(2,4,5) T00
    by (auto simp: T_def nth_list_update less_Suc_eq)
  ultimately show thesis by (rule that)
qed


lemma update_levels_run:
  assumes "mid h leaves n s l (tree mt)" and n: "0 < n" "n < s" and s: "s \<le> length leaves"
  shows "\<exists>T. update_levels h l (n div 2 ^ l) (width s l) mt = (Ok (), mt\<lparr>tree := T\<rparr>) \<and> tree_of h leaves s T"
  using assms(1)
proof (induction "width s l" arbitrary: l mt rule: less_induct)
  case less
  show ?case
  proof (cases "width s l = 0")
    case True
    then show ?thesis
      using mid_end [OF less.prems True] n
      by (intro exI [of _ "tree mt"]) (simp add: update_levels.simps act_return_def)
  next
    case False
    from less.prems False n s obtain T where
      T: "update_level h l (n div 2 ^ l) (width s l) mt = (Ok (), mt\<lparr>tree := T\<rparr>)" "mid h leaves n s (Suc l) T"
      by (rule update_level_run)
    have first: "parent (n div 2 ^ l) = n div 2 ^ Suc l"
      by (simp add: parent_div div_mult2_eq [symmetric] mult.commute)
    have lst: "parent (width s l) = width s (Suc l)" by (simp add: parent_div width_Suc)
    have "width s (Suc l) < width s l" using False by (simp add: width_Suc)
    from less.hyps [OF this, of "mt\<lparr>tree := T\<rparr>"] T(2) obtain T' where
      T': "update_levels h (Suc l) (n div 2 ^ Suc l) (width s (Suc l)) (mt\<lparr>tree := T\<rparr>) = (Ok (), mt\<lparr>tree := T'\<rparr>)"
      "tree_of h leaves s T'" by auto
    have "update_levels h l (n div 2 ^ l) (width s l) mt = (Ok (), mt\<lparr>tree := T'\<rparr>)"
      by (subst update_levels.simps)
         (simp only: first lst act_bind_eq [where m = "update_level h l (n div 2 ^ l) (width s l)", OF T(1)]
           False not_False_eq_True if_True Suc_eq_plus1 [symmetric] T'(1))
    with T'(2) show ?thesis by blast
  qed
qed

section \<open>Roots\<close>

text \<open>
  The state of a tree over the leaf hashes \<open>leaves\<close>, as the methods leave it: no leaf yet, or
  the levels of the first \<open>leavesProcessed\<close> leaves.
\<close>

definition mt_ok :: "LogHasher \<Rightarrow> hash list \<Rightarrow> InMemoryMerkleTree \<Rightarrow> bool" where
  "mt_ok h leaves mt \<longleftrightarrow>
     (if leaves = [] then tree mt = [] \<and> leavesProcessed mt = 0 \<and> levelCount mt = 0
      else tree_of h leaves (leavesProcessed mt) (tree mt) \<and>
        0 < leavesProcessed mt \<and> leavesProcessed mt \<le> length leaves \<and>
        (\<forall>k. k < levelCount mt \<longleftrightarrow> k = 0 \<or> width (length leaves) (k - 1) \<noteq> 0))"

text \<open>The tree hash: of height enough for all leaves.\<close>

definition tree_hash :: "LogHasher \<Rightarrow> hash list \<Rightarrow> hash" where
  "tree_hash h xs = (if xs = [] then EmptyRoot h else sub h (length xs) xs)"

lemma tree_hash_sub: "xs \<noteq> [] \<Longrightarrow> length xs \<le> 2 ^ k \<Longrightarrow> tree_hash h xs = sub h k xs"
  using sub_cong_height [of xs k "length xs" h] sub_cong_height [of xs "length xs" k h]
    less_exp [of "length xs"]
  by (cases "k \<le> length xs") (auto simp: tree_hash_def)

text \<open>The equation of RFC 6962: split at the largest power of two below the number of leaves.\<close>

lemma tree_hash_split:
  assumes "2 ^ k < length xs" and "length xs \<le> 2 ^ Suc k"
  shows "tree_hash h xs = HashChildren h (tree_hash h (take (2 ^ k) xs)) (tree_hash h (drop (2 ^ k) xs))"
proof -
  have ne: "xs \<noteq> []" "take (2 ^ k) xs \<noteq> []" "drop (2 ^ k) xs \<noteq> []" using assms by auto
  have "tree_hash h xs = sub h (Suc k) xs" using ne(1) assms(2) by (rule tree_hash_sub)
  also have "\<dots> = HashChildren h (sub h k (take (2 ^ k) xs)) (sub h k (drop (2 ^ k) xs))"
    using assms(1) by simp
  finally show ?thesis using tree_hash_sub [OF ne(2), of k h] tree_hash_sub [OF ne(3), of k h] assms by simp
qed

lemma node_hash_root: "xs \<noteq> [] \<Longrightarrow> length xs \<le> 2 ^ k \<Longrightarrow> node_hash h xs k 0 = tree_hash h xs"
  by (simp add: node_hash_def tree_hash_sub)

lemma LeafCount_run: "mt_ok h leaves mt \<Longrightarrow> LeafCount mt = (Ok (length leaves), mt)"
  by (auto simp: mt_ok_def LeafCount_def NodeCount_def lazyLevelCount_def act_return_def tree_of_def
      split: if_splits)

lemma tree_of_width_length: "tree_of h leaves n T \<Longrightarrow> width n (length T - 1) = 0"
  by (cases T) (auto simp: tree_of_def)

lemma root_run:
  assumes "tree_of h leaves n (tree mt)" and "1 < n" and "n \<le> length leaves"
  shows "root mt = (Ok (tree_hash h (take n leaves)), mt)"
proof -
  let ?k = "length (tree mt) - 1"
  have w: "width n 0 \<noteq> 0" using assms(2) by simp
  then have len: "1 < length (tree mt)" using assms(1) by (auto simp: tree_of_def)
  define k where "k = length (tree mt) - 2"
  have k: "?k = Suc k" "Suc k < length (tree mt)" using len by (auto simp: k_def)
  have zero: "width n (Suc k) = 0" using tree_of_width_length [OF assms(1)] k by simp
  have xs: "take n leaves \<noteq> []" "length (take n leaves) = n" using assms by auto
  have "tree mt ! ?k = level_nodes h (take n leaves) (Suc k)" using assms(1) k by (simp add: tree_of_def)
  also have "\<dots> = [node_hash h (take n leaves) (Suc k) 0]"
    using level_nodes_alt [OF xs(1), of h "Suc k"] xs(2) zero by simp
  finally have lev: "tree mt ! ?k = [node_hash h (take n leaves) (Suc k) 0]" .
  have "n \<le> 2 ^ Suc k" using zero assms(2) width_0_iff [of n "Suc k"] by simp
  then have "node_hash h (take n leaves) (Suc k) 0 = tree_hash h (take n leaves)"
    using xs by (intro node_hash_root) simp_all
  with lev len show ?thesis by (auto simp: root_def Let_def node_at_Ok)
qed

lemma updateToSnapshot_run:
  assumes ok: "mt_ok h leaves mt" and s: "0 < s" "leavesProcessed mt \<le> s" "s \<le> length leaves"
  obtains mt' where "updateToSnapshot h s mt = (Ok (tree_hash h (take s leaves)), mt')"
    "mt_ok h leaves mt'" "leavesProcessed mt' = max (leavesProcessed mt) (if s = 1 then 0 else s)"
proof (cases "s = 1")
  case True
  have "tree mt \<noteq> []" "tree mt ! 0 = leaves" "leaves \<noteq> []"
    using ok s by (auto simp: mt_ok_def tree_of_def split: if_splits)
  then have "updateToSnapshot h s mt = (Ok (tree_hash h (take s leaves)), mt)"
    using True by (cases leaves) (auto simp: updateToSnapshot_def node_at_Ok tree_hash_def)
  then show thesis by (rule that) (use ok True s in \<open>simp_all add: max_def\<close>)
next
  case False
  let ?n = "leavesProcessed mt"
  have tree: "tree_of h leaves ?n (tree mt)" "0 < ?n" using ok s by (auto simp: mt_ok_def split: if_splits)
  show thesis
  proof (cases "s = ?n")
    case True
    with False s have "updateToSnapshot h s mt = (Ok (tree_hash h (take s leaves)), mt)"
      using root_run [OF tree(1)] by (simp add: updateToSnapshot_def act_bind_def act_read_def)
    then show thesis by (rule that) (use ok True False in simp_all)
  next
    case less: False
    with s have n: "?n < s" by simp
    obtain T where T: "update_levels h 0 ?n (s - 1) mt = (Ok (), mt\<lparr>tree := T\<rparr>)" "tree_of h leaves s T"
      using update_levels_run [OF mid_start [OF tree(1)] tree(2) n s(3)] by auto
    let ?mt' = "mt\<lparr>tree := T, leavesProcessed := s\<rparr>"
    have "updateToSnapshot h s mt = (Ok (tree_hash h (take s leaves)), ?mt')"
      using False less n s T LeafCount_run [OF ok] root_run [of h leaves s ?mt']
      by (simp add: updateToSnapshot_def act_bind_def act_read_def act_modify_def)
    then show thesis by (rule that) (use ok T(2) s n False in \<open>auto simp: mt_ok_def max_def\<close>)
  qed
qed

section \<open>Adding leaves\<close>

lemma two_power_and:
  fixes m :: nat
  assumes "0 < m"
  shows "m AND (m - 1) = 0 \<longleftrightarrow> (\<exists>k. m = 2 ^ k)"
  using assms
proof (induction m rule: less_induct)
  case (less m)
  show ?case
  proof (cases "even m")
    case True
    then obtain a where a: "m = 2 * a" by (rule evenE)
    with less.prems have pos: "0 < a" "a < m" by auto
    have "(m - 1) div 2 = a - 1" using a pos by (cases a) auto
    then have "m AND (m - 1) = 2 * (a AND (a - 1))" using True a by (subst and_rec) simp
    then have "m AND (m - 1) = 0 \<longleftrightarrow> (\<exists>k. a = 2 ^ k)" using less.IH [OF pos(2) pos(1)] by simp
    also have "\<dots> \<longleftrightarrow> (\<exists>k. m = 2 ^ k)"
    proof
      assume "\<exists>k. m = 2 ^ k"
      then obtain k where "m = 2 ^ k" by blast
      with True a show "\<exists>k. a = 2 ^ k" by (cases k) auto
    qed (use a in \<open>auto simp: power_Suc [symmetric] simp del: power_Suc\<close>)
    finally show ?thesis .
  next
    case False
    then obtain a where a: "m = 2 * a + 1" by (rule oddE)
    have "m AND (m - 1) = 2 * a" by (subst and_rec) (simp add: a)
    moreover have "m = 2 ^ k \<Longrightarrow> a = 0" for k using a False by (cases k) auto
    ultimately show ?thesis using a by (auto intro!: exI [of _ 0])
  qed
qed

text \<open>The number of levels grows with the leaf after a power of two.\<close>

lemma width_grow:
  assumes "0 < n"
  shows "width (Suc n) k \<noteq> 0 \<longleftrightarrow> width n k \<noteq> 0 \<or> n = 2 ^ k"
  using width_0_iff [of n k] width_0_iff [of "Suc n" k] assms by auto

lemma isPowerOfTwoPlusOne_iff: "isPowerOfTwoPlusOne n \<longleftrightarrow> n = 1 \<or> (\<exists>k. n = Suc (2 ^ k))"
proof (cases "n \<le> 1")
  case True
  then show ?thesis by (auto simp: isPowerOfTwoPlusOne_def le_Suc_eq)
next
  case False
  then obtain m where m: "n = Suc m" "0 < m" by (cases n) auto
  then show ?thesis using two_power_and [OF m(2)] by (simp add: isPowerOfTwoPlusOne_def)
qed

lemma levels_unique:
  assumes "\<And>k. k < a \<longleftrightarrow> P k" and "\<And>k. k < b \<longleftrightarrow> P k"
  shows "a = (b::nat)"
  using assms by (metis linorder_neqE_nat order_less_irrefl)

lemma levels_grow:
  assumes "0 < n" and "\<And>k. k < c \<longleftrightarrow> k = 0 \<or> width n (k - 1) \<noteq> 0"
  shows "k < (if isPowerOfTwoPlusOne (Suc n) then Suc c else c) \<longleftrightarrow> k = 0 \<or> width (Suc n) (k - 1) \<noteq> 0"
proof -
  have mono: "width n l = 0" if "c \<le> Suc l" for l
    using assms(2) [of "Suc l"] that by simp
  show ?thesis
  proof (cases "\<exists>j. n = 2 ^ j")
    case True
    then obtain j where j: "n = 2 ^ j" by blast
    have "width n j = 0" using j width_0_iff [of n j] assms(1) by simp
    then have "\<not> Suc j < c" using assms(2) [of "Suc j"] by simp
    moreover have "j < c"
    proof (cases j)
      case (Suc i)
      have "width n i \<noteq> 0" using j Suc width_0_iff [of n i] assms(1) by simp
      then show ?thesis using assms(2) [of j] Suc by simp
    qed (use assms(2) [of 0] in simp)
    ultimately have c: "c = Suc j" by simp
    have "isPowerOfTwoPlusOne (Suc n)" using j by (auto simp: isPowerOfTwoPlusOne_iff)
    moreover have "(k - 1 = j) \<longleftrightarrow> n = 2 ^ (k - 1)" by (auto simp: j)
    ultimately show ?thesis
      using assms(2) [of k] width_grow [OF assms(1), of "k - 1"] c by (cases k) auto
  next
    case False
    then have "\<not> isPowerOfTwoPlusOne (Suc n)" using assms(1) by (auto simp: isPowerOfTwoPlusOne_iff)
    then show ?thesis using assms(2) [of k] width_grow [OF assms(1), of "k - 1"] False by simp
  qed
qed

lemma addLeafHash_run:
  assumes ok: "mt_ok h leaves mt"
  obtains mt' where "addLeafHash x mt = (Ok (Suc (length leaves), x), mt')" "mt_ok h (leaves @ [x]) mt'"
    "leavesProcessed mt' = (if leaves = [] then 1 else leavesProcessed mt)"
proof (cases "leaves = []")
  case True
  let ?mt' = "mt\<lparr>tree := [[x]], leavesProcessed := 1, levelCount := 1\<rparr>"
  have "addLeafHash x mt = (Ok (Suc (length leaves), x), ?mt')"
    using ok True
    by (simp add: mt_ok_def addLeafHash_def act_bind_def act_read_def lazyLevelCount_def act_when_def
        addLevel_def act_modify_def pushBack_def act_return_def LeafCount_def NodeCount_def
        isPowerOfTwoPlusOne_def)
  then show thesis by (rule that) (use True in \<open>auto simp: mt_ok_def tree_of_def width_def\<close>)
next
  case False
  let ?n = "leavesProcessed mt"
  have tree: "tree_of h leaves ?n (tree mt)" "?n \<le> length leaves"
    and levels: "\<And>k. k < levelCount mt \<longleftrightarrow> k = 0 \<or> width (length leaves) (k - 1) \<noteq> 0"
    using ok False by (auto simp: mt_ok_def)
  define c where "c = (if isPowerOfTwoPlusOne (Suc (length leaves)) then Suc (levelCount mt) else levelCount mt)"
  let ?mt' = "mt\<lparr>tree := (tree mt)[0 := leaves @ [x]], levelCount := c\<rparr>"
  have T: "tree mt \<noteq> []" "tree mt ! 0 = leaves" using tree by (auto simp: tree_of_def)
  have "addLeafHash x mt = (Ok (Suc (length leaves), x), ?mt')"
    using T
    by (simp add: addLeafHash_def act_bind_def act_read_def lazyLevelCount_def act_when_def
        act_modify_def pushBack_def act_return_def LeafCount_def NodeCount_def c_def)
  moreover have "tree_of h (leaves @ [x]) ?n ((tree mt)[0 := leaves @ [x]])"
    using tree by (auto simp: tree_of_def nth_list_update)
  then have "mt_ok h (leaves @ [x]) ?mt'"
    using ok False levels_grow [OF _ levels] by (auto simp: mt_ok_def c_def)
  ultimately show thesis by (rule that) (use False in simp)
qed

section \<open>Past snapshots\<close>

text \<open>
  Nodes that are complete in a snapshot are read off the tree: they are the same in every
  later one.
\<close>

lemma tree_of_node:
  assumes "tree_of h leaves n (tree mt)" and "0 < n" and "n \<le> length leaves" and "j \<le> width n k"
  shows "node_at k j mt = (Ok (node_hash h (take n leaves) k j), mt) \<or> width n (k - 1) = 0 \<and> 0 < k"
proof (cases k)
  case 0
  have "j < length leaves" using assms(2-4) 0 by simp
  moreover have "j < n" using assms(2,4) 0 by simp
  ultimately show ?thesis
    using assms(1,3) 0 by (auto simp: tree_of_def node_at_Ok node_hash_leaf)
next
  case (Suc i)
  show ?thesis
  proof (cases "width n i = 0")
    case False
    then have len: "k < length (tree mt)" and lev: "tree mt ! k = level_nodes h (take n leaves) k"
      using assms(1) Suc by (auto simp: tree_of_def)
    have xs: "take n leaves \<noteq> []" "length (take n leaves) = n" using assms(2,3) by auto
    have "tree mt ! k = map (node_hash h (take n leaves) k) [0..<Suc (width n k)]"
      using level_nodes_alt [OF xs(1), of h k] lev xs(2) by simp
    then show ?thesis using len assms(4) by (simp add: node_at_Ok del: upt_Suc)
  qed (use Suc in simp)
qed

lemma complete_node:
  assumes tree: "tree_of h leaves n (tree mt)" and n: "n \<le> length leaves" and s: "0 < s" "s \<le> n"
    and j: "(j + 1) * 2 ^ k \<le> s"
  shows "node_at k j mt = (Ok (node_hash h (take s leaves) k j), mt)"
proof -
  have "j * 2 ^ k < (j + 1) * 2 ^ k" by simp
  then have "j * 2 ^ k < n" using j s by linarith
  then have w: "j \<le> width n k" using node_exists [of n j k] s by simp
  have "width n (k - 1) \<noteq> 0" if pos: "0 < k"
  proof -
    obtain i where i: "k = Suc i" using pos by (cases k) auto
    have "(2::nat) ^ i < 2 ^ k" by (simp add: i)
    also have "\<dots> \<le> (j + 1) * 2 ^ k" by simp
    finally have "2 ^ i < n" using j s by simp
    then show ?thesis using width_0_iff [of n i] s i by simp
  qed
  moreover have "node_hash h (take n leaves) k j = node_hash h (take s leaves) k j"
    using node_hash_prefix [of j k n h leaves] node_hash_prefix [of j k s h leaves] j s by simp
  ultimately show ?thesis using tree_of_node [OF tree _ n w] s by auto
qed

text \<open>Up from the last leaf through right children: their subtrees are complete.\<close>

definition recorded_ok :: "LogHasher \<Rightarrow> hash list \<Rightarrow> nat option \<Rightarrow> nat \<Rightarrow> hash \<Rightarrow> bool" where
  "recorded_ok h xs want level r \<longleftrightarrow>
     (\<forall>k. want = Some k \<longrightarrow> k \<le> level \<longrightarrow> r = node_hash h xs k (width (length xs) k))"

lemma climb_right_run:
  assumes tree: "tree_of h leaves n (tree mt)" and n: "n \<le> length leaves" and s: "0 < s" "s < n"
    and full: "(width s l + 1) * 2 ^ l = s"
    and rec: "\<forall>k. want = Some k \<longrightarrow> k < l \<longrightarrow> r = node_hash h (take s leaves) k (width s k)"
  shows "\<exists>l' r'. climb_right want l (width s l) r mt = (Ok (l', width s l', r'), mt) \<and>
    l \<le> l' \<and> (width s l' + 1) * 2 ^ l' = s \<and> even (width s l') \<and>
    (\<forall>k. want = Some k \<longrightarrow> k < l' \<longrightarrow> r' = node_hash h (take s leaves) k (width s k))"
  using full rec
proof (induction "width s l" arbitrary: l r rule: less_induct)
  case less
  show ?case
  proof (cases "odd (width s l)")
    case True
    then obtain j where j: "width s l = 2 * j + 1" by (rule oddE)
    have up: "width s (Suc l) = j" "parent (width s l) = width s (Suc l)"
      using j by (simp_all add: width_Suc parent_div)
    have full': "(width s (Suc l) + 1) * 2 ^ Suc l = s" using less.prems(1) j up by (simp add: algebra_simps)
    have node: "node_at l (width s l) mt = (Ok (node_hash h (take s leaves) l (width s l)), mt)"
      using complete_node [OF tree n s(1) less_imp_le [OF s(2)], of "width s l" l] less.prems(1) by simp
    define r' where "r' = (if want = Some l then node_hash h (take s leaves) l (width s l) else r)"
    have step: "climb_right want l (width s l) r mt = climb_right want (Suc l) (width s (Suc l)) r' mt"
      using True node up(2) by (subst climb_right.simps) (simp add: isRightChild_odd act_bind_def act_return_def r'_def)
    have "\<forall>k. want = Some k \<longrightarrow> k < Suc l \<longrightarrow> r' = node_hash h (take s leaves) k (width s k)"
      using less.prems(2) by (auto simp: r'_def less_Suc_eq)
    from less.hyps [OF _ full' this] j up step show ?thesis by fastforce
  next
    case False
    then show ?thesis
      using less.prems by (intro exI [of _ l] exI [of _ r])
        (simp add: climb_right.simps isRightChild_odd act_return_def)
  qed
qed

text \<open>Then up to the root, hashing the left siblings in.\<close>

lemma climb_hash_run:
  assumes tree: "tree_of h leaves n (tree mt)" and n: "n \<le> length leaves" and s: "0 < s" "s < n"
    and rec: "\<forall>k. want = Some k \<longrightarrow> k \<le> l \<longrightarrow> r = node_hash h (take s leaves) k (width s k)"
  shows "\<exists>l' r'. climb_hash h want l (width s l) (node_hash h (take s leaves) l (width s l)) r mt =
      (Ok (tree_hash h (take s leaves), r'), mt) \<and> width s l' = 0 \<and>
    (\<forall>k. want = Some k \<longrightarrow> k \<le> l' \<longrightarrow> r' = node_hash h (take s leaves) k (width s k))"
  using rec
proof (induction "width s l" arbitrary: l r rule: less_induct)
  case less
  let ?xs = "take s leaves"
  have xs: "?xs \<noteq> []" "length ?xs = s" using s n by auto
  show ?case
  proof (cases "width s l = 0")
    case True
    then have "s \<le> 2 ^ l" using width_0_iff [of s l] s by simp
    then show ?thesis
      using True less.prems node_hash_root [of ?xs l h] xs
      by (intro exI [of _ l] exI [of _ r]) (simp add: climb_hash.simps act_return_def)
  next
    case False
    let ?up = "node_hash h ?xs (Suc l) (width s (Suc l))"
    have par: "parent (width s l) = width s (Suc l)" by (simp add: parent_div width_Suc)
    have smaller: "width s (Suc l) < width s l" using False by (simp add: width_Suc)
    have child: "?up = (if odd (width s l)
       then HashChildren h (node_hash h ?xs l (width s l - 1)) (node_hash h ?xs l (width s l))
       else node_hash h ?xs l (width s l))"
      using children_hash [of ?xs "width s (Suc l)" l h] xs s
      by (cases "odd (width s l)") (auto simp: width_Suc elim!: oddE evenE)
    have left: "node_at l (width s l - 1) mt = (Ok (node_hash h ?xs l (width s l - 1)), mt)"
      using complete_node [OF tree n s(1) less_imp_le [OF s(2)], of "width s l - 1" l] node_complete [OF s(1), of "width s l - 1" l] False
      by simp
    define r' where "r' = record_at want (Suc l) r ?up"
    have step: "climb_hash h want l (width s l) (node_hash h ?xs l (width s l)) r mt =
        climb_hash h want (Suc l) (width s (Suc l)) ?up r' mt"
      using False left child par
      by (subst climb_hash.simps) (simp add: isRightChild_odd act_bind_def act_return_def r'_def)
    have "\<forall>k. want = Some k \<longrightarrow> k \<le> Suc l \<longrightarrow> r' = node_hash h ?xs k (width s k)"
      using less.prems by (auto simp: r'_def record_at_def le_Suc_eq)
    from less.hyps [OF smaller this] step show ?thesis by simp
  qed
qed

lemma recompute_past:
  assumes tree: "tree_of h leaves (leavesProcessed mt) (tree mt)" and n: "leavesProcessed mt \<le> length leaves"
    and s: "0 < s" "s < leavesProcessed mt"
  shows "\<exists>r. recomputePastSnapshot h s want r0 mt = (Ok (tree_hash h (take s leaves), r), mt) \<and>
    (\<forall>k. want = Some k \<longrightarrow> width s k \<noteq> 0 \<longrightarrow> r = node_hash h (take s leaves) k (width s k))"
proof -
  let ?xs = "take s leaves"
  obtain l r1 where
    right: "climb_right want 0 (s - 1) r0 mt = (Ok (l, width s l, r1), mt)" and
    full: "(width s l + 1) * 2 ^ l = s" and
    rec: "\<forall>k. want = Some k \<longrightarrow> k < l \<longrightarrow> r1 = node_hash h ?xs k (width s k)"
    using climb_right_run [OF tree n s, of 0 want r0] s by auto
  have node: "node_at l (width s l) mt = (Ok (node_hash h ?xs l (width s l)), mt)"
    using complete_node [OF tree n s(1), of "width s l" l] full s by simp
  define r2 where "r2 = record_at want l r1 (node_hash h ?xs l (width s l))"
  have "\<forall>k. want = Some k \<longrightarrow> k \<le> l \<longrightarrow> r2 = node_hash h ?xs k (width s k)"
    using rec by (auto simp: r2_def record_at_def)
  then obtain l' r where
    up: "climb_hash h want l (width s l) (node_hash h ?xs l (width s l)) r2 mt = (Ok (tree_hash h ?xs, r), mt)" and
    top: "width s l' = 0" and
    r: "\<forall>k. want = Some k \<longrightarrow> k \<le> l' \<longrightarrow> r = node_hash h ?xs k (width s k)"
    using climb_hash_run [OF tree n s, of want l r2] by auto
  have "k \<le> l'" if "width s k \<noteq> 0" for k
    using width_antimono [OF _ top, of k] that by (cases "k \<le> l'") auto
  with r have "\<forall>k. want = Some k \<longrightarrow> width s k \<noteq> 0 \<longrightarrow> r = node_hash h ?xs k (width s k)" by blast
  moreover have "recomputePastSnapshot h s want r0 mt = (Ok (tree_hash h ?xs, r), mt)"
    unfolding recomputePastSnapshot_def using s right node up
    by (simp add: act_bind_def act_read_def r2_def)
  ultimately show ?thesis by blast
qed

lemma tree_of_last:
  assumes tree: "tree_of h leaves n (tree mt)" and n: "0 < n" "n \<le> length leaves" and k: "width n k \<noteq> 0"
  shows "k < length (tree mt)"
    "(if 0 < k then lastNode k else node_at k (n - 1)) mt = (Ok (node_hash h (take n leaves) k (width n k)), mt)"
proof -
  have below: "width n (k - 1) \<noteq> 0" using width_antimono [of "k - 1" k n] k by auto
  show len: "k < length (tree mt)"
    using tree below by (cases k) (auto simp: tree_of_def)
  have node: "node_at k (width n k) mt = (Ok (node_hash h (take n leaves) k (width n k)), mt)"
    using tree_of_node [OF tree n, of "width n k" k] below by auto
  have xs: "take n leaves \<noteq> []" "length (take n leaves) = n" using n by auto
  have "length (tree mt ! k) = Suc (width n k)" if "0 < k"
  proof -
    obtain i where i: "k = Suc i" using \<open>0 < k\<close> by (cases k) auto
    then have "tree mt ! k = level_nodes h (take n leaves) k" using tree len by (simp add: tree_of_def)
    then show ?thesis using level_nodes_alt [OF xs(1), of h k] xs(2) by simp
  qed
  then show "(if 0 < k then lastNode k else node_at k (n - 1)) mt = (Ok (node_hash h (take n leaves) k (width n k)), mt)"
    using node len
    by (auto simp: lastNode_def NodeCount_def lazyLevelCount_def act_bind_def act_return_def)
qed

lemma recompute_run:
  assumes tree: "tree_of h leaves (leavesProcessed mt) (tree mt)" and n: "leavesProcessed mt \<le> length leaves"
    and s: "0 < s" "s \<le> leavesProcessed mt" and k: "width s k \<noteq> 0"
  shows "recomputePastSnapshot h s (Some k) r0 mt =
    (Ok (tree_hash h (take s leaves), node_hash h (take s leaves) k (width s k)), mt)"
proof (cases "s = leavesProcessed mt")
  case True
  have "width s 0 \<noteq> 0" using width_antimono [of 0 k s] k by auto
  then have "root mt = (Ok (tree_hash h (take s leaves)), mt)"
    using root_run [OF tree] n True by simp
  then show ?thesis
    using tree_of_last [OF tree _ n, of k] k s True
    by (simp add: recomputePastSnapshot_def act_bind_def act_read_def lazyLevelCount_def act_return_def
        split: if_splits)
next
  case False
  with recompute_past [OF tree n s(1), of "Some k" r0] s k show ?thesis by auto
qed

lemma RootAtSnapshot_run:
  assumes ok: "mt_ok h leaves mt"
  shows "\<exists>mt'. RootAtSnapshot h s mt =
      (Ok (if s \<le> length leaves then tree_hash h (take s leaves) else []), mt') \<and> mt_ok h leaves mt'"
proof (cases "s = 0 \<or> length leaves < s")
  case True
  then show ?thesis
    using ok LeafCount_run [OF ok]
    by (auto simp: RootAtSnapshot_def act_return_def act_bind_def tree_hash_def intro!: exI [of _ mt])
next
  case False
  then have s: "0 < s" "s \<le> length leaves" by auto
  then have tree: "tree_of h leaves (leavesProcessed mt) (tree mt)" "leavesProcessed mt \<le> length leaves"
    using ok by (auto simp: mt_ok_def split: if_splits)
  show ?thesis
  proof (cases "leavesProcessed mt \<le> s")
    case True
    from updateToSnapshot_run [OF ok s(1) True s(2)] obtain mt' where
      "updateToSnapshot h s mt = (Ok (tree_hash h (take s leaves)), mt')" "mt_ok h leaves mt'" by metis
    then show ?thesis
      using True s LeafCount_run [OF ok]
      by (intro exI [of _ mt']) (simp add: RootAtSnapshot_def act_bind_def act_read_def)
  next
    case less: False
    then obtain r where "recomputePastSnapshot h s None [] mt = (Ok (tree_hash h (take s leaves), r), mt)"
      using recompute_past [OF tree s(1), of None "[]"] by auto
    then show ?thesis
      using less s LeafCount_run [OF ok] ok
      by (intro exI [of _ mt]) (simp add: RootAtSnapshot_def act_bind_def act_read_def act_return_def)
  qed
qed

section \<open>Audit paths\<close>

text \<open>
  Recomputing the root from a node and its path: \<open>m\<close> is the index of the node on its level,
  \<open>l\<close> that of the last node there.
\<close>

function path_root :: "LogHasher \<Rightarrow> nat \<Rightarrow> nat \<Rightarrow> hash \<Rightarrow> hash list \<Rightarrow> hash" where
  "path_root h m l e path =
     (if l = 0 then e
      else if odd m then path_root h (m div 2) (l div 2) (HashChildren h (hd path) e) (tl path)
      else if m < l then path_root h (m div 2) (l div 2) (HashChildren h e (hd path)) (tl path)
      else path_root h (m div 2) (l div 2) e path)"
  by pat_completeness auto
termination by (relation "measure (\<lambda>(h, m, l, e, path). l)") auto

declare path_root.simps [simp del]

lemma climb_path_run:
  assumes tree: "tree_of h leaves (leavesProcessed mt) (tree mt)" and n: "leavesProcessed mt \<le> length leaves"
    and s: "0 < s" "s \<le> leavesProcessed mt" and m: "m \<le> width s l"
  shows "\<exists>rest. climb_path h s l m (width s l) path mt = (Ok (path @ rest), mt) \<and>
    path_root h m (width s l) (node_hash h (take s leaves) l m) (map Value rest) = tree_hash h (take s leaves)"
  using m
proof (induction "width s l" arbitrary: l m path rule: less_induct)
  case less
  let ?xs = "take s leaves" and ?w = "width s l"
  have xs: "?xs \<noteq> []" "length ?xs = s" using s n by auto
  show ?case
  proof (cases "?w = 0")
    case True
    then have "s \<le> 2 ^ l" using width_0_iff [of s l] s by simp
    then show ?thesis
      using True less.prems node_hash_root [of ?xs l h] xs
      by (intro exI [of _ "[]"]) (simp add: climb_path.simps path_root.simps act_return_def)
  next
    case False
    have par: "parent ?w = width s (Suc l)" "parent m = m div 2" by (simp_all add: parent_div width_Suc)
    have up: "width s (Suc l) < ?w" "m div 2 \<le> width s (Suc l)"
      using False less.prems by (auto simp: width_Suc intro: div_le_mono)
    have half: "even m \<Longrightarrow> 2 * (m div 2) = m" "odd m \<Longrightarrow> 2 * (m div 2) = m - 1" by auto
    have child: "node_hash h ?xs (Suc l) (m div 2) =
      (if odd m then HashChildren h (node_hash h ?xs l (m - 1)) (node_hash h ?xs l m)
       else if m < ?w then HashChildren h (node_hash h ?xs l m) (node_hash h ?xs l (m + 1))
       else node_hash h ?xs l m)"
      using children_hash [of ?xs "m div 2" l h] xs s up less.prems
      by (cases "odd m") (auto simp: half)
    have node: "node_at l j mt = (Ok (node_hash h ?xs l j), mt)" if "j < ?w" for j
      using complete_node [OF tree n s] node_complete [OF s(1) that] by simp
    have last: "recomputePastSnapshot h s (Some l) [] mt = (Ok (tree_hash h ?xs, node_hash h ?xs l ?w), mt)"
      using tree n s False by (rule recompute_run)
    define step where "step = (if sibling m \<le> ?w then [\<lparr>Value = node_hash h ?xs l (sibling m),
        XCoord = (if sibling m < ?w then int l else - int l),
        YCoord = (if sibling m < ?w then int (sibling m) else - int (sibling m))\<rparr>] else [])"
    have "climb_path h s l m ?w path mt = climb_path h s (Suc l) (m div 2) (width s (Suc l)) (path @ step) mt"
      using False node last
      by (subst climb_path.simps) (simp add: act_bind_def act_return_def Let_def step_def par)
    moreover obtain rest where
      rest: "climb_path h s (Suc l) (m div 2) (width s (Suc l)) (path @ step) mt = (Ok (path @ step @ rest), mt)"
        "path_root h (m div 2) (width s (Suc l)) (node_hash h ?xs (Suc l) (m div 2)) (map Value rest) = tree_hash h ?xs"
      using less.hyps [OF up(1) up(2), of "path @ step"] by auto
    moreover have "path_root h m ?w (node_hash h ?xs l m) (map Value (step @ rest)) = tree_hash h ?xs"
      using False less.prems rest(2) child
      by (subst path_root.simps) (auto simp: step_def sibling_def isRightChild_odd width_Suc)
    ultimately show ?thesis by auto
  qed
qed


lemma PathToRootAtSnapshot_run:
  assumes ok: "mt_ok h leaves mt" and leaf: "0 < leaf" "leaf \<le> s" "s \<le> length leaves"
  shows "\<exists>path mt'. PathToRootAtSnapshot h leaf s mt = (Ok path, mt') \<and> mt_ok h leaves mt' \<and>
    path_root h (leaf - 1) (s - 1) (leaves ! (leaf - 1)) (map Value path) = tree_hash h (take s leaves)"
proof -
  let ?upd = "act_when (s > leavesProcessed mt) (act_bind (updateToSnapshot h s) (\<lambda>_. act_return ()))"
  have s: "0 < s" using leaf by simp
  have ne: "leaves \<noteq> []" using leaf by auto
  obtain mt' where upd: "?upd mt = (Ok (), mt')" and ok': "mt_ok h leaves mt'" and n: "s \<le> leavesProcessed mt'"
  proof (cases "s > leavesProcessed mt")
    case True
    with updateToSnapshot_run [OF ok s _ leaf(3)] obtain mt' where
      "updateToSnapshot h s mt = (Ok (tree_hash h (take s leaves)), mt')" "mt_ok h leaves mt'"
      "leavesProcessed mt' = max (leavesProcessed mt) (if s = 1 then 0 else s)" by (metis less_imp_le)
    moreover have "s \<noteq> 1" using True ok ne by (auto simp: mt_ok_def)
    ultimately show thesis using True
      by (intro that [of mt']) (simp_all add: act_when_def act_bind_def act_return_def)
  next
    case False
    with ok show thesis by (intro that [of mt]) (simp_all add: act_when_def act_return_def)
  qed
  have tree: "tree_of h leaves (leavesProcessed mt') (tree mt')" "leavesProcessed mt' \<le> length leaves"
    using ok' ne by (auto simp: mt_ok_def)
  have "leaf - 1 \<le> width s 0" using leaf by simp
  with climb_path_run [OF tree s n, of "leaf - 1" 0 "[]"] obtain path where
    path: "climb_path h s 0 (leaf - 1) (s - 1) [] mt' = (Ok path, mt')"
      "path_root h (leaf - 1) (s - 1) (node_hash h (take s leaves) 0 (leaf - 1)) (map Value path) =
         tree_hash h (take s leaves)" by auto
  have first: "node_hash h (take s leaves) 0 (leaf - 1) = leaves ! (leaf - 1)"
    using node_hash_leaf [of "leaf - 1" "take s leaves" h] leaf by simp
  have "0 < levelCount mt" using ok ne by (auto simp: mt_ok_def)
  then have "PathToRootAtSnapshot h leaf s mt = (Ok path, mt')"
    using LeafCount_run [OF ok] upd path(1) leaf s
    by (auto simp: PathToRootAtSnapshot_def pathFromNodeToRootAtSnapshot_def Let_def act_bind_eq act_read_def)
  with path(2) first ok' show ?thesis by auto
qed

section \<open>The root of a list\<close>

lemma mt_ok_new: "mt_ok h [] NewInMemoryMerkleTree"
  by (simp add: mt_ok_def NewInMemoryMerkleTree_def)

lemma add_leaves_run:
  assumes "mt_ok (New sha) hs mt"
  shows "\<exists>mt'. add_leaves (New sha) leaves mt = (Ok (), mt') \<and>
    mt_ok (New sha) (hs @ map (\<lambda>x. sha ([LeafHashPrefix] @ x)) leaves) mt'"
  using assms
proof (induction leaves arbitrary: hs mt)
  case Nil
  then show ?case by (auto simp: add_leaves_def act_return_def)
next
  case (Cons x xs)
  obtain mt1 where "addLeafHash (sha ([LeafHashPrefix] @ x)) mt = (Ok (Suc (length hs), sha ([LeafHashPrefix] @ x)), mt1)"
    and ok: "mt_ok (New sha) (hs @ [sha ([LeafHashPrefix] @ x)]) mt1"
    using addLeafHash_run [OF Cons.prems] by metis
  then have "add_leaves (New sha) (x # xs) mt = add_leaves (New sha) xs mt1"
    by (simp add: add_leaves_def ignore_def AddLeaf_def New_def act_bind_def act_lift_def)
  with Cons.IH [OF ok] show ?case by simp
qed

lemma Root_run:
  "Root (New sha) leaves =
     (let r = tree_hash (New sha) (map (\<lambda>x. sha ([LeafHashPrefix] @ x)) leaves) in
      if length r \<noteq> 32 then Panic (Errorf ''merkleRoot: merkle root hash not the same length as a crypto.Digest'')
      else Ok (bytes_array r))"
proof -
  let ?hs = "map (\<lambda>x. sha ([LeafHashPrefix] @ x)) leaves"
  obtain mt where add: "add_leaves (New sha) leaves NewInMemoryMerkleTree = (Ok (), mt)"
    and ok: "mt_ok (New sha) ?hs mt"
    using add_leaves_run [OF mt_ok_new, of sha leaves] by auto
  obtain mt' where "CurrentRoot (New sha) mt = (Ok (tree_hash (New sha) ?hs), mt')"
    using RootAtSnapshot_run [OF ok, of "length leaves"] LeafCount_run [OF ok]
    by (auto simp: CurrentRoot_def act_bind_def)
  with add show ?thesis
    by (simp add: Root_def act_bind_def Let_def act_panic_def act_return_def)
qed

end
