(* ===== verification/Bookkeeping.thy ===== *)
theory Bookkeeping
  imports SignedTxns Merkle_Laws
begin

text \<open>
  Blocks (\<open>data/bookkeeping/block.go\<close>) and the commitments to their transactions
  (\<open>data/transactions/aggregates.go\<close>): the rewards schedule, the protocol upgrade state
  machine, making and checking headers, and the encoding of transactions in a block.

  The hashes of encoded objects are parameters, collected in the record \<open>Hashes\<close>.
\<close>

section \<open>Data\<close>

record RewardsState =
  FeeSink :: Address
  RewardsPool :: Address
  RewardsLevel :: u64
  RewardsRate :: u64
  RewardsResidue :: u64
  RewardsRecalculationRound :: Round

record UpgradeVote =
  UpgradePropose :: ConsensusVersion
  UpgradeApprove :: bool

record UpgradeState =
  CurrentProtocol :: ConsensusVersion
  NextProtocol :: ConsensusVersion
  NextProtocolApprovals :: u64
  NextProtocolVoteBefore :: Round
  NextProtocolSwitchOn :: Round

record BlockHeader =
  bhRound :: Round
  Branch :: Digest
  Seed :: bytes32
  TxnRoot :: Digest
  TimeStamp :: i64
  bhGenesisID :: string
  bhGenesisHash :: Digest
  bhRewards :: RewardsState
  bhUpgradeState :: UpgradeState
  bhUpgradeVote :: UpgradeVote
  TxnCounter :: u64

record Block =
  blkHeader :: BlockHeader
  blkPayset :: Payset
  blkPayProxySet :: PayProxySet

record TxGroup =
  TxGroupHashes :: "Digest list"

definition RewardsState_zero :: RewardsState where
  "RewardsState_zero = \<lparr>FeeSink = 0, RewardsPool = 0, RewardsLevel = 0, RewardsRate = 0,
     RewardsResidue = 0, RewardsRecalculationRound = 0\<rparr>"

definition UpgradeVote_zero :: UpgradeVote where
  "UpgradeVote_zero = \<lparr>UpgradePropose = [], UpgradeApprove = False\<rparr>"

definition UpgradeState_zero :: UpgradeState where
  "UpgradeState_zero = \<lparr>CurrentProtocol = [], NextProtocol = [], NextProtocolApprovals = 0,
     NextProtocolVoteBefore = 0, NextProtocolSwitchOn = 0\<rparr>"

definition BlockHeader_zero :: BlockHeader where
  "BlockHeader_zero = \<lparr>bhRound = 0, Branch = 0, Seed = 0, TxnRoot = 0, TimeStamp = 0,
     bhGenesisID = [], bhGenesisHash = 0, bhRewards = RewardsState_zero,
     bhUpgradeState = UpgradeState_zero, bhUpgradeVote = UpgradeVote_zero, TxnCounter = 0\<rparr>"

record Hashes =
  txnHash :: txn_hash
  hdrHash :: "BlockHeader \<Rightarrow> Digest"
  paysetHash :: "Payset \<Rightarrow> Digest"
  proxySetHash :: "PayProxySet \<Rightarrow> Digest"
  groupHash :: "TxGroup \<Rightarrow> Digest"
  bytesHash :: hash_fun
  sha256 :: "byte list \<Rightarrow> byte list"

section \<open>Commitments\<close>

definition Payset_Commit :: "Hashes \<Rightarrow> Payset \<Rightarrow> bool \<Rightarrow> (goerror, Digest) result" where
  "Payset_Commit Hs payset flat =
     (if flat then Ok (paysetHash Hs payset)
      else Root (New (sha256 Hs))
        (map (\<lambda>txib. array_bytes (SignedTxn_ID (txnHash Hs) (adSignedTxn (ibTxn txib)))) payset))"

definition PayProxySet_Commit :: "Hashes \<Rightarrow> PayProxySet \<Rightarrow> bool \<Rightarrow> (goerror, Digest) result" where
  "PayProxySet_Commit Hs payProxySet flat =
     (if flat then Ok (proxySetHash Hs payProxySet)
      else Root (New (sha256 Hs))
        (map (\<lambda>txib. array_bytes (ComputeID (bytesHash Hs) (sibTx txib))) payProxySet))"

section \<open>Accessors\<close>

definition Block_Digest :: "Hashes \<Rightarrow> Block \<Rightarrow> Digest" where
  "Block_Digest Hs block = hdrHash Hs (blkHeader block)"

definition Block_Round :: "Block \<Rightarrow> Round" where
  "Block_Round block = bhRound (blkHeader block)"

definition ConsensusProtocol :: "Block \<Rightarrow> ConsensusParams" where
  "ConsensusProtocol block = Consensus_or_zero (CurrentProtocol (bhUpgradeState (blkHeader block)))"

definition WithSeed :: "Block \<Rightarrow> bytes32 \<Rightarrow> Block" where
  "WithSeed block s = block\<lparr>blkHeader := (blkHeader block)\<lparr>Seed := s\<rparr>\<rparr>"

text \<open>A block as the context in which a transaction is checked to be alive.\<close>

definition block_context :: "Block \<Rightarrow> TxnContext" where
  "block_context block =
     \<lparr>ctxRound = Block_Round block, ctxProto = ConsensusProtocol block,
      ctxGenesisID = bhGenesisID (blkHeader block), ctxGenesisHash = bhGenesisHash (blkHeader block)\<rparr>"

section \<open>Rewards\<close>

text \<open>A division by zero panics.\<close>

definition next_rate ::
    "RewardsState \<Rightarrow> Round \<Rightarrow> ConsensusParams \<Rightarrow> MicroAlgos \<Rightarrow> (goerror, RewardsState) result" where
  "next_rate s nextRound nextProto incentivePoolBalance =
     (if nextRound = RewardsRecalculationRound s then
        let maxSpentOver =
              (if PendingResidueRewards nextProto then
                 (let (sum, overflowed) = OAdd (MinBalance nextProto) (RewardsResidue s) in
                  if overflowed then incentivePoolBalance else sum)
               else MinBalance nextProto);
            (newRate, overflowed) = OSub incentivePoolBalance maxSpentOver;
            newRate = (if overflowed then 0 else newRate) in
        if RewardsRateRefreshInterval nextProto = 0 then Panic (Errorf ''integer divide by zero'')
        else Ok (s\<lparr>RewardsRate := newRate div RewardsRateRefreshInterval nextProto,
                   RewardsRecalculationRound := nextRound + RewardsRateRefreshInterval nextProto\<rparr>)
      else Ok s)"

definition next_level :: "RewardsState \<Rightarrow> u64 \<Rightarrow> RewardsState \<Rightarrow> RewardsState" where
  "next_level s totalRewardUnits res =
     (if totalRewardUnits = 0 then res
      else
        let (rewardsWithResidue, ot) = ot_Add (RewardsRate s) (RewardsResidue s) ot_new;
            (nextRewardLevel, ot) = ot_Add (RewardsLevel s) (rewardsWithResidue div totalRewardUnits) ot;
            nextResidue = rewardsWithResidue mod totalRewardUnits in
        if Overflowed ot then res
        else res\<lparr>RewardsLevel := nextRewardLevel, RewardsResidue := nextResidue\<rparr>)"

definition NextRewardsState ::
    "RewardsState \<Rightarrow> Round \<Rightarrow> ConsensusParams \<Rightarrow> MicroAlgos \<Rightarrow> u64 \<Rightarrow> (goerror, RewardsState) result" where
  "NextRewardsState s nextRound nextProto incentivePoolBalance totalRewardUnits =
     res_bind (next_rate s nextRound nextProto incentivePoolBalance) (\<lambda>res.
     Ok (next_level s totalRewardUnits res))"

section \<open>Protocol upgrades\<close>

definition propose_upgrade ::
    "ConsensusParams \<Rightarrow> Round \<Rightarrow> UpgradeVote \<Rightarrow> UpgradeState \<Rightarrow> (goerror, UpgradeState) result" where
  "propose_upgrade params r vote s =
     (if UpgradePropose vote \<noteq> [] then
        (if NextProtocol s \<noteq> [] then
           Err (Errorf ''computeUpgradeState: new proposal during existing proposal'')
         else if int (length (UpgradePropose vote)) > MaxVersionStringLen params then
           Err (Errorf ''proposed protocol version too long'')
         else Ok (s\<lparr>NextProtocol := UpgradePropose vote,
                    NextProtocolApprovals := 0,
                    NextProtocolVoteBefore := r + UpgradeVoteRounds params,
                    NextProtocolSwitchOn := r + UpgradeVoteRounds params + UpgradeWaitRounds params\<rparr>))
      else Ok s)"

definition approve_upgrade ::
    "Round \<Rightarrow> UpgradeVote \<Rightarrow> UpgradeState \<Rightarrow> (goerror, UpgradeState) result" where
  "approve_upgrade r vote s =
     (if UpgradeApprove vote then
        (if NextProtocol s = [] then Err (Errorf ''computeUpgradeState: approval without an active proposal'')
         else if r \<ge> NextProtocolVoteBefore s then Err (Errorf ''computeUpgradeState: approval after vote deadline'')
         else Ok (s\<lparr>NextProtocolApprovals := NextProtocolApprovals s + 1\<rparr>))
      else Ok s)"

definition clear_proposal :: "UpgradeState \<Rightarrow> UpgradeState" where
  "clear_proposal s = s\<lparr>NextProtocol := [], NextProtocolApprovals := 0,
     NextProtocolVoteBefore := 0, NextProtocolSwitchOn := 0\<rparr>"

definition applyUpgradeVote ::
    "UpgradeState \<Rightarrow> Round \<Rightarrow> UpgradeVote \<Rightarrow> (goerror, UpgradeState) result" where
  "applyUpgradeVote s r vote =
     (case Consensus (CurrentProtocol s) of
        None \<Rightarrow> Err (Errorf ''computeUpgradeState: unsupported protocol'')
      | Some params \<Rightarrow>
          res_bind (propose_upgrade params r vote s) (\<lambda>s.
          res_bind (approve_upgrade r vote s) (\<lambda>s.
          let s = (if r = NextProtocolVoteBefore s \<and> NextProtocolApprovals s < UpgradeThreshold params
                   then clear_proposal s else s);
              s = (if r = NextProtocolSwitchOn s
                   then clear_proposal (s\<lparr>CurrentProtocol := NextProtocol s\<rparr>) else s) in
          Ok s)))"

section \<open>Headers\<close>

definition clamp_timestamp :: "i64 \<Rightarrow> i64 \<Rightarrow> i64 \<Rightarrow> i64" where
  "clamp_timestamp now prev incr =
     (if 0 <s prev then
        (if now <s prev then prev
         else if prev + incr <s now then prev + incr
         else now)
      else now)"

definition make_vote :: "ConsensusParams \<Rightarrow> Round \<Rightarrow> BlockHeader \<Rightarrow> UpgradeVote" where
  "make_vote prevParams rnd prev =
     (let us = bhUpgradeState prev;
          vote = UpgradeVote_zero;
          vote = (if NextProtocol us = [] then
                    (case filter snd (ApprovedUpgrades prevParams) of
                       [] \<Rightarrow> vote
                     | (k, _) # _ \<Rightarrow> vote\<lparr>UpgradePropose := k, UpgradeApprove := True\<rparr>)
                  else vote) in
      if rnd < NextProtocolVoteBefore us \<and> map_of (ApprovedUpgrades prevParams) (NextProtocol us) = Some True
      then vote\<lparr>UpgradeApprove := True\<rparr> else vote)"

definition MakeBlock :: "Hashes \<Rightarrow> i64 \<Rightarrow> BlockHeader \<Rightarrow> (goerror, Block) result" where
  "MakeBlock Hs now prev =
     (let rnd = bhRound prev + 1 in
      case Consensus (CurrentProtocol (bhUpgradeState prev)) of
        None \<Rightarrow> Panic (Errorf ''MakeBlock: previous protocol not supported'')
      | Some prevParams \<Rightarrow>
          let upgradeVote = make_vote prevParams rnd prev in
          case applyUpgradeVote (bhUpgradeState prev) rnd upgradeVote of
            Err e \<Rightarrow> Panic (Errorf ''MakeBlock: constructed invalid upgrade vote'')
          | Panic e \<Rightarrow> Panic e
          | Ok upgradeState \<Rightarrow>
              case Consensus (CurrentProtocol upgradeState) of
                None \<Rightarrow> Panic (Errorf ''MakeBlock: next protocol not supported'')
              | Some params \<Rightarrow>
                  res_bind (Payset_Commit Hs [] (PaysetCommitFlat params)) (\<lambda>txnRoot.
                  Ok \<lparr>blkHeader = BlockHeader_zero\<lparr>
                        bhRound := rnd, Branch := hdrHash Hs prev, TxnRoot := txnRoot,
                        bhUpgradeVote := upgradeVote, bhUpgradeState := upgradeState,
                        TimeStamp := clamp_timestamp now (TimeStamp prev) (MaxTimestampIncrement params),
                        bhGenesisID := bhGenesisID prev, bhGenesisHash := bhGenesisHash prev\<rparr>,
                      blkPayset = [], blkPayProxySet = []\<rparr>))"

definition check_timestamp :: "ConsensusParams \<Rightarrow> BlockHeader \<Rightarrow> BlockHeader \<Rightarrow> (goerror, unit) result" where
  "check_timestamp params prev bh =
     (if 0 <s TimeStamp prev then
        (if TimeStamp bh <s TimeStamp prev then Err (Errorf ''bad timestamp: current < previous'')
         else if TimeStamp prev + MaxTimestampIncrement params <s TimeStamp bh then
           Err (Errorf ''bad timestamp: current > previous, max increment'')
         else Ok ())
      else Ok ())"

definition check_genesis :: "ConsensusParams \<Rightarrow> BlockHeader \<Rightarrow> BlockHeader \<Rightarrow> (goerror, unit) result" where
  "check_genesis params prev bh =
     (if bhGenesisID bh = [] then Err (Errorf ''genesis ID missing'')
      else if bhGenesisID prev \<noteq> [] \<and> bhGenesisID prev \<noteq> bhGenesisID bh then
        Err (Errorf ''genesis ID mismatch'')
      else if SupportGenesisHash params then
        (if bhGenesisHash bh = 0 then Err (Errorf ''genesis hash missing'')
         else if bhGenesisHash prev \<noteq> 0 \<and> bhGenesisHash prev \<noteq> bhGenesisHash bh then
           Err (Errorf ''genesis hash mismatch'')
         else Ok ())
      else if bhGenesisHash bh \<noteq> 0 then Err (Errorf ''genesis hash not allowed'')
      else Ok ())"

definition PreCheck :: "Hashes \<Rightarrow> BlockHeader \<Rightarrow> BlockHeader \<Rightarrow> (goerror, unit) result" where
  "PreCheck Hs bh prev =
     (case Consensus (CurrentProtocol (bhUpgradeState bh)) of
        None \<Rightarrow> Err (Errorf ''BlockHeader.PreCheck: protocol not supported'')
      | Some params \<Rightarrow>
          let rnd = bhRound prev + 1 in
          if rnd \<noteq> bhRound bh then Err (Errorf ''block round incorrect'')
          else if Branch bh \<noteq> hdrHash Hs prev then Err (Errorf ''block branch incorrect'')
          else
            res_bind (applyUpgradeVote (bhUpgradeState prev) rnd (bhUpgradeVote bh)) (\<lambda>nextUpgradeState.
            if nextUpgradeState \<noteq> bhUpgradeState bh then Err (Errorf ''UpgradeState mismatch'')
            else
              res_bind (check_timestamp params prev bh) (\<lambda>_.
              check_genesis params prev bh)))"

definition ContentsMatchHeader :: "Hashes \<Rightarrow> Block \<Rightarrow> (goerror, bool) result" where
  "ContentsMatchHeader Hs block =
     (let proto = Consensus_or_zero (CurrentProtocol (bhUpgradeState (blkHeader block))) in
      res_bind (Payset_Commit Hs (blkPayset block) (PaysetCommitFlat proto)) (\<lambda>d.
      Ok (d = TxnRoot (blkHeader block))))"

definition NextVersionInfo :: "BlockHeader \<Rightarrow> ConsensusVersion \<times> Round \<times> bool" where
  "NextVersionInfo bh =
     (let us = bhUpgradeState bh;
          (ver, rnd) =
            (if bhRound bh \<ge> NextProtocolVoteBefore us \<and> bhRound bh < NextProtocolSwitchOn us
             then (NextProtocol us, NextProtocolSwitchOn us)
             else (CurrentProtocol us, bhRound bh + 1)) in
      (ver, rnd, Consensus ver \<noteq> None))"

section \<open>Transactions in a block\<close>

definition set_genesis :: "string \<Rightarrow> Digest \<Rightarrow> SignedTxn \<Rightarrow> SignedTxn" where
  "set_genesis gid gh st = st\<lparr>Txn := (Txn st)\<lparr>txHeader := (txHeader (Txn st))\<lparr>
     txGenesisID := gid, txGenesisHash := gh\<rparr>\<rparr>\<rparr>"

definition DecodeSignedTxn ::
    "BlockHeader \<Rightarrow> SignedTxnInBlock \<Rightarrow> (goerror, SignedTxn \<times> ApplyData) result" where
  "DecodeSignedTxn bh stb =
     (let st = adSignedTxn (ibTxn stb); ad = adApplyData (ibTxn stb);
          proto = Consensus_or_zero (CurrentProtocol (bhUpgradeState bh));
          h = txHeader (Txn st) in
      if \<not> SupportSignedTxnInBlock proto then Ok (st, ApplyData_zero)
      else if txGenesisID h \<noteq> [] then Err (Errorf ''GenesisID not empty'')
      else if txGenesisHash h \<noteq> 0 then Err (Errorf ''GenesisHash not empty'')
      else if RequireGenesisHash proto \<and> HasGenesisHash stb then
        Err (Errorf ''HasGenesisHash set to true but RequireGenesisHash obviates the flag'')
      else
        let gid = (if HasGenesisID stb then bhGenesisID bh else txGenesisID h);
            gh = (if RequireGenesisHash proto \<or> HasGenesisHash stb then bhGenesisHash bh else txGenesisHash h) in
        Ok (SignedTxn_ResetCaches (set_genesis gid gh st), ad))"

definition EncodeSignedTxn ::
    "BlockHeader \<Rightarrow> SignedTxn \<Rightarrow> ApplyData \<Rightarrow> (goerror, SignedTxnInBlock) result" where
  "EncodeSignedTxn bh st ad =
     (let proto = Consensus_or_zero (CurrentProtocol (bhUpgradeState bh));
          h = txHeader (Txn st) in
      if \<not> SupportSignedTxnInBlock proto then
        Ok (SignedTxnInBlock_zero\<lparr>ibTxn := \<lparr>adSignedTxn = st, adApplyData = ApplyData_zero\<rparr>\<rparr>)
      else if txGenesisID h \<noteq> [] \<and> txGenesisID h \<noteq> bhGenesisID bh then Err (Errorf ''GenesisID mismatch'')
      else if txGenesisHash h \<noteq> 0 \<and> txGenesisHash h \<noteq> bhGenesisHash bh then
        Err (Errorf ''GenesisHash mismatch'')
      else if txGenesisHash h = 0 \<and> RequireGenesisHash proto then
        Err (Errorf ''GenesisHash required but missing'')
      else
        Ok \<lparr>ibTxn = \<lparr>adSignedTxn = set_genesis [] 0 st, adApplyData = ad\<rparr>,
            HasGenesisID = (txGenesisID h \<noteq> []),
            HasGenesisHash = (txGenesisHash h \<noteq> 0 \<and> \<not> RequireGenesisHash proto)\<rparr>)"

text \<open>
  Splitting a list into groups: \<open>lastGroup\<close> is the group under construction (empty for \<open>nil\<close>).  An
  element starts a new group unless it carries the non-zero group id of the group's first one.
\<close>

fun split_groups :: "('a \<Rightarrow> Digest) \<Rightarrow> 'a list list \<Rightarrow> 'a list \<Rightarrow> 'a list \<Rightarrow> 'a list list" where
  "split_groups g res lastGroup [] = (if lastGroup \<noteq> [] then res @ [lastGroup] else res)"
| "split_groups g res lastGroup (x # xs) =
     (if lastGroup \<noteq> [] \<and> (g (hd lastGroup) \<noteq> g x \<or> g (hd lastGroup) = 0)
      then split_groups g (res @ [lastGroup]) [x] xs
      else split_groups g res (lastGroup @ [x]) xs)"

definition SignedTxnsToGroups :: "SignedTxn list \<Rightarrow> SignedTxn list list" where
  "SignedTxnsToGroups txns = split_groups (\<lambda>st. Group (txHeader (Txn st))) [] [] txns"

definition SignedTxnGroupsFlatten :: "SignedTxn list list \<Rightarrow> SignedTxn list" where
  "SignedTxnGroupsFlatten txgroups = foldl (\<lambda>res txgroup. res @ txgroup) [] txgroups"

fun decode_all :: "BlockHeader \<Rightarrow> Payset \<Rightarrow> (goerror, SignedTxnWithAD list) result" where
  "decode_all bh [] = Ok []"
| "decode_all bh (txib # rest) =
     res_bind (DecodeSignedTxn bh txib) (\<lambda>(st, ad).
     res_bind (decode_all bh rest) (\<lambda>txs. Ok (\<lparr>adSignedTxn = st, adApplyData = ad\<rparr> # txs)))"

definition DecodePaysetFlat :: "Block \<Rightarrow> (goerror, SignedTxnWithAD list) result" where
  "DecodePaysetFlat block = decode_all (blkHeader block) (blkPayset block)"

definition DecodePaysetGroups :: "Block \<Rightarrow> (goerror, SignedTxnWithAD list list) result" where
  "DecodePaysetGroups block =
     res_bind (decode_all (blkHeader block) (blkPayset block)) (\<lambda>txs.
     Ok (split_groups (\<lambda>t. Group (txHeader (Txn (adSignedTxn t)))) [] [] txs))"


section \<open>Encoding\<close>

lemma set_genesis_restore:
  "txGenesisID (txHeader (Txn st)) = gid \<Longrightarrow> txGenesisHash (txHeader (Txn st)) = gh \<Longrightarrow>
   set_genesis gid gh (set_genesis gid' gh' st) = st"
  by (cases st) (simp add: set_genesis_def)

lemma encode_decode:
  assumes "EncodeSignedTxn bh st ad = Ok stb"
    and "SupportSignedTxnInBlock (Consensus_or_zero (CurrentProtocol (bhUpgradeState bh)))"
  shows "DecodeSignedTxn bh stb = Ok (SignedTxn_ResetCaches st, ad)"
proof -
  let ?p = "Consensus_or_zero (CurrentProtocol (bhUpgradeState bh))" and ?h = "txHeader (Txn st)"
  have ok: "txGenesisID ?h = [] \<or> txGenesisID ?h = bhGenesisID bh"
      "txGenesisHash ?h = 0 \<or> txGenesisHash ?h = bhGenesisHash bh"
      "RequireGenesisHash ?p \<Longrightarrow> txGenesisHash ?h \<noteq> 0" and
    stb: "stb = \<lparr>ibTxn = \<lparr>adSignedTxn = set_genesis [] 0 st, adApplyData = ad\<rparr>,
            HasGenesisID = (txGenesisID ?h \<noteq> []),
            HasGenesisHash = (txGenesisHash ?h \<noteq> 0 \<and> \<not> RequireGenesisHash ?p)\<rparr>"
    using assms by (auto simp: EncodeSignedTxn_def Let_def split: if_splits)
  have gid: "(if txGenesisID ?h \<noteq> [] then bhGenesisID bh else []) = txGenesisID ?h" using ok(1) by auto
  have gh: "(if RequireGenesisHash ?p \<or> txGenesisHash ?h \<noteq> 0 \<and> \<not> RequireGenesisHash ?p
      then bhGenesisHash bh else 0) = txGenesisHash ?h" using ok(2,3) by auto
  have hdr: "txGenesisID (txHeader (Txn (set_genesis [] 0 st))) = []"
      "txGenesisHash (txHeader (Txn (set_genesis [] 0 st))) = 0" by (simp_all add: set_genesis_def)
  show ?thesis
    unfolding DecodeSignedTxn_def Let_def
    by (simp only: stb SignedTxnInBlock.select_convs SignedTxnWithAD.select_convs hdr gid gh
        set_genesis_restore assms(2) simp_thms if_True if_False) simp
qed

section \<open>Groups\<close>

definition well_grouped :: "('a \<Rightarrow> Digest) \<Rightarrow> 'a list \<Rightarrow> bool" where
  "well_grouped g xs \<longleftrightarrow> xs \<noteq> [] \<and> (\<forall>x\<in>set xs. g x = g (hd xs)) \<and> (g (hd xs) = 0 \<longrightarrow> length xs = 1)"

lemma concat_split_groups: "concat (split_groups g res grp xs) = concat res @ grp @ xs"
  by (induction xs arbitrary: res grp) auto

lemma split_groups_well:
  assumes "\<forall>y\<in>set res. well_grouped g y" and "grp = [] \<or> well_grouped g grp"
  shows "\<forall>y\<in>set (split_groups g res grp xs). well_grouped g y"
  using assms
proof (induction xs arbitrary: res grp)
  case (Cons x xs)
  show ?case
  proof (cases "grp \<noteq> [] \<and> (g (hd grp) \<noteq> g x \<or> g (hd grp) = 0)")
    case True
    have "\<forall>y\<in>set (split_groups g (res @ [grp]) [x] xs). well_grouped g y"
      by (rule Cons.IH) (use True Cons.prems in \<open>auto simp: well_grouped_def [of g "[x]"]\<close>)
    with True show ?thesis by simp
  next
    case False
    then have "well_grouped g (grp @ [x])" using Cons.prems(2) by (cases grp) (auto simp: well_grouped_def)
    then have "\<forall>y\<in>set (split_groups g res (grp @ [x]) xs). well_grouped g y"
      by (intro Cons.IH) (use Cons.prems(1) in simp_all)
    moreover have "split_groups g res grp (x # xs) = split_groups g res (grp @ [x]) xs" using False by auto
    ultimately show ?thesis by simp
  qed
qed auto

text \<open>Two neighbouring groups could not have been one.\<close>

fun separated :: "('a \<Rightarrow> Digest) \<Rightarrow> 'a list list \<Rightarrow> bool" where
  "separated g (x # y # rest) \<longleftrightarrow> (g (hd x) \<noteq> g (hd y) \<or> g (hd x) = 0) \<and> separated g (y # rest)"
| "separated g _ \<longleftrightarrow> True"

lemma separated_snoc:
  "separated g (xs @ [y]) \<longleftrightarrow> separated g xs \<and> (xs = [] \<or> g (hd (last xs)) \<noteq> g (hd y) \<or> g (hd (last xs)) = 0)"
  by (induction g xs rule: separated.induct) auto

lemma split_groups_separated:
  assumes "separated g (res @ (if grp = [] then [] else [grp]))" and "grp = [] \<longrightarrow> res = []"
  shows "separated g (split_groups g res grp xs)"
  using assms
proof (induction xs arbitrary: res grp)
  case (Cons x xs)
  show ?case
  proof (cases "grp \<noteq> [] \<and> (g (hd grp) \<noteq> g x \<or> g (hd grp) = 0)")
    case True
    with Cons.prems have "separated g ((res @ [grp]) @ [[x]])" by (subst separated_snoc) auto
    then have "separated g (split_groups g (res @ [grp]) [x] xs)" by (intro Cons.IH) simp_all
    with True show ?thesis by simp
  next
    case False
    have "separated g (res @ [grp @ [x]])"
    proof (cases "grp = []")
      case False
      with Cons.prems(1) show ?thesis by (simp add: separated_snoc)
    qed (use Cons.prems in simp)
    then have "separated g (split_groups g res (grp @ [x]) xs)" by (intro Cons.IH) simp_all
    moreover have "split_groups g res grp (x # xs) = split_groups g res (grp @ [x]) xs" using False by auto
    ultimately show ?thesis by simp
  qed
qed (auto split: if_splits)

text \<open>Conversely, a list of such groups is what the loop makes of their members.\<close>

lemma split_groups_within:
  "well_grouped g (grp @ ys) \<Longrightarrow> grp \<noteq> [] \<Longrightarrow> split_groups g res grp (ys @ xs) = split_groups g res (grp @ ys) xs"
proof (induction ys arbitrary: grp)
  case (Cons y ys)
  have "y \<in> set (grp @ y # ys)" "hd (grp @ y # ys) = hd grp" "length (grp @ y # ys) \<noteq> 1"
    using Cons.prems(2) by auto
  then have "g (hd grp) = g y" "g (hd grp) \<noteq> 0"
    using Cons.prems(1) unfolding well_grouped_def by metis+
  then have "split_groups g res grp ((y # ys) @ xs) = split_groups g res (grp @ [y]) (ys @ xs)"
    by simp
  also have "\<dots> = split_groups g res (grp @ y # ys) xs"
    using Cons.IH [of "grp @ [y]"] Cons.prems by simp
  finally show ?case .
qed simp

lemma split_groups_concat:
  "list_all (well_grouped g) (grp # gs) \<Longrightarrow> separated g (grp # gs) \<Longrightarrow> split_groups g res grp (concat gs) = res @ grp # gs"
proof (induction gs arbitrary: res grp)
  case Nil
  then have "grp \<noteq> []" unfolding well_grouped_def by simp
  then show ?case by simp
next
  case (Cons nxt gs)
  have ne: "grp \<noteq> []" "nxt \<noteq> []" and well: "well_grouped g nxt"
    using Cons.prems(1) unfolding well_grouped_def list.pred_inject by blast+
  then obtain y ys where y: "nxt = y # ys" by (cases nxt) auto
  have "g (hd grp) \<noteq> g y \<or> g (hd grp) = 0"
    using Cons.prems(2) by (simp add: y)
  then have "split_groups g res grp (concat (nxt # gs)) = split_groups g (res @ [grp]) [y] (ys @ concat gs)"
    using ne(1) by (simp add: y)
  also have "\<dots> = split_groups g (res @ [grp]) nxt (concat gs)"
    using split_groups_within [of g "[y]" ys] well by (simp add: y)
  also have "\<dots> = (res @ [grp]) @ nxt # gs"
    using Cons.prems by (intro Cons.IH) (simp_all only: list.pred_inject separated.simps)
  finally show ?case by simp
qed

lemma split_groups_unique:
  assumes "list_all (well_grouped g) gs" and "separated g gs"
  shows "split_groups g [] [] (concat gs) = gs"
proof (cases gs)
  case (Cons grp gs')
  have well: "grp \<noteq> []" "well_grouped g grp"
    using assms(1) unfolding Cons well_grouped_def list.pred_inject by blast+
  then obtain y ys where y: "grp = y # ys" by (cases grp) auto
  have "split_groups g [] [] (concat gs) = split_groups g [] grp (concat gs')"
    using split_groups_within [of g "[y]" ys] well(2) by (simp add: Cons y)
  then show ?thesis
    using split_groups_concat [of g grp gs' "[]"] assms by (simp add: Cons)
qed simp

lemma foldl_append_concat: "foldl (\<lambda>res xs. res @ xs) a xss = a @ concat xss"
  by (induction xss arbitrary: a) auto

section \<open>Rewards\<close>

text \<open>
  The reward level rises by what the rate and the residue give every unit, and what is left
  stays in the residue: nothing is created or lost.
\<close>

lemma next_level_exact:
  assumes "unat (RewardsRate s) + unat (RewardsResidue s) < 2 ^ 64"
    and "unat (RewardsLevel s) + (unat (RewardsRate s) + unat (RewardsResidue s)) div unat units < 2 ^ 64"
    and "units \<noteq> 0"
  shows "unat (RewardsLevel (next_level s units res)) =
      unat (RewardsLevel s) + (unat (RewardsRate s) + unat (RewardsResidue s)) div unat units"
    "unat (RewardsResidue (next_level s units res)) =
      (unat (RewardsRate s) + unat (RewardsResidue s)) mod unat units"
proof -
  define w where "w = RewardsRate s + RewardsResidue s"
  have w: "unat w = unat (RewardsRate s) + unat (RewardsResidue s)"
    using assms(1) by (simp add: w_def unat_word_ariths)
  have ov1: "OAdd (RewardsRate s) (RewardsResidue s) = (w, False)"
    using OAdd_fits [of "RewardsRate s" "RewardsResidue s"] assms(1) by (simp add: OAdd_def w_def Let_def)
  have ov2: "OAdd (RewardsLevel s) (w div units) = (RewardsLevel s + w div units, False)"
    using OAdd_fits [of "RewardsLevel s" "w div units"] assms(2) w by (simp add: OAdd_def Let_def unat_div)
  have res: "next_level s units res = res\<lparr>RewardsLevel := RewardsLevel s + w div units, RewardsResidue := w mod units\<rparr>"
    using assms(3) ov1 ov2 by (simp add: next_level_def Let_def ot_Add_def ot_note_def)
  show "unat (RewardsLevel (next_level s units res)) =
      unat (RewardsLevel s) + (unat (RewardsRate s) + unat (RewardsResidue s)) div unat units"
    using OAdd_nat [OF ov2] w by (simp add: res unat_div)
  show "unat (RewardsResidue (next_level s units res)) =
      (unat (RewardsRate s) + unat (RewardsResidue s)) mod unat units"
    using w by (simp add: res unat_mod)
qed

end
