(* ===== verification/Cow.thy ===== *)
theory Cow
  imports Apply_Laws Bookkeeping
begin

text \<open>
  The copy-on-write view of the ledger that transactions are applied to (\<open>ledger/cow.go\<close>),
  its implementation of \<open>transactions.Balances\<close> (\<open>ledger/eval.go\<close>), and the record of
  created and deleted assets (\<open>getChangedAssetIndices\<close> of \<open>ledger/accountdb.go\<close>).

  The Go interface \<open>roundCowParent\<close> is a record of its methods.  A child holds its parent's
  methods, that is, what the parent shows when the child is made; nothing writes to the parent
  while a child is in use, except \<open>commitToParent\<close>, which takes the parent and returns it
  updated.  The layer is shown to keep the laws of the \<open>balances\<close> interface, so everything
  proved of transactions there holds of the ledger's own view.
\<close>

section \<open>Data\<close>

record txlease =
  sender :: Address
  lease :: bytes32

record accountDelta =
  old :: AccountData
  new :: AccountData

record modifiedAsset =
  created :: bool
  creator :: Address
  ndeltas :: int

record StateDelta =
  accts :: "(Address, accountDelta) fmap"
  Txids :: "(Txid, Round) fmap"
  txleases :: "(txlease, Round) fmap"
  assets :: "(AssetIndex, modifiedAsset) fmap"
  hdr :: BlockHeader

record roundCowParent =
  parent_lookup :: "Address \<Rightarrow> (goerror, AccountData) result"
  parent_isDup :: "Round \<Rightarrow> Round \<Rightarrow> Txid \<Rightarrow> txlease \<Rightarrow> (goerror, bool) result"
  parent_txnCounter :: u64
  parent_getAssetCreator :: "AssetIndex \<Rightarrow> (goerror, Address) result"

record roundCowState =
  lookupParent :: roundCowParent
  cowProto :: ConsensusParams
  mods :: StateDelta

definition StateDelta_empty :: "BlockHeader \<Rightarrow> StateDelta" where
  "StateDelta_empty h =
     \<lparr>accts = fmempty, Txids = fmempty, txleases = fmempty, assets = fmempty, hdr = h\<rparr>"

definition makeRoundCowState :: "roundCowParent \<Rightarrow> BlockHeader \<Rightarrow> roundCowState" where
  "makeRoundCowState b h =
     \<lparr>lookupParent = b, cowProto = Consensus_or_zero (CurrentProtocol (bhUpgradeState h)),
      mods = StateDelta_empty h\<rparr>"

section \<open>Reading\<close>

definition rewardsLevel :: "roundCowState \<Rightarrow> u64" where
  "rewardsLevel cb = RewardsLevel (bhRewards (hdr (mods cb)))"

definition getAssetCreator :: "roundCowState \<Rightarrow> AssetIndex \<Rightarrow> (goerror, Address) result" where
  "getAssetCreator cb aidx =
     (case fmlookup (assets (mods cb)) aidx of
        Some delta \<Rightarrow>
          if created delta then Ok (creator delta) else Err (Errorf ''asset has been deleted'')
      | None \<Rightarrow> parent_getAssetCreator (lookupParent cb) aidx)"

definition cow_lookup :: "roundCowState \<Rightarrow> Address \<Rightarrow> (goerror, AccountData) result" where
  "cow_lookup cb addr =
     (case fmlookup (accts (mods cb)) addr of
        Some d \<Rightarrow> Ok (new d)
      | None \<Rightarrow> parent_lookup (lookupParent cb) addr)"

definition cow_isDup ::
    "roundCowState \<Rightarrow> Round \<Rightarrow> Round \<Rightarrow> Txid \<Rightarrow> txlease \<Rightarrow> (goerror, bool) result" where
  "cow_isDup cb firstValid lastValid txid txl =
     (if fmlookup (Txids (mods cb)) txid \<noteq> None then Ok True
      else if SupportTransactionLeases (cowProto cb) \<and> lease txl \<noteq> 0 \<and>
              (case fmlookup (txleases (mods cb)) txl of
                 Some expires \<Rightarrow> bhRound (hdr (mods cb)) \<le> expires
               | None \<Rightarrow> False) then Ok True
      else parent_isDup (lookupParent cb) firstValid lastValid txid txl)"

definition txnCounter :: "roundCowState \<Rightarrow> u64" where
  "txnCounter cb = parent_txnCounter (lookupParent cb) + of_nat (fcard (fmdom (Txids (mods cb))))"

section \<open>Writing\<close>

text \<open>
  Both loops of \<open>getChangedAssetIndices\<close> write each key at most once, so the order in which
  Go visits a map does not matter.
\<close>

definition fm_of :: "('k, 'v) gomap \<Rightarrow> ('k, 'v) fmap" where
  "fm_of m = (case m of None \<Rightarrow> fmempty | Some f \<Rightarrow> f)"

definition getChangedAssetIndices :: "Address \<Rightarrow> accountDelta \<Rightarrow> (AssetIndex, modifiedAsset) fmap" where
  "getChangedAssetIndices addr delta =
     fmmap (\<lambda>_. \<lparr>created = True, creator = addr, ndeltas = 0\<rparr>)
       (fmfilter (\<lambda>idx. gget (acctAssetParams (old delta)) idx = None) (fm_of (acctAssetParams (new delta))))
     ++\<^sub>f
     fmmap (\<lambda>_. \<lparr>created = False, creator = addr, ndeltas = 0\<rparr>)
       (fmfilter (\<lambda>idx. gget (acctAssetParams (new delta)) idx = None) (fm_of (acctAssetParams (old delta))))"

definition put :: "Address \<Rightarrow> AccountData \<Rightarrow> AccountData \<Rightarrow> roundCowState \<Rightarrow> roundCowState" where
  "put addr oldd newd cb =
     (let m = mods cb;
          delta = (case fmlookup (accts m) addr of
                     Some prev \<Rightarrow> \<lparr>old = old prev, new = newd\<rparr>
                   | None \<Rightarrow> \<lparr>old = oldd, new = newd\<rparr>);
          assetDeltas = getChangedAssetIndices addr \<lparr>old = oldd, new = newd\<rparr> in
      cb\<lparr>mods := m\<lparr>accts := fmupd addr delta (accts m), assets := assets m ++\<^sub>f assetDeltas\<rparr>\<rparr>)"

definition addTx :: "txn_hash \<Rightarrow> Transaction \<Rightarrow> roundCowState \<Rightarrow> roundCowState" where
  "addTx H txn cb =
     (let m = mods cb; h = txHeader txn in
      cb\<lparr>mods := m\<lparr>Txids := fmupd (ID H txn) (LastValid h) (Txids m),
                  txleases := fmupd \<lparr>sender = Sender h, lease = Lease h\<rparr> (LastValid h) (txleases m)\<rparr>\<rparr>)"

definition as_parent :: "roundCowState \<Rightarrow> roundCowParent" where
  "as_parent cb =
     \<lparr>parent_lookup = cow_lookup cb, parent_isDup = cow_isDup cb,
      parent_txnCounter = txnCounter cb, parent_getAssetCreator = getAssetCreator cb\<rparr>"

definition child :: "roundCowState \<Rightarrow> roundCowState" where
  "child cb = \<lparr>lookupParent = as_parent cb, cowProto = cowProto cb,
     mods = StateDelta_empty (hdr (mods cb))\<rparr>"

definition commitToParent :: "roundCowState \<Rightarrow> roundCowState \<Rightarrow> roundCowState" where
  "commitToParent cb commitParent =
     (let m = mods commitParent in
      commitParent\<lparr>mods := m\<lparr>
        accts := accts m ++\<^sub>f
          fmmap_keys (\<lambda>addr delta. case fmlookup (accts m) addr of
              Some prev \<Rightarrow> \<lparr>old = old prev, new = new delta\<rparr>
            | None \<Rightarrow> delta) (accts (mods cb)),
        Txids := Txids m ++\<^sub>f Txids (mods cb),
        txleases := txleases m ++\<^sub>f txleases (mods cb),
        assets := assets m ++\<^sub>f assets (mods cb)\<rparr>\<rparr>)"

text \<open>The keys of the map; Go returns them in any order, here they are ascending.\<close>

definition modifiedAccounts :: "roundCowState \<Rightarrow> Address list" where
  "modifiedAccounts cb = sorted_list_of_fset (fmdom (accts (mods cb)))"

section \<open>The Balances interface\<close>

definition cow_Get :: "Address \<Rightarrow> bool \<Rightarrow> (roundCowState, goerror, BalanceRecord) act" where
  "cow_Get addr withPendingRewards cs =
     (res_bind (cow_lookup cs addr) (\<lambda>acctdata.
      res_bind (if withPendingRewards then WithUpdatedRewards (cowProto cs) (rewardsLevel cs) acctdata
                else Ok acctdata) (\<lambda>acctdata.
      Ok \<lparr>brAddr = addr, brData = acctdata\<rparr>)), cs)"

definition cow_GetAssetCreator :: "AssetIndex \<Rightarrow> (roundCowState, goerror, Address) act" where
  "cow_GetAssetCreator assetIdx cs = (getAssetCreator cs assetIdx, cs)"

definition cow_Put :: "BalanceRecord \<Rightarrow> (roundCowState, goerror, unit) act" where
  "cow_Put record =
     act_bind (\<lambda>cs. (cow_lookup cs (brAddr record), cs)) (\<lambda>olddata.
     act_modify (put (brAddr record) olddata (brData record)))"

text \<open>The reward tracking of one side of a \<open>Move\<close>; \<open>None\<close> is the nil pointer.\<close>

definition track_rewards ::
    "string \<Rightarrow> MicroAlgos option \<Rightarrow> MicroAlgos \<Rightarrow> MicroAlgos \<Rightarrow> (goerror, MicroAlgos option) result" where
  "track_rewards msg rewards newBal bal =
     (case rewards of
        None \<Rightarrow> Ok None
      | Some r \<Rightarrow>
          (let (d, ot1) = ot_SubA newBal bal ot_new;
               (n, ot2) = ot_AddA r d ot1 in
           if Overflowed ot2 then Err (Errorf msg) else Ok (Some n)))"

definition move_from ::
    "Address \<Rightarrow> MicroAlgos \<Rightarrow> MicroAlgos option \<Rightarrow> (roundCowState, goerror, MicroAlgos option) act" where
  "move_from src amt fromRewards =
     act_bind (\<lambda>cs. (cow_lookup cs src, cs)) (\<lambda>fromBal.
     act_bind (\<lambda>cs. (WithUpdatedRewards (cowProto cs) (rewardsLevel cs) fromBal, cs)) (\<lambda>fromBalNew.
     act_bind (act_lift (track_rewards ''overflowed tracking of fromRewards for account'' fromRewards
                           (acctMicroAlgos fromBalNew) (acctMicroAlgos fromBal))) (\<lambda>fr.
     let (algos, overflowed) = OSubA (acctMicroAlgos fromBalNew) amt in
     if overflowed then act_err (Errorf ''overspend'')
     else act_bind (act_modify (put src fromBal (fromBalNew\<lparr>acctMicroAlgos := algos\<rparr>)))
            (\<lambda>_. act_return fr))))"

definition move_to ::
    "Address \<Rightarrow> MicroAlgos \<Rightarrow> MicroAlgos option \<Rightarrow> (roundCowState, goerror, MicroAlgos option) act" where
  "move_to dst amt toRewards =
     act_bind (\<lambda>cs. (cow_lookup cs dst, cs)) (\<lambda>toBal.
     act_bind (\<lambda>cs. (WithUpdatedRewards (cowProto cs) (rewardsLevel cs) toBal, cs)) (\<lambda>toBalNew.
     act_bind (act_lift (track_rewards ''overflowed tracking of toRewards for account'' toRewards
                           (acctMicroAlgos toBalNew) (acctMicroAlgos toBal))) (\<lambda>tr.
     let (algos, overflowed) = OAddA (acctMicroAlgos toBalNew) amt in
     if overflowed then act_err (Errorf ''balance overflow'')
     else act_bind (act_modify (put dst toBal (toBalNew\<lparr>acctMicroAlgos := algos\<rparr>)))
            (\<lambda>_. act_return tr))))"

definition cow_Move ::
    "Address \<Rightarrow> Address \<Rightarrow> MicroAlgos \<Rightarrow> MicroAlgos option \<Rightarrow> MicroAlgos option
     \<Rightarrow> (roundCowState, goerror, MicroAlgos option \<times> MicroAlgos option) act" where
  "cow_Move src dst amt fromRewards toRewards =
     act_bind (move_from src amt fromRewards) (\<lambda>fr.
     act_bind (move_to dst amt toRewards) (\<lambda>tr. act_return (fr, tr)))"

definition cowBalances :: "roundCowState Balances" where
  "cowBalances = \<lparr>Get = cow_Get, GetAssetCreator = cow_GetAssetCreator, Put = cow_Put,
     Move = cow_Move, balConsensusParams = cowProto\<rparr>"

section \<open>What each operation shows afterwards\<close>

text \<open>The accounts a layer shows; an address whose lookup fails counts as an empty account.\<close>

definition acct :: "roundCowState \<Rightarrow> accounts" where
  "acct cb a = (case cow_lookup cb a of Ok d \<Rightarrow> d | _ \<Rightarrow> AccountData_zero)"

lemma fmlookup_fm_of [simp]: "fmlookup (fm_of m) k = gget m k"
  by (simp add: fm_of_def gget_def split: option.splits)

lemma acct_lookup: "cow_lookup cb a = Ok d \<Longrightarrow> acct cb a = d"
  by (simp add: acct_def)

lemma lookup_put [simp]: "cow_lookup (put a o' n cb) b = (if b = a then Ok n else cow_lookup cb b)"
  by (auto simp: put_def cow_lookup_def Let_def split: option.splits)

lemma acct_put [simp]: "acct (put a o' n cb) = (acct cb)(a := n)"
  by (rule ext) (simp add: acct_def)

lemma put_frame [simp]:
  "cowProto (put a o' n cb) = cowProto cb" "rewardsLevel (put a o' n cb) = rewardsLevel cb"
  "lookupParent (put a o' n cb) = lookupParent cb" "hdr (mods (put a o' n cb)) = hdr (mods cb)"
  "Txids (mods (put a o' n cb)) = Txids (mods cb)" "txleases (mods (put a o' n cb)) = txleases (mods cb)"
  by (simp_all add: put_def rewardsLevel_def Let_def)

lemma getAssetCreator_put:
  "getAssetCreator (put a o' n cb) i =
     (if gget (acctAssetParams n) i \<noteq> None \<and> gget (acctAssetParams o') i = None then Ok a
      else if gget (acctAssetParams o') i \<noteq> None \<and> gget (acctAssetParams n) i = None
           then Err (Errorf ''asset has been deleted'')
      else getAssetCreator cb i)"
  by (auto simp: getAssetCreator_def put_def getChangedAssetIndices_def Let_def split: option.splits
      intro!: fmdomI)

lemma cow_PutD: "cow_Put r cs = (Ok u, cs') \<Longrightarrow>
    \<exists>d. cow_lookup cs (brAddr r) = Ok d \<and> cs' = put (brAddr r) d (brData r) cs"
  by (auto simp: cow_Put_def act_simps)

lemma move_fromE:
  assumes "move_from src amt fr cs = (Ok w, cs')"
  obtains d f where "cow_lookup cs src = Ok d" "WithUpdatedRewards (cowProto cs) (rewardsLevel cs) d = Ok f"
    "unat amt \<le> unat (acctMicroAlgos f)"
    "cs' = put src d (f\<lparr>acctMicroAlgos := acctMicroAlgos f - amt\<rparr>) cs"
  using assms OSub_fits
  by (auto simp: move_from_def act_simps OSubA_def OSub_def Let_def sub_wrap_iff not_less)

lemma move_toE:
  assumes "move_to dst amt tr cs = (Ok w, cs')"
  obtains d t where "cow_lookup cs dst = Ok d" "WithUpdatedRewards (cowProto cs) (rewardsLevel cs) d = Ok t"
    "unat (acctMicroAlgos t) + unat amt < 2 ^ 64"
    "cs' = put dst d (t\<lparr>acctMicroAlgos := acctMicroAlgos t + amt\<rparr>) cs"
  using assms
  by (auto simp: move_to_def act_simps OAddA_def OAdd_def Let_def add_wrap_iff not_le)

lemma moveE:
  assumes "cow_Move src dst amt fr tr cs = (Ok w, cs')"
  obtains cs1 w1 w2 where "move_from src amt fr cs = (Ok w1, cs1)" "move_to dst amt tr cs1 = (Ok w2, cs')"
  using assms by (auto simp: cow_Move_def act_simps)

lemma cow_Move_effect:
  assumes "cow_Move src dst amt fr tr cs = (Ok w, cs')"
  shows "move_effect (cowProto cs) (rewardsLevel cs) src dst amt (acct cs) (acct cs')"
proof -
  obtain cs1 w1 w2 where "move_from src amt fr cs = (Ok w1, cs1)" and to: "move_to dst amt tr cs1 = (Ok w2, cs')"
    using assms by (rule moveE)
  then obtain d f where f: "cow_lookup cs src = Ok d"
      "WithUpdatedRewards (cowProto cs) (rewardsLevel cs) d = Ok f" "unat amt \<le> unat (acctMicroAlgos f)"
      and cs1: "cs1 = put src d (f\<lparr>acctMicroAlgos := acctMicroAlgos f - amt\<rparr>) cs"
    by (elim move_fromE)
  from to obtain e t where t: "cow_lookup cs1 dst = Ok e"
      "WithUpdatedRewards (cowProto cs1) (rewardsLevel cs1) e = Ok t" "unat (acctMicroAlgos t) + unat amt < 2 ^ 64"
      and cs': "cs' = put dst e (t\<lparr>acctMicroAlgos := acctMicroAlgos t + amt\<rparr>) cs1"
    by (elim move_toE)
  have "acct cs1 = (acct cs)(src := f\<lparr>acctMicroAlgos := acctMicroAlgos f - amt\<rparr>)"
    by (simp add: cs1)
  then show ?thesis
    using f t acct_lookup [OF f(1)] acct_lookup [OF t(1)] unfolding move_effect_def
    by (intro exI [of _ f] exI [of _ t]) (simp add: cs' cs1 Let_def del: acct_put, simp)
qed

lemma cow_Move_frame:
  assumes "cow_Move src dst amt fr tr cs = (Ok w, cs')"
  shows "cowProto cs' = cowProto cs" "rewardsLevel cs' = rewardsLevel cs"
    "lookupParent cs' = lookupParent cs" "hdr (mods cs') = hdr (mods cs)"
    "Txids (mods cs') = Txids (mods cs)" "txleases (mods cs') = txleases (mods cs)"
  using assms by (auto elim!: moveE move_fromE move_toE)

lemma cow_Move_then_Get:
  assumes "cow_Move src dst amt fr tr cs = (Ok w, cs')" and "a = src \<or> a = dst"
  shows "cow_Get a pend cs' \<noteq> (Err e, cs2)"
proof -
  have "\<exists>d. cow_lookup cs' a = Ok d"
    using assms by (auto elim!: moveE move_fromE move_toE)
  then show ?thesis
    by (auto simp: cow_Get_def res_bind_def WithUpdatedRewards_def RewardUnits_def Let_def
        split: result.splits prod.splits if_splits)
qed

interpretation cow: balances cowBalances acct rewardsLevel
proof
  fix a r s s' i c u src dst amt fr tr w pend e s2
  show "Get cowBalances a False s = (Ok r, s') \<Longrightarrow> s' = s \<and> r = \<lparr>brAddr = a, brData = acct s a\<rparr>"
    by (auto simp: cowBalances_def cow_Get_def act_simps acct_lookup)
  show "Get cowBalances a True s = (Ok r, s') \<Longrightarrow>
      s' = s \<and> brAddr r = a \<and>
      WithUpdatedRewards (balConsensusParams cowBalances s) (rewardsLevel s) (acct s a) = Ok (brData r)"
    by (auto simp: cowBalances_def cow_Get_def act_simps acct_lookup)
  show "GetAssetCreator cowBalances i s = (Ok c, s') \<Longrightarrow> s' = s"
    by (simp add: cowBalances_def cow_GetAssetCreator_def)
  show "Put cowBalances r s = (Ok u, s') \<Longrightarrow> acct s' = (acct s)(brAddr r := brData r)"
    by (auto simp: cowBalances_def dest!: cow_PutD)
  show "Put cowBalances r s = (Ok u, s') \<Longrightarrow>
      balConsensusParams cowBalances s' = balConsensusParams cowBalances s \<and> rewardsLevel s' = rewardsLevel s"
    by (auto simp: cowBalances_def dest!: cow_PutD)
  show "Move cowBalances src dst amt fr tr s = (Ok w, s') \<Longrightarrow>
      move_effect (balConsensusParams cowBalances s) (rewardsLevel s) src dst amt (acct s) (acct s')"
    by (simp add: cowBalances_def cow_Move_effect)
  show "Move cowBalances src dst amt fr tr s = (Ok w, s') \<Longrightarrow>
      balConsensusParams cowBalances s' = balConsensusParams cowBalances s \<and> rewardsLevel s' = rewardsLevel s"
    by (simp add: cowBalances_def cow_Move_frame)
  show "Move cowBalances src dst amt fr tr s = (Ok w, s') \<Longrightarrow> a = src \<or> a = dst \<Longrightarrow>
      Get cowBalances a pend s' \<noteq> (Err e, s2)"
    by (simp add: cowBalances_def cow_Move_then_Get)
qed

section \<open>Children\<close>

text \<open>
  \<open>descends c p\<close>: \<open>c\<close> was made as a child of \<open>p\<close> and has seen only account writes and new
  transactions since.  Every operation of the layer keeps the parent and the header.
\<close>

definition descends :: "roundCowState \<Rightarrow> roundCowState \<Rightarrow> bool" where
  "descends c p \<longleftrightarrow> lookupParent c = as_parent p \<and> cowProto c = cowProto p \<and> hdr (mods c) = hdr (mods p)"

lemma child_descends [simp]: "descends (child p) p"
  by (simp add: descends_def child_def StateDelta_empty_def)

lemma child_sel [simp]:
  "lookupParent (child p) = as_parent p" "cowProto (child p) = cowProto p"
  "mods (child p) = StateDelta_empty (hdr (mods p))"
  by (simp_all add: child_def)

lemma StateDelta_empty_sel [simp]:
  "accts (StateDelta_empty h) = fmempty" "Txids (StateDelta_empty h) = fmempty"
  "txleases (StateDelta_empty h) = fmempty" "assets (StateDelta_empty h) = fmempty"
  "hdr (StateDelta_empty h) = h"
  by (simp_all add: StateDelta_empty_def)

lemma as_parent_sel [simp]:
  "parent_lookup (as_parent p) = cow_lookup p" "parent_isDup (as_parent p) = cow_isDup p"
  "parent_txnCounter (as_parent p) = txnCounter p" "parent_getAssetCreator (as_parent p) = getAssetCreator p"
  by (simp_all add: as_parent_def)

lemma child_shows:
  "cow_lookup (child p) = cow_lookup p" "cow_isDup (child p) = cow_isDup p"
  "txnCounter (child p) = txnCounter p" "getAssetCreator (child p) = getAssetCreator p"
  "acct (child p) = acct p" "rewardsLevel (child p) = rewardsLevel p"
proof -
  show look: "cow_lookup (child p) = cow_lookup p"
    by (rule ext) (simp add: cow_lookup_def [of "child p"])
  show "cow_isDup (child p) = cow_isDup p"
    by (intro ext) (simp add: cow_isDup_def [of "child p"])
  show "txnCounter (child p) = txnCounter p"
    by (simp add: txnCounter_def [of "child p"] fcard.rep_eq)
  show "getAssetCreator (child p) = getAssetCreator p"
    by (rule ext) (simp add: getAssetCreator_def [of "child p"])
  show "acct (child p) = acct p"
    by (rule ext) (simp add: acct_def look)
  show "rewardsLevel (child p) = rewardsLevel p"
    by (simp add: rewardsLevel_def)
qed

lemma commit_shows:
  assumes "descends c p"
  shows "cow_lookup (commitToParent c p) = cow_lookup c"
    and "getAssetCreator (commitToParent c p) = getAssetCreator c"
    and "acct (commitToParent c p) = acct c"
    and "rewardsLevel (commitToParent c p) = rewardsLevel c"
    and "cowProto (commitToParent c p) = cowProto c"
proof -
  from assms have p: "lookupParent c = as_parent p" "cowProto c = cowProto p" "hdr (mods c) = hdr (mods p)"
    by (simp_all add: descends_def)
  show look: "cow_lookup (commitToParent c p) = cow_lookup c"
    by (rule ext) (auto simp: cow_lookup_def p(1) commitToParent_def Let_def
        fmdom_notD split: option.splits dest: fmdomI)
  show "getAssetCreator (commitToParent c p) = getAssetCreator c"
    by (rule ext) (auto simp: getAssetCreator_def p(1) commitToParent_def Let_def
        fmdom_notD split: option.splits dest: fmdomI)
  show "acct (commitToParent c p) = acct c" by (rule ext) (simp add: acct_def look)
  show "rewardsLevel (commitToParent c p) = rewardsLevel c" "cowProto (commitToParent c p) = cowProto c"
    by (simp_all add: rewardsLevel_def commitToParent_def Let_def p)
qed

lemma commit_counter:
  assumes "descends c p" and "fmdom (Txids (mods c)) |\<inter>| fmdom (Txids (mods p)) = {||}"
  shows "txnCounter (commitToParent c p) = txnCounter c"
proof -
  have "fcard (fmdom (Txids (mods p)) |\<union>| fmdom (Txids (mods c))) =
      fcard (fmdom (Txids (mods p))) + fcard (fmdom (Txids (mods c)))"
    using fcard_funion_finter [of "fmdom (Txids (mods p))" "fmdom (Txids (mods c))"] assms(2)
    by (simp add: inf_commute)
  then show ?thesis
    using assms(1) by (simp add: txnCounter_def descends_def commitToParent_def Let_def)
qed

text \<open>
  A lease entry of the child replaces the parent's on commit.  Nothing is forgotten, because the
  entries a child adds are live: a transaction is only added while its round has not passed.
\<close>

definition leases_live :: "roundCowState \<Rightarrow> bool" where
  "leases_live c \<longleftrightarrow> (\<forall>x e. fmlookup (txleases (mods c)) x = Some e \<longrightarrow> bhRound (hdr (mods c)) \<le> e)"

lemma commit_isDup:
  assumes "descends c p" and "leases_live c"
  shows "cow_isDup (commitToParent c p) = cow_isDup c"
proof (intro ext)
  fix f l t x
  have p: "lookupParent c = as_parent p" "cowProto c = cowProto p" "hdr (mods c) = hdr (mods p)"
    using assms(1) by (simp_all add: descends_def)
  have live: "bhRound (hdr (mods p)) \<le> e" if "fmlookup (txleases (mods c)) x = Some e" for e
    using assms(2) that p(3) by (auto simp: leases_live_def)
  show "cow_isDup (commitToParent c p) f l t x = cow_isDup c f l t x"
    unfolding cow_isDup_def [of c] unfolding p as_parent_sel
    by (auto simp: cow_isDup_def commitToParent_def Let_def fmdom_notD live
        split: option.splits dest: fmdomI)
qed

section \<open>The table of asset creators\<close>

text \<open>
  Every creator the table names has the parameters of the asset in its account, so
  \<open>getParams\<close> finds them.
\<close>

definition creators_known :: "roundCowState \<Rightarrow> bool" where
  "creators_known cb \<longleftrightarrow>
     (\<forall>i c. getAssetCreator cb i = Ok c \<longrightarrow> gget (acctAssetParams (acct cb c)) i \<noteq> None)"

lemma creators_known_put:
  assumes "creators_known cb" and "cow_lookup cb a = Ok d"
  shows "creators_known (put a d n cb)"
  using assms acct_lookup [OF assms(2)]
  by (fastforce simp: creators_known_def getAssetCreator_put split: if_splits)

lemma creators_known_Put:
  "cow_Put r cs = (Ok u, cs') \<Longrightarrow> creators_known cs \<Longrightarrow> creators_known cs'"
  by (auto dest!: cow_PutD intro: creators_known_put)

lemma creators_known_Move:
  assumes "cow_Move src dst amt fr tr cs = (Ok w, cs')" and "creators_known cs"
  shows "creators_known cs'"
  using assms by (auto elim!: moveE move_fromE move_toE intro!: creators_known_put)

section \<open>What a transaction leaves alone\<close>

lemma cowBalances_sel [simp]:
  "Get cowBalances = cow_Get" "GetAssetCreator cowBalances = cow_GetAssetCreator"
  "Put cowBalances = cow_Put" "Move cowBalances = cow_Move" "balConsensusParams cowBalances = cowProto"
  by (simp_all add: cowBalances_def)

lemma calls_keep_cow:
  assumes "\<And>cs a d n. P cs \<Longrightarrow> cow_lookup cs a = Ok d \<Longrightarrow> P (put a d n cs)"
  shows "calls_keep cowBalances P"
  using assms unfolding calls_keep_def act_keeps_def cowBalances_sel
  by (auto simp: cow_Get_def cow_GetAssetCreator_def dest!: cow_PutD elim!: moveE move_fromE move_toE)

lemma Apply_frame:
  assumes "Transaction_Apply cowBalances tx spec ctr cs = (Ok ad, cs')"
  shows "lookupParent cs' = lookupParent cs \<and> cowProto cs' = cowProto cs \<and> hdr (mods cs') = hdr (mods cs) \<and>
    Txids (mods cs') = Txids (mods cs) \<and> txleases (mods cs') = txleases (mods cs)"
  by (rule Transaction_Apply_keeps_inv [OF calls_keep_cow assms]) auto

lemma Apply_creators_known:
  assumes "Transaction_Apply cowBalances tx spec ctr cs = (Ok ad, cs')" and "creators_known cs"
  shows "creators_known cs'"
  using assms(2) by (rule Transaction_Apply_keeps_inv [OF calls_keep_cow assms(1), rotated]) (rule creators_known_put)

end
