(* ===== verification/Teal.thy ===== *)
theory Teal
  imports SignedTxns
begin

text \<open>
  The TEAL stack machine (\<open>data/transactions/logic/eval.go\<close>) with the static check that precedes
  it, and the constant blocks they share (\<open>assembler.go\<close>).

  A stack value keeps both fields of the Go struct: it is a byte value exactly when \<open>Bytes\<close> is not
  nil.  The top of the stack is the head of the list.  An opcode that sets \<open>cx.err\<close> returns
  \<open>Err\<close>; an index out of range is a \<open>Panic\<close>, which \<open>Eval\<close> and \<open>Check\<close> recover from and turn
  into an error.  The hash functions and the signature check are a record of parameters.
\<close>

section \<open>Variable-length integers\<close>

text \<open>\<open>binary.Uvarint\<close>: the value and the number of bytes read; 0 when the buffer is too short,
  negative when the value does not fit.\<close>

fun uvarint_from :: "nat \<Rightarrow> u64 \<Rightarrow> nat \<Rightarrow> byte list \<Rightarrow> u64 \<times> int" where
  "uvarint_from i x s [] = (0, 0)"
| "uvarint_from i x s (b # bs) =
     (if b < 0x80 then
        (if i > 9 \<or> i = 9 \<and> b > 1 then (0, - (int i + 1))
         else (or x (push_bit s (ucast b)), int i + 1))
      else uvarint_from (i + 1) (or x (push_bit s (ucast (and b 0x7f)))) (s + 7) bs)"

definition Uvarint :: "byte list \<Rightarrow> u64 \<times> int" where
  "Uvarint buf = uvarint_from 0 0 0 buf"

section \<open>Data\<close>

definition EvalMaxVersion :: u64 where "EvalMaxVersion = 1"
definition EvalMaxArgs :: nat where "EvalMaxArgs = 255"
definition MaxStackDepth :: nat where "MaxStackDepth = 1000"

record stackValue =
  Uint :: u64
  Bytes :: "byte slice"

datatype StackType = StackNone | StackAny | StackUint64 | StackBytes

definition argType :: "stackValue \<Rightarrow> StackType" where
  "argType sv = (if Bytes sv \<noteq> None then StackBytes else StackUint64)"

record EvalParams =
  epTxn :: SignedTxn
  epProto :: "ConsensusParams option"
  epTxnGroup :: "SignedTxnWithAD list"
  epGroupIndex :: int
  epFirstValidTimeStamp :: u64

record evalContext =
  cxParams :: EvalParams
  stack :: "stackValue list"
  program :: "byte list"
  pc :: nat
  nextpc :: nat
  intc :: "u64 list"
  bytec :: "byte list list"
  version :: u64
  scratch :: "stackValue list"
  stepCount :: nat
  cost :: nat
  branchTargets :: "nat list"
  programHash :: Digest

record teal_crypto =
  tcSHA256 :: "byte list \<Rightarrow> byte list"
  tcKeccak256 :: "byte list \<Rightarrow> byte list"
  tcSHA512_256 :: "byte list \<Rightarrow> byte list"
  tcProgramHash :: "byte list \<Rightarrow> Digest"
  tcVerify :: "(Digest \<times> byte list) verifier"
  tcTxnHash :: txn_hash

type_synonym opFunc = "teal_crypto \<Rightarrow> evalContext \<Rightarrow> (goerror, evalContext) result"
type_synonym opCheckFunc = "evalContext \<Rightarrow> (goerror, nat \<times> evalContext) result"

definition stackValue_zero :: stackValue where
  "stackValue_zero = \<lparr>Uint = 0, Bytes = None\<rparr>"

abbreviation uint_value :: "u64 \<Rightarrow> stackValue" where
  "uint_value v \<equiv> stackValue_zero\<lparr>Uint := v\<rparr>"

abbreviation bytes_value :: "byte slice \<Rightarrow> stackValue" where
  "bytes_value v \<equiv> stackValue_zero\<lparr>Bytes := v\<rparr>"

definition errLoopDetected :: goerror where "errLoopDetected = Errorf ''loop detected''"
definition errCostTooHigh :: goerror where "errCostTooHigh = Errorf ''LogicSigMaxCost exceded''"
definition errLogicSignNotSupported :: goerror where
  "errLogicSignNotSupported = Errorf ''LogicSig not supported''"
definition errTooManyArgs :: goerror where "errTooManyArgs = Errorf ''LogicSig has too many arguments''"
definition PanicError :: goerror where "PanicError = Errorf ''panic in TEAL Eval''"
definition out_of_range :: goerror where "out_of_range = Errorf ''index out of range''"

section \<open>Access to the stack and the program\<close>

definition with_top :: "evalContext \<Rightarrow> (stackValue \<Rightarrow> stackValue list \<Rightarrow> (goerror, 'a) result) \<Rightarrow> (goerror, 'a) result" where
  "with_top cx f = (case stack cx of y # r \<Rightarrow> f y r | [] \<Rightarrow> Panic out_of_range)"

definition with_two ::
    "evalContext \<Rightarrow> (stackValue \<Rightarrow> stackValue \<Rightarrow> stackValue list \<Rightarrow> (goerror, 'a) result) \<Rightarrow> (goerror, 'a) result" where
  "with_two cx f = with_top cx (\<lambda>y r. case r of x # r' \<Rightarrow> f x y r' | [] \<Rightarrow> Panic out_of_range)"

definition program_at :: "evalContext \<Rightarrow> nat \<Rightarrow> (goerror, byte) result" where
  "program_at cx i = (if i < length (program cx) then Ok (program cx ! i) else Panic out_of_range)"

definition program_from :: "byte list \<Rightarrow> nat \<Rightarrow> (goerror, byte list) result" where
  "program_from prog i = (if i \<le> length prog then Ok (drop i prog) else Panic out_of_range)"

definition push_value :: "stackValue \<Rightarrow> evalContext \<Rightarrow> evalContext" where
  "push_value sv cx = cx\<lparr>stack := sv # stack cx\<rparr>"

definition truth :: "bool \<Rightarrow> u64" where
  "truth b = (if b then 1 else 0)"

section \<open>Constant blocks\<close>

fun parse_ints :: "nat \<Rightarrow> byte list \<Rightarrow> nat \<Rightarrow> (goerror, u64 list \<times> nat) result" where
  "parse_ints 0 prog pos = Ok ([], pos)"
| "parse_ints (Suc n) prog pos =
     (if pos \<ge> length prog then Err (Errorf ''bytecblock ran past end of program'')
      else let (v, bytesUsed) = Uvarint (drop pos prog) in
        if bytesUsed \<le> 0 then Err (Errorf ''could not decode int const'')
        else res_bind (parse_ints n prog (pos + nat bytesUsed)) (\<lambda>(vs, p). Ok (v # vs, p)))"

definition parseIntcblock :: "byte list \<Rightarrow> nat \<Rightarrow> (goerror, u64 list \<times> nat) result" where
  "parseIntcblock prog pc0 =
     res_bind (program_from prog (pc0 + 1)) (\<lambda>rest.
     let (numInts, bytesUsed) = Uvarint rest in
     if bytesUsed \<le> 0 then Err (Errorf ''could not decode int const block size'')
     else if numInts > of_nat (length prog) then Err (Errorf ''intcblock with too many items'')
     else parse_ints (unat numInts) prog (pc0 + 1 + nat bytesUsed))"

fun check_ints :: "nat \<Rightarrow> byte list \<Rightarrow> nat \<Rightarrow> (goerror, nat) result" where
  "check_ints 0 prog pos = Ok pos"
| "check_ints (Suc n) prog pos =
     (if pos \<ge> length prog then Err (Errorf ''bytecblock ran past end of program'')
      else let (v, bytesUsed) = Uvarint (drop pos prog) in
        if bytesUsed \<le> 0 then Err (Errorf ''could not decode int const'')
        else check_ints n prog (pos + nat bytesUsed))"

definition checkIntConstBlock :: opCheckFunc where
  "checkIntConstBlock cx =
     res_bind (program_from (program cx) (pc cx + 1)) (\<lambda>rest.
     let (numInts, bytesUsed) = Uvarint rest in
     if bytesUsed \<le> 0 then Err (Errorf ''could not decode int const block size'')
     else if numInts > of_nat (length (program cx)) then Err (Errorf ''intcblock with too many items'')
     else res_bind (check_ints (unat numInts) (program cx) (pc cx + 1 + nat bytesUsed))
            (\<lambda>pos. Ok (1, cx\<lparr>nextpc := pos\<rparr>)))"

text \<open>The position after one item of a byte constant block, with the item's length.\<close>

definition item_at :: "byte list \<Rightarrow> nat \<Rightarrow> (goerror, nat \<times> nat) result" where
  "item_at prog pos =
     (if pos \<ge> length prog then Err (Errorf ''bytecblock ran past end of program'')
      else let (itemLen, bytesUsed) = Uvarint (drop pos prog) in
        if bytesUsed \<le> 0 then Err (Errorf ''could not decode []byte const'')
        else let pos = pos + nat bytesUsed; end' = of_nat pos + itemLen in
          if pos \<ge> length prog then Err (Errorf ''bytecblock ran past end of program'')
          else if end' > of_nat (length prog) \<or> end' < of_nat pos then Err (Errorf ''bytecblock ran past end of program'')
          else Ok (pos, unat itemLen))"

fun parse_items :: "nat \<Rightarrow> byte list \<Rightarrow> nat \<Rightarrow> (goerror, byte list list \<times> nat) result" where
  "parse_items 0 prog pos = Ok ([], pos)"
| "parse_items (Suc n) prog pos =
     res_bind (item_at prog pos) (\<lambda>(p, len).
     if p + len > length prog then Panic out_of_range
     else res_bind (parse_items n prog (p + len)) (\<lambda>(vs, q). Ok (take len (drop p prog) # vs, q)))"

definition parseBytecBlock :: "byte list \<Rightarrow> nat \<Rightarrow> (goerror, byte list list \<times> nat) result" where
  "parseBytecBlock prog pc0 =
     res_bind (program_from prog (pc0 + 1)) (\<lambda>rest.
     let (numItems, bytesUsed) = Uvarint rest in
     if bytesUsed \<le> 0 then Err (Errorf ''could not decode []byte const block size'')
     else if numItems > of_nat (length prog) then Err (Errorf ''bytecblock with too many items'')
     else parse_items (unat numItems) prog (pc0 + 1 + nat bytesUsed))"

fun check_items :: "nat \<Rightarrow> byte list \<Rightarrow> nat \<Rightarrow> (goerror, nat) result" where
  "check_items 0 prog pos = Ok pos"
| "check_items (Suc n) prog pos =
     res_bind (item_at prog pos) (\<lambda>(p, len). check_items n prog (p + len))"

definition checkByteConstBlock :: opCheckFunc where
  "checkByteConstBlock cx =
     res_bind (program_from (program cx) (pc cx + 1)) (\<lambda>rest.
     let (numItems, bytesUsed) = Uvarint rest in
     if bytesUsed \<le> 0 then Err (Errorf ''could not decode []byte const block size'')
     else if numItems > of_nat (length (program cx)) then Err (Errorf ''bytecblock with too many items'')
     else res_bind (check_items (unat numItems) (program cx) (pc cx + 1 + nat bytesUsed))
            (\<lambda>pos. Ok (1, cx\<lparr>nextpc := pos\<rparr>)))"

section \<open>Opcodes\<close>

definition opErr :: opFunc where
  "opErr tc cx = Err (Errorf ''error'')"

definition opHash :: "(byte list \<Rightarrow> byte list) \<Rightarrow> evalContext \<Rightarrow> (goerror, evalContext) result" where
  "opHash h cx = with_top cx (\<lambda>y r. Ok (cx\<lparr>stack := y\<lparr>Bytes := Some (h (elems (Bytes y)))\<rparr> # r\<rparr>))"

definition opSHA256 :: opFunc where "opSHA256 tc = opHash (tcSHA256 tc)"
definition opKeccak256 :: opFunc where "opKeccak256 tc = opHash (tcKeccak256 tc)"
definition opSHA512_256 :: opFunc where "opSHA512_256 tc = opHash (tcSHA512_256 tc)"

definition opPlus :: opFunc where
  "opPlus tc cx = with_two cx (\<lambda>x y r.
     let v = Uint x + Uint y in
     if v < Uint y then Err (Errorf ''+ overflowed'') else Ok (cx\<lparr>stack := x\<lparr>Uint := v\<rparr> # r\<rparr>))"

definition opMinus :: opFunc where
  "opMinus tc cx = with_two cx (\<lambda>x y r.
     if Uint y > Uint x then Err (Errorf ''- would result negative'')
     else Ok (cx\<lparr>stack := x\<lparr>Uint := Uint x - Uint y\<rparr> # r\<rparr>))"

definition opDiv :: opFunc where
  "opDiv tc cx = with_two cx (\<lambda>x y r.
     if Uint y = 0 then Err (Errorf ''/ 0'') else Ok (cx\<lparr>stack := x\<lparr>Uint := Uint x div Uint y\<rparr> # r\<rparr>))"

definition opModulo :: opFunc where
  "opModulo tc cx = with_two cx (\<lambda>x y r.
     if Uint y = 0 then Err (Errorf ''% 0'') else Ok (cx\<lparr>stack := x\<lparr>Uint := Uint x mod Uint y\<rparr> # r\<rparr>))"

definition opMul :: opFunc where
  "opMul tc cx = with_two cx (\<lambda>x y r.
     let a = Uint x; b = Uint y; v = a * b in
     if a \<noteq> 0 \<and> b \<noteq> 0 \<and> v div a \<noteq> b then Err (Errorf ''* overflowed'')
     else Ok (cx\<lparr>stack := x\<lparr>Uint := v\<rparr> # r\<rparr>))"

definition opMulwImpl :: "u64 \<Rightarrow> u64 \<Rightarrow> (goerror, u64 \<times> u64) result" where
  "opMulwImpl x y =
     (let v = uint x * uint y; low = and v (2 ^ 64 - 1); high = drop_bit 64 v in
      if \<not> (0 \<le> low \<and> low < 2 ^ 64) \<or> \<not> (0 \<le> high \<and> high < 2 ^ 64) then Err (Errorf ''mulw overflowed'')
      else Ok (word_of_int high, word_of_int low))"

definition opMulw :: opFunc where
  "opMulw tc cx = with_two cx (\<lambda>x y r.
     res_bind (opMulwImpl (Uint x) (Uint y)) (\<lambda>(high, low).
     Ok (cx\<lparr>stack := y\<lparr>Uint := low\<rparr> # x\<lparr>Uint := high\<rparr> # r\<rparr>)))"

definition opCond :: "(u64 \<Rightarrow> u64 \<Rightarrow> bool) \<Rightarrow> evalContext \<Rightarrow> (goerror, evalContext) result" where
  "opCond c cx = with_two cx (\<lambda>x y r. Ok (cx\<lparr>stack := x\<lparr>Uint := truth (c (Uint x) (Uint y))\<rparr> # r\<rparr>))"

definition opLt :: opFunc where "opLt tc = opCond (<)"
definition opGt :: opFunc where "opGt tc = opCond (>)"
definition opLe :: opFunc where "opLe tc = opCond (\<le>)"
definition opGe :: opFunc where "opGe tc = opCond (\<ge>)"
definition opAnd :: opFunc where "opAnd tc = opCond (\<lambda>x y. x \<noteq> 0 \<and> y \<noteq> 0)"
definition opOr :: opFunc where "opOr tc = opCond (\<lambda>x y. x \<noteq> 0 \<or> y \<noteq> 0)"

definition same_value :: "stackValue \<Rightarrow> stackValue \<Rightarrow> bool" where
  "same_value x y =
     (if argType x = StackBytes then elems (Bytes x) = elems (Bytes y) else Uint x = Uint y)"

definition opEq :: opFunc where
  "opEq tc cx = with_two cx (\<lambda>x y r.
     if argType x \<noteq> argType y then Err (Errorf ''cannot compare'')
     else Ok (cx\<lparr>stack := x\<lparr>Uint := truth (same_value x y), Bytes := None\<rparr> # r\<rparr>))"

definition opNeq :: opFunc where
  "opNeq tc cx = with_two cx (\<lambda>x y r.
     if argType x \<noteq> argType y then Err (Errorf ''cannot compare'')
     else Ok (cx\<lparr>stack := x\<lparr>Uint := truth (\<not> same_value x y),
                              Bytes := (if argType x = StackBytes then None else Bytes x)\<rparr> # r\<rparr>))"

definition opNot :: opFunc where
  "opNot tc cx = with_top cx (\<lambda>y r. Ok (cx\<lparr>stack := y\<lparr>Uint := truth (Uint y = 0)\<rparr> # r\<rparr>))"

definition opLen :: opFunc where
  "opLen tc cx = with_top cx (\<lambda>y r.
     Ok (cx\<lparr>stack := y\<lparr>Uint := of_nat (length (elems (Bytes y))), Bytes := None\<rparr> # r\<rparr>))"

definition PutUint64 :: "u64 \<Rightarrow> byte list" where
  "PutUint64 v = map (\<lambda>i. ucast (drop_bit (8 * (7 - i)) v)) [0..<8]"

definition opItob :: opFunc where
  "opItob tc cx = with_top cx (\<lambda>y r. Ok (cx\<lparr>stack := y\<lparr>Bytes := Some (PutUint64 (Uint y))\<rparr> # r\<rparr>))"

definition btoi_value :: "byte list \<Rightarrow> u64" where
  "btoi_value bs = foldl (\<lambda>value b. or (push_bit 8 value) (and (ucast b) 0xff)) 0 bs"

definition opBtoi :: opFunc where
  "opBtoi tc cx = with_top cx (\<lambda>y r.
     let ibytes = elems (Bytes y) in
     if length ibytes > 8 then Err (Errorf ''btoi arg too long'')
     else Ok (cx\<lparr>stack := y\<lparr>Uint := btoi_value ibytes, Bytes := None\<rparr> # r\<rparr>))"

definition opBits :: "(u64 \<Rightarrow> u64 \<Rightarrow> u64) \<Rightarrow> evalContext \<Rightarrow> (goerror, evalContext) result" where
  "opBits f cx = with_two cx (\<lambda>x y r. Ok (cx\<lparr>stack := x\<lparr>Uint := f (Uint x) (Uint y)\<rparr> # r\<rparr>))"

definition opBitOr :: opFunc where "opBitOr tc = opBits or"
definition opBitAnd :: opFunc where "opBitAnd tc = opBits and"
definition opBitXor :: opFunc where "opBitXor tc = opBits xor"

definition opBitNot :: opFunc where
  "opBitNot tc cx = with_top cx (\<lambda>y r. Ok (cx\<lparr>stack := y\<lparr>Uint := xor (Uint y) 0xffffffffffffffff\<rparr> # r\<rparr>))"

definition opIntConstBlock :: opFunc where
  "opIntConstBlock tc cx =
     res_bind (parseIntcblock (program cx) (pc cx)) (\<lambda>(vs, p). Ok (cx\<lparr>intc := vs, nextpc := p\<rparr>))"

definition opIntConstN :: "nat \<Rightarrow> evalContext \<Rightarrow> (goerror, evalContext) result" where
  "opIntConstN n cx =
     (if n \<ge> length (intc cx) then Err (Errorf ''intc beyond constants'')
      else Ok (push_value (uint_value (intc cx ! n)) cx))"

definition opIntConstLoad :: opFunc where
  "opIntConstLoad tc cx =
     res_bind (program_at cx (pc cx + 1)) (\<lambda>n.
     res_bind (opIntConstN (unat n) cx) (\<lambda>cx'. Ok (cx'\<lparr>nextpc := pc cx' + 2\<rparr>)))"

definition opIntConst0 :: opFunc where "opIntConst0 tc = opIntConstN 0"
definition opIntConst1 :: opFunc where "opIntConst1 tc = opIntConstN 1"
definition opIntConst2 :: opFunc where "opIntConst2 tc = opIntConstN 2"
definition opIntConst3 :: opFunc where "opIntConst3 tc = opIntConstN 3"

definition opByteConstBlock :: opFunc where
  "opByteConstBlock tc cx =
     res_bind (parseBytecBlock (program cx) (pc cx)) (\<lambda>(vs, p). Ok (cx\<lparr>bytec := vs, nextpc := p\<rparr>))"

definition opByteConstN :: "nat \<Rightarrow> evalContext \<Rightarrow> (goerror, evalContext) result" where
  "opByteConstN n cx =
     (if n \<ge> length (bytec cx) then Err (Errorf ''bytec beyond constants'')
      else Ok (push_value (bytes_value (Some (bytec cx ! n))) cx))"

definition opByteConstLoad :: opFunc where
  "opByteConstLoad tc cx =
     res_bind (program_at cx (pc cx + 1)) (\<lambda>n.
     res_bind (opByteConstN (unat n) cx) (\<lambda>cx'. Ok (cx'\<lparr>nextpc := pc cx' + 2\<rparr>)))"

definition opByteConst0 :: opFunc where "opByteConst0 tc = opByteConstN 0"
definition opByteConst1 :: opFunc where "opByteConst1 tc = opByteConstN 1"
definition opByteConst2 :: opFunc where "opByteConst2 tc = opByteConstN 2"
definition opByteConst3 :: opFunc where "opByteConst3 tc = opByteConstN 3"

definition opArgN :: "nat \<Rightarrow> evalContext \<Rightarrow> (goerror, evalContext) result" where
  "opArgN n cx =
     (let args = lsArgs (stLsig (epTxn (cxParams cx))) in
      if n \<ge> length args then Err (Errorf ''cannot load arg'')
      else Ok (push_value (bytes_value (args ! n)) cx))"

definition opArg :: opFunc where
  "opArg tc cx =
     res_bind (program_at cx (pc cx + 1)) (\<lambda>n.
     res_bind (opArgN (unat n) cx) (\<lambda>cx'. Ok (cx'\<lparr>nextpc := pc cx' + 2\<rparr>)))"

definition opArg0 :: opFunc where "opArg0 tc = opArgN 0"
definition opArg1 :: opFunc where "opArg1 tc = opArgN 1"
definition opArg2 :: opFunc where "opArg2 tc = opArgN 2"
definition opArg3 :: opFunc where "opArg3 tc = opArgN 3"

text \<open>The 16-bit offset of a branch.\<close>

definition branch_offset :: "evalContext \<Rightarrow> (goerror, u64) result" where
  "branch_offset cx =
     res_bind (program_at cx (pc cx + 1)) (\<lambda>hi.
     res_bind (program_at cx (pc cx + 2)) (\<lambda>lo. Ok (or (push_bit 8 (ucast hi)) (ucast lo))))"

definition checkBnz :: opCheckFunc where
  "checkBnz cx =
     res_bind (branch_offset cx) (\<lambda>offset.
     if offset > 0x7fff then Err (Errorf ''bnz offset too large'')
     else let next = pc cx + 3; target = next + unat offset in
       if target \<ge> length (program cx) then Err (Errorf ''bnz target beyond end of program'')
       else Ok (1, cx\<lparr>nextpc := next, branchTargets := sort (branchTargets cx @ [target])\<rparr>))"

definition opBnz :: opFunc where
  "opBnz tc cx = with_top cx (\<lambda>y r.
     let cx = cx\<lparr>nextpc := pc cx + 3, stack := r\<rparr> in
     if Uint y \<noteq> 0 then
       res_bind (branch_offset cx) (\<lambda>offset.
       if offset > 0x7fff then Err (Errorf ''bnz offset too large'')
       else Ok (cx\<lparr>nextpc := nextpc cx + unat offset\<rparr>))
     else Ok cx)"

definition opPop :: opFunc where
  "opPop tc cx = with_top cx (\<lambda>y r. Ok (cx\<lparr>stack := r\<rparr>))"

definition opDup :: opFunc where
  "opDup tc cx = with_top cx (\<lambda>y r. Ok (push_value y cx))"

section \<open>Fields of transactions\<close>

datatype TxnField =
    F_Sender
  | F_Fee
  | F_FirstValid
  | F_FirstValidTime
  | F_LastValid
  | F_Note
  | F_Lease
  | F_Receiver
  | F_Amount
  | F_CloseRemainderTo
  | F_VotePK
  | F_SelectionPK
  | F_VoteFirst
  | F_VoteLast
  | F_VoteKeyDilution
  | F_Type
  | F_TypeEnum
  | F_XferAsset
  | F_AssetAmount
  | F_AssetSender
  | F_AssetReceiver
  | F_AssetCloseTo
  | F_GroupIndex
  | F_TxID

text \<open>The constants of the Go enumeration, by their number.\<close>

definition TxnFields :: "TxnField list" where
  "TxnFields = [F_Sender, F_Fee, F_FirstValid, F_FirstValidTime, F_LastValid, F_Note,
     F_Lease, F_Receiver, F_Amount, F_CloseRemainderTo, F_VotePK, F_SelectionPK,
     F_VoteFirst, F_VoteLast, F_VoteKeyDilution, F_Type, F_TypeEnum, F_XferAsset,
     F_AssetAmount, F_AssetSender, F_AssetReceiver, F_AssetCloseTo, F_GroupIndex, F_TxID]"

definition TxnField_of :: "byte \<Rightarrow> TxnField option" where
  "TxnField_of b = (if unat b < length TxnFields then Some (TxnFields ! unat b) else None)"

datatype GlobalField = G_MinTxnFee | G_MinBalance | G_MaxTxnLife | G_ZeroAddress | G_GroupSize

definition GlobalFields :: "GlobalField list" where
  "GlobalFields = [G_MinTxnFee, G_MinBalance, G_MaxTxnLife, G_ZeroAddress, G_GroupSize]"

definition GlobalField_of :: "byte \<Rightarrow> GlobalField option" where
  "GlobalField_of b = (if unat b < length GlobalFields then Some (GlobalFields ! unat b) else None)"

definition TxType_string :: "TxType \<Rightarrow> string" where
  "TxType_string t =
     (case t of PaymentTx \<Rightarrow> ''pay'' | KeyRegistrationTx \<Rightarrow> ''keyreg'' | AssetConfigTx \<Rightarrow> ''acfg''
      | AssetTransferTx \<Rightarrow> ''axfer'' | AssetFreezeTx \<Rightarrow> ''afrz'' | OtherTx s \<Rightarrow> s)"

definition TxnTypeNames :: "string list" where
  "TxnTypeNames = [''unknown'', ''pay'', ''keyreg'', ''acfg'', ''axfer'', ''afrz'']"

text \<open>A name that is not in the Go map \<open>txnTypeIndexes\<close> yields its zero value.\<close>

definition txnTypeIndexes :: "string \<Rightarrow> nat" where
  "txnTypeIndexes s = (case List.extract (\<lambda>t. t = s) TxnTypeNames of None \<Rightarrow> 0 | Some (pre, _, _) \<Rightarrow> length pre)"

definition txnFieldToStack :: "teal_crypto \<Rightarrow> evalContext \<Rightarrow> Transaction \<Rightarrow> byte \<Rightarrow> (goerror, stackValue) result" where
  "txnFieldToStack tc cx txn field =
     (let h = txHeader txn; arr = (\<lambda>w. bytes_value (Some (array_bytes w))) in
      case TxnField_of field of
        None \<Rightarrow> Err (Errorf ''invalid txn field'')
      | Some f \<Rightarrow> Ok (case f of
          F_Sender \<Rightarrow> arr (Sender h)
        | F_Fee \<Rightarrow> uint_value (Fee h)
        | F_FirstValid \<Rightarrow> uint_value (FirstValid h)
        | F_FirstValidTime \<Rightarrow> uint_value (epFirstValidTimeStamp (cxParams cx))
        | F_LastValid \<Rightarrow> uint_value (LastValid h)
        | F_Note \<Rightarrow> bytes_value (Note h)
        | F_Lease \<Rightarrow> arr (Lease h)
        | F_Receiver \<Rightarrow> arr (Receiver (txPayment txn))
        | F_Amount \<Rightarrow> uint_value (Amount (txPayment txn))
        | F_CloseRemainderTo \<Rightarrow> arr (CloseRemainderTo (txPayment txn))
        | F_VotePK \<Rightarrow> arr (VotePK (txKeyreg txn))
        | F_SelectionPK \<Rightarrow> arr (SelectionPK (txKeyreg txn))
        | F_VoteFirst \<Rightarrow> uint_value (VoteFirst (txKeyreg txn))
        | F_VoteLast \<Rightarrow> uint_value (VoteLast (txKeyreg txn))
        | F_VoteKeyDilution \<Rightarrow> uint_value (krVoteKeyDilution (txKeyreg txn))
        | F_Type \<Rightarrow> bytes_value (Some (string_bytes (TxType_string (txType txn))))
        | F_TypeEnum \<Rightarrow> uint_value (of_nat (txnTypeIndexes (TxType_string (txType txn))))
        | F_XferAsset \<Rightarrow> uint_value (XferAsset (txAssetTransfer txn))
        | F_AssetAmount \<Rightarrow> uint_value (AssetAmount (txAssetTransfer txn))
        | F_AssetSender \<Rightarrow> arr (AssetSender (txAssetTransfer txn))
        | F_AssetReceiver \<Rightarrow> arr (AssetReceiver (txAssetTransfer txn))
        | F_AssetCloseTo \<Rightarrow> arr (AssetCloseTo (txAssetTransfer txn))
        | F_GroupIndex \<Rightarrow> uint_value (word_of_int (epGroupIndex (cxParams cx)))
        | F_TxID \<Rightarrow> arr (ID (tcTxnHash tc) txn)))"

definition opTxn :: opFunc where
  "opTxn tc cx =
     res_bind (program_at cx (pc cx + 1)) (\<lambda>field.
     res_bind (txnFieldToStack tc cx (Txn (epTxn (cxParams cx))) field) (\<lambda>sv.
     Ok ((push_value sv cx)\<lparr>nextpc := pc cx + 2\<rparr>)))"

definition opGtxn :: opFunc where
  "opGtxn tc cx =
     res_bind (program_at cx (pc cx + 1)) (\<lambda>gtxid.
     let group = epTxnGroup (cxParams cx) in
     if unat gtxid \<ge> length group then Err (Errorf ''gtxn lookup beyond TxnGroup'')
     else
       res_bind (program_at cx (pc cx + 2)) (\<lambda>field.
       res_bind (if TxnField_of field = Some F_GroupIndex then Ok (uint_value (ucast gtxid))
                 else txnFieldToStack tc cx (Txn (adSignedTxn (group ! unat gtxid))) field) (\<lambda>sv.
       Ok ((push_value sv cx)\<lparr>nextpc := pc cx + 3\<rparr>))))"

text \<open>\<open>Eval\<close> refuses to start without protocol parameters, so they are present here.\<close>

definition cxProto :: "evalContext \<Rightarrow> ConsensusParams" where
  "cxProto cx = (case epProto (cxParams cx) of Some p \<Rightarrow> p | None \<Rightarrow> ConsensusParams_zero)"

definition opGlobal :: opFunc where
  "opGlobal tc cx =
     res_bind (program_at cx (pc cx + 1)) (\<lambda>gindex.
     case GlobalField_of gindex of
       None \<Rightarrow> Err (Errorf ''invalid global'')
     | Some g \<Rightarrow>
         let sv = (case g of
             G_MinTxnFee \<Rightarrow> uint_value (MinTxnFee (cxProto cx))
           | G_MinBalance \<Rightarrow> uint_value (MinBalance (cxProto cx))
           | G_MaxTxnLife \<Rightarrow> uint_value (MaxTxnLife (cxProto cx))
           | G_ZeroAddress \<Rightarrow> bytes_value (Some (array_bytes 0))
           | G_GroupSize \<Rightarrow> uint_value (of_nat (length (epTxnGroup (cxParams cx))))) in
         Ok ((push_value sv cx)\<lparr>nextpc := pc cx + 2\<rparr>))"

text \<open>The bytes of an array, first byte first, as a word.\<close>

definition word_of_bytes :: "byte list \<Rightarrow> 'a :: len word" where
  "word_of_bytes bs = foldl (\<lambda>w b. or (push_bit 8 w) (ucast b)) 0 bs"

definition opEd25519verify :: opFunc where
  "opEd25519verify tc cx = with_two cx (\<lambda>sig pk r.
     case r of
       [] \<Rightarrow> Panic out_of_range
     | data # r' \<Rightarrow>
         if length (elems (Bytes pk)) \<noteq> 32 then Err (Errorf ''invalid public key'')
         else if length (elems (Bytes sig)) \<noteq> 64 then Err (Errorf ''invalid signature'')
         else
           let ok = tcVerify tc (word_of_bytes (elems (Bytes pk)))
                      (programHash cx, elems (Bytes data)) (word_of_bytes (elems (Bytes sig))) in
           Ok (cx\<lparr>stack := data\<lparr>Uint := truth ok, Bytes := None\<rparr> # r'\<rparr>))"

definition opLoad :: opFunc where
  "opLoad tc cx =
     res_bind (program_at cx (pc cx + 1)) (\<lambda>gindex.
     if unat gindex < length (scratch cx)
     then Ok ((push_value (scratch cx ! unat gindex) cx)\<lparr>nextpc := pc cx + 2\<rparr>)
     else Panic out_of_range)"

definition opStore :: opFunc where
  "opStore tc cx =
     res_bind (program_at cx (pc cx + 1)) (\<lambda>gindex.
     with_top cx (\<lambda>y r.
     if unat gindex < length (scratch cx)
     then Ok (cx\<lparr>scratch := (scratch cx)[unat gindex := y], stack := r, nextpc := pc cx + 2\<rparr>)
     else Panic out_of_range))"

section \<open>The table of operations\<close>

record OpSpec =
  Opcode :: byte
  opName :: string
  op :: opFunc
  opArgs :: "StackType list"
  opReturns :: "StackType list"

definition oneBytes :: "StackType list" where "oneBytes = [StackBytes]"
definition threeBytes :: "StackType list" where "threeBytes = [StackBytes, StackBytes, StackBytes]"
definition oneInt :: "StackType list" where "oneInt = [StackUint64]"
definition twoInts :: "StackType list" where "twoInts = [StackUint64, StackUint64]"
definition oneAny :: "StackType list" where "oneAny = [StackAny]"
definition twoAny :: "StackType list" where "twoAny = [StackAny, StackAny]"

definition opspec :: "byte \<Rightarrow> string \<Rightarrow> opFunc \<Rightarrow> StackType list \<Rightarrow> StackType list \<Rightarrow> OpSpec" where
  "opspec b n f a r = \<lparr>Opcode = b, opName = n, op = f, opArgs = a, opReturns = r\<rparr>"

definition OpSpecs :: "OpSpec list" where
  "OpSpecs = [
     opspec 0x00 ''err'' opErr [] [],
     opspec 0x01 ''sha256'' opSHA256 oneBytes oneBytes,
     opspec 0x02 ''keccak256'' opKeccak256 oneBytes oneBytes,
     opspec 0x03 ''sha512_256'' opSHA512_256 oneBytes oneBytes,
     opspec 0x04 ''ed25519verify'' opEd25519verify threeBytes oneInt,
     opspec 0x08 ''+'' opPlus twoInts oneInt,
     opspec 0x09 ''-'' opMinus twoInts oneInt,
     opspec 0x0a ''/'' opDiv twoInts oneInt,
     opspec 0x0b ''*'' opMul twoInts oneInt,
     opspec 0x0c ''<'' opLt twoInts oneInt,
     opspec 0x0d ''>'' opGt twoInts oneInt,
     opspec 0x0e ''<='' opLe twoInts oneInt,
     opspec 0x0f ''>='' opGe twoInts oneInt,
     opspec 0x10 ''&&'' opAnd twoInts oneInt,
     opspec 0x11 ''||'' opOr twoInts oneInt,
     opspec 0x12 ''=='' opEq twoAny oneInt,
     opspec 0x13 ''!='' opNeq twoAny oneInt,
     opspec 0x14 ''!'' opNot oneInt oneInt,
     opspec 0x15 ''len'' opLen oneBytes oneInt,
     opspec 0x16 ''itob'' opItob oneInt oneBytes,
     opspec 0x17 ''btoi'' opBtoi oneBytes oneInt,
     opspec 0x18 ''%'' opModulo twoInts oneInt,
     opspec 0x19 ''|'' opBitOr twoInts oneInt,
     opspec 0x1a ''&'' opBitAnd twoInts oneInt,
     opspec 0x1b ''^'' opBitXor twoInts oneInt,
     opspec 0x1c ''~'' opBitNot oneInt oneInt,
     opspec 0x1d ''mulw'' opMulw twoInts twoInts,
     opspec 0x20 ''intcblock'' opIntConstBlock [] [],
     opspec 0x21 ''intc'' opIntConstLoad [] oneInt,
     opspec 0x22 ''intc_0'' opIntConst0 [] oneInt,
     opspec 0x23 ''intc_1'' opIntConst1 [] oneInt,
     opspec 0x24 ''intc_2'' opIntConst2 [] oneInt,
     opspec 0x25 ''intc_3'' opIntConst3 [] oneInt,
     opspec 0x26 ''bytecblock'' opByteConstBlock [] [],
     opspec 0x27 ''bytec'' opByteConstLoad [] oneBytes,
     opspec 0x28 ''bytec_0'' opByteConst0 [] oneBytes,
     opspec 0x29 ''bytec_1'' opByteConst1 [] oneBytes,
     opspec 0x2a ''bytec_2'' opByteConst2 [] oneBytes,
     opspec 0x2b ''bytec_3'' opByteConst3 [] oneBytes,
     opspec 0x2c ''arg'' opArg [] oneBytes,
     opspec 0x2d ''arg_0'' opArg0 [] oneBytes,
     opspec 0x2e ''arg_1'' opArg1 [] oneBytes,
     opspec 0x2f ''arg_2'' opArg2 [] oneBytes,
     opspec 0x30 ''arg_3'' opArg3 [] oneBytes,
     opspec 0x31 ''txn'' opTxn [] oneAny,
     opspec 0x32 ''global'' opGlobal [] oneAny,
     opspec 0x33 ''gtxn'' opGtxn [] oneAny,
     opspec 0x34 ''load'' opLoad [] oneAny,
     opspec 0x35 ''store'' opStore oneAny [],
     opspec 0x40 ''bnz'' opBnz oneInt [],
     opspec 0x48 ''pop'' opPop oneAny [],
     opspec 0x49 ''dup'' opDup oneAny twoAny]"

record opSize =
  ozName :: string
  ozCost :: nat
  ozSize :: nat
  checkFunc :: "opCheckFunc option"

definition opSizes :: "opSize list" where
  "opSizes = [
     \<lparr>ozName = ''sha256'', ozCost = 7, ozSize = 1, checkFunc = None\<rparr>,
     \<lparr>ozName = ''keccak256'', ozCost = 26, ozSize = 1, checkFunc = None\<rparr>,
     \<lparr>ozName = ''sha512_256'', ozCost = 9, ozSize = 1, checkFunc = None\<rparr>,
     \<lparr>ozName = ''ed25519verify'', ozCost = 1900, ozSize = 1, checkFunc = None\<rparr>,
     \<lparr>ozName = ''bnz'', ozCost = 1, ozSize = 3, checkFunc = Some checkBnz\<rparr>,
     \<lparr>ozName = ''intc'', ozCost = 1, ozSize = 2, checkFunc = None\<rparr>,
     \<lparr>ozName = ''bytec'', ozCost = 1, ozSize = 2, checkFunc = None\<rparr>,
     \<lparr>ozName = ''arg'', ozCost = 1, ozSize = 2, checkFunc = None\<rparr>,
     \<lparr>ozName = ''txn'', ozCost = 1, ozSize = 2, checkFunc = None\<rparr>,
     \<lparr>ozName = ''gtxn'', ozCost = 1, ozSize = 3, checkFunc = None\<rparr>,
     \<lparr>ozName = ''global'', ozCost = 1, ozSize = 2, checkFunc = None\<rparr>,
     \<lparr>ozName = ''intcblock'', ozCost = 1, ozSize = 0, checkFunc = Some checkIntConstBlock\<rparr>,
     \<lparr>ozName = ''bytecblock'', ozCost = 1, ozSize = 0, checkFunc = Some checkByteConstBlock\<rparr>,
     \<lparr>ozName = ''load'', ozCost = 1, ozSize = 2, checkFunc = None\<rparr>,
     \<lparr>ozName = ''store'', ozCost = 1, ozSize = 2, checkFunc = None\<rparr>]"

definition opsByOpcode :: "byte \<Rightarrow> OpSpec option" where
  "opsByOpcode b = find (\<lambda>oi. Opcode oi = b) OpSpecs"

definition opSize_of :: "OpSpec \<Rightarrow> opSize" where
  "opSize_of oi =
     (case find (\<lambda>oz. ozName oz = opName oi) opSizes of
        None \<Rightarrow> \<lparr>ozName = opName oi, ozCost = 1, ozSize = 1, checkFunc = None\<rparr>
      | Some oz \<Rightarrow> oz)"

section \<open>Execution and checking\<close>

definition opCompat :: "StackType \<Rightarrow> StackType \<Rightarrow> bool" where
  "opCompat expected got = (if expected = StackAny then True else expected = got)"

text \<open>After an operation: the depth of the stack is checked and the program counter moves.\<close>

definition advance :: "(evalContext, goerror, unit) act" where
  "advance cx =
     (if length (stack cx) > MaxStackDepth then (Err (Errorf ''stack overflow''), cx)
      else if nextpc cx \<noteq> 0 then (Ok (), cx\<lparr>pc := nextpc cx, nextpc := 0\<rparr>)
      else (Ok (), cx\<lparr>pc := pc cx + 1\<rparr>))"

text \<open>The cost of an operation counts even when the operation itself fails.\<close>

definition step :: "teal_crypto \<Rightarrow> (evalContext, goerror, unit) act" where
  "step tc cx =
     (case program_at cx (pc cx) of
        Err e \<Rightarrow> (Err e, cx)
      | Panic e \<Rightarrow> (Panic e, cx)
      | Ok opcode \<Rightarrow>
          (case opsByOpcode opcode of
             None \<Rightarrow> (Err (Errorf ''illegal opcode''), cx)
           | Some oi \<Rightarrow>
               if length (stack cx) < length (opArgs oi) then (Err (Errorf ''stack underflow''), cx)
               else if \<not> list_all2 (\<lambda>t sv. opCompat t (argType sv)) (opArgs oi)
                           (rev (take (length (opArgs oi)) (stack cx)))
               then (Err (Errorf ''wrong argument type''), cx)
               else let oz = opSize_of oi in
                 if ozSize oz \<noteq> 0 \<and> pc cx + ozSize oz > length (program cx)
                 then (Err (Errorf ''program ends short of immediate values''), cx)
                 else let cx = cx\<lparr>cost := cost cx + ozCost oz\<rparr> in
                   case op oi tc cx of
                     Ok cx' \<Rightarrow> advance cx'
                   | Err e \<Rightarrow> (Err e, cx)
                   | Panic e \<Rightarrow> (Panic e, cx)))"

definition moved :: "opSize \<Rightarrow> evalContext \<Rightarrow> evalContext" where
  "moved oz cx =
     (if nextpc cx \<noteq> 0 then cx\<lparr>pc := nextpc cx, nextpc := 0\<rparr> else cx\<lparr>pc := pc cx + ozSize oz\<rparr>)"

definition check_targets :: "nat \<times> evalContext \<Rightarrow> (goerror, nat \<times> evalContext) result" where
  "check_targets = (\<lambda>(c, cx).
     case branchTargets cx of
       [] \<Rightarrow> Ok (c, cx)
     | t # ts \<Rightarrow>
         if t < pc cx then Err (Errorf ''branch target not an aligned instruction'')
         else Ok (c, cx\<lparr>branchTargets := dropWhile (\<lambda>t. t = pc cx) (t # ts)\<rparr>))"

definition checkStep :: "evalContext \<Rightarrow> (goerror, nat \<times> evalContext) result" where
  "checkStep cx =
     res_bind (program_at cx (pc cx)) (\<lambda>opcode.
     case opsByOpcode opcode of
       None \<Rightarrow> Err (Errorf ''illegal opcode'')
     | Some oi \<Rightarrow>
         let oz = opSize_of oi in
         if ozSize oz \<noteq> 0 \<and> pc cx + ozSize oz > length (program cx)
         then Err (Errorf ''program ends short of immediate values'')
         else
           res_bind
             (case checkFunc oz of
                Some f \<Rightarrow> res_bind (f cx) (\<lambda>(c, cx'). Ok (c, moved oz cx'))
              | None \<Rightarrow> Ok (ozCost oz, cx\<lparr>pc := pc cx + ozSize oz\<rparr>)) check_targets)"

end
