(* ===== verification/Teal_Laws.thy ===== *)
theory Teal_Laws
  imports Teal
begin

text \<open>
  What every operation of the stack machine keeps, and the agreement of the two readings of a
  constant block: the one that builds the constants and the one that only checks it.
\<close>

section \<open>What every operation keeps\<close>

definition static_errors :: "goerror set" where
  "static_errors = {errLoopDetected, errCostTooHigh, Errorf ''illegal opcode'',
     Errorf ''program ends short of immediate values''}"

definition ready :: "nat \<Rightarrow> nat \<Rightarrow> evalContext \<Rightarrow> bool" where
  "ready n sz cx \<longleftrightarrow> n \<le> length (stack cx) \<and> pc cx + sz \<le> length (program cx) \<and> pc cx < length (program cx) \<and>
     length (scratch cx) = 256 \<and> nextpc cx = 0"

text \<open>
  An operation of fixed size: with enough operands and all its immediate bytes it does not run out
  of range, it touches only the stack, the scratch space and the next position, and the next
  position is the one its size gives.
\<close>

definition frame :: "evalContext \<Rightarrow> evalContext \<Rightarrow> bool" where
  "frame cx cx' \<longleftrightarrow> cxParams cx' = cxParams cx \<and> program cx' = program cx \<and> pc cx' = pc cx \<and>
     stepCount cx' = stepCount cx \<and> cost cx' = cost cx \<and> length (scratch cx') = length (scratch cx)"

definition fixed_op :: "opFunc \<Rightarrow> nat \<Rightarrow> nat \<Rightarrow> bool" where
  "fixed_op f n sz \<longleftrightarrow> (\<forall>tc cx. ready n sz cx \<longrightarrow>
     (case f tc cx of
        Ok cx' \<Rightarrow> frame cx cx' \<and> (nextpc cx' = pc cx + sz \<or> nextpc cx' = 0 \<and> sz = 1)
      | Err e \<Rightarrow> e \<notin> static_errors
      | Panic e \<Rightarrow> False))"

lemma stack_nonempty:
  "Suc 0 \<le> length xs \<Longrightarrow> \<exists>y r. xs = y # r" "2 \<le> length xs \<Longrightarrow> \<exists>y x r. xs = y # x # r"
  "3 \<le> length xs \<Longrightarrow> \<exists>y x z r. xs = y # x # z # r"
  by (auto simp: Suc_le_length_iff numeral_eq_Suc)

lemma fixed_top:
  assumes "\<And>tc cx. f tc cx = with_top cx (g tc cx)"
    and "\<And>tc cx y r. (\<exists>s. g tc cx y r = Ok (cx\<lparr>stack := s\<rparr>)) \<or> (\<exists>e. g tc cx y r = Err e \<and> e \<notin> static_errors)"
  shows "fixed_op f (Suc 0) (Suc 0)"
  unfolding fixed_op_def
proof (intro allI impI)
  fix tc cx assume ready: "ready (Suc 0) (Suc 0) cx"
  then obtain y r where s: "stack cx = y # r" using stack_nonempty by (metis ready_def)
  show "case f tc cx of Ok cx' \<Rightarrow> frame cx cx' \<and> (nextpc cx' = pc cx + Suc 0 \<or> nextpc cx' = 0 \<and> Suc 0 = 1)
      | Err e \<Rightarrow> e \<notin> static_errors | Panic e \<Rightarrow> False"
    using assms(2) [of tc cx y r] ready
    by (elim disjE exE) (auto simp: assms(1) with_top_def s ready_def frame_def)
qed

lemma fixed_two:
  assumes "\<And>tc cx. f tc cx = with_two cx (g tc cx)"
    and "\<And>tc cx x y r. (\<exists>s. g tc cx x y r = Ok (cx\<lparr>stack := s\<rparr>)) \<or> (\<exists>e. g tc cx x y r = Err e \<and> e \<notin> static_errors)"
  shows "fixed_op f 2 (Suc 0)"
  unfolding fixed_op_def
proof (intro allI impI)
  fix tc cx assume ready: "ready 2 (Suc 0) cx"
  then obtain y x r where s: "stack cx = y # x # r" using stack_nonempty by (metis ready_def)
  show "case f tc cx of Ok cx' \<Rightarrow> frame cx cx' \<and> (nextpc cx' = pc cx + Suc 0 \<or> nextpc cx' = 0 \<and> Suc 0 = 1)
      | Err e \<Rightarrow> e \<notin> static_errors | Panic e \<Rightarrow> False"
    using assms(2) [of tc cx x y r] ready
    by (elim disjE exE) (auto simp: assms(1) with_two_def with_top_def s ready_def frame_def)
qed

lemmas static_simps = static_errors_def errLoopDetected_def errCostTooHigh_def

lemma two_ops:
  "fixed_op opPlus 2 (Suc 0)" "fixed_op opMinus 2 (Suc 0)" "fixed_op opDiv 2 (Suc 0)" "fixed_op opModulo 2 (Suc 0)"
  "fixed_op opMul 2 (Suc 0)" "fixed_op opMulw 2 (Suc 0)"
  "fixed_op opLt 2 (Suc 0)" "fixed_op opGt 2 (Suc 0)" "fixed_op opLe 2 (Suc 0)" "fixed_op opGe 2 (Suc 0)"
  "fixed_op opAnd 2 (Suc 0)" "fixed_op opOr 2 (Suc 0)" "fixed_op opEq 2 (Suc 0)" "fixed_op opNeq 2 (Suc 0)"
  "fixed_op opBitOr 2 (Suc 0)" "fixed_op opBitAnd 2 (Suc 0)" "fixed_op opBitXor 2 (Suc 0)"
  by ((rule fixed_two, unfold opPlus_def opMinus_def opDiv_def opModulo_def opMul_def opMulw_def opLt_def opGt_def
      opLe_def opGe_def opAnd_def opOr_def opEq_def opNeq_def opBitOr_def opBitAnd_def opBitXor_def
      opCond_def opBits_def, rule refl,
      auto simp: Let_def static_simps opMulwImpl_def res_bind_def)[1])+

lemma top_ops:
  "fixed_op opSHA256 (Suc 0) (Suc 0)" "fixed_op opKeccak256 (Suc 0) (Suc 0)" "fixed_op opSHA512_256 (Suc 0) (Suc 0)"
  "fixed_op opNot (Suc 0) (Suc 0)" "fixed_op opLen (Suc 0) (Suc 0)" "fixed_op opItob (Suc 0) (Suc 0)" "fixed_op opBtoi (Suc 0) (Suc 0)"
  "fixed_op opBitNot (Suc 0) (Suc 0)" "fixed_op opPop (Suc 0) (Suc 0)" "fixed_op opDup (Suc 0) (Suc 0)"
  by ((rule fixed_top, unfold opSHA256_def opKeccak256_def opSHA512_256_def opHash_def opNot_def opLen_def opItob_def
      opBtoi_def opBitNot_def opPop_def opDup_def push_value_def, rule refl,
      auto simp: Let_def static_simps)[1])+

lemma load_ops:
  "fixed_op opErr 0 (Suc 0)"
  "fixed_op opIntConst0 0 (Suc 0)" "fixed_op opIntConst1 0 (Suc 0)" "fixed_op opIntConst2 0 (Suc 0)" "fixed_op opIntConst3 0 (Suc 0)"
  "fixed_op opByteConst0 0 (Suc 0)" "fixed_op opByteConst1 0 (Suc 0)" "fixed_op opByteConst2 0 (Suc 0)" "fixed_op opByteConst3 0 (Suc 0)"
  "fixed_op opArg0 0 (Suc 0)" "fixed_op opArg1 0 (Suc 0)" "fixed_op opArg2 0 (Suc 0)" "fixed_op opArg3 0 (Suc 0)"
  by (auto simp: fixed_op_def ready_def opErr_def opIntConst0_def opIntConst1_def opIntConst2_def opIntConst3_def
      opByteConst0_def opByteConst1_def opByteConst2_def opByteConst3_def opArg0_def opArg1_def opArg2_def opArg3_def
      opIntConstN_def opByteConstN_def opArgN_def push_value_def static_simps Let_def frame_def)


lemma immediate_at: "i < length (program cx) \<Longrightarrow> program_at cx i = Ok (program cx ! i)"
  by (simp add: program_at_def)

lemma byte_index: "unat (b :: byte) < 256"
  using unsigned_less [of b, where 'a = nat] by simp

lemma field_not_static: "txnFieldToStack tc cx txn f = Err e \<Longrightarrow> e \<notin> static_errors"
  "txnFieldToStack tc cx txn f \<noteq> Panic e"
  by (auto simp: txnFieldToStack_def static_simps Let_def split: option.splits)

lemma immediate_ops:
  "fixed_op opIntConstLoad 0 2" "fixed_op opByteConstLoad 0 2" "fixed_op opArg 0 2"
  "fixed_op opGlobal 0 2" "fixed_op opLoad 0 2"
  by (auto simp: fixed_op_def ready_def immediate_at byte_index frame_def static_simps
      opIntConstLoad_def opByteConstLoad_def opArg_def opGlobal_def opLoad_def
      opIntConstN_def opByteConstN_def opArgN_def push_value_def res_bind_def Let_def
      split: option.splits)

lemma txn_op: "fixed_op opTxn 0 2"
  by (auto simp: fixed_op_def ready_def immediate_at frame_def opTxn_def push_value_def res_bind_def
      field_not_static split: result.splits)

lemma gtxn_op: "fixed_op opGtxn 0 3"
proof -
  have range: "Errorf ''gtxn lookup beyond TxnGroup'' \<notin> static_errors" by (simp add: static_simps)
  then show ?thesis
    by (auto simp: fixed_op_def ready_def immediate_at frame_def opGtxn_def push_value_def res_bind_def
        field_not_static Let_def split: result.splits if_splits)
qed

lemma store_op: "fixed_op opStore (Suc 0) 2"
  by (auto simp: fixed_op_def ready_def immediate_at byte_index frame_def opStore_def res_bind_def with_top_def
      dest!: stack_nonempty)

lemma verify_op: "fixed_op opEd25519verify 3 (Suc 0)"
  by (auto simp: fixed_op_def ready_def frame_def opEd25519verify_def with_two_def with_top_def static_simps
      Let_def dest!: stack_nonempty)

section \<open>Branches and constant blocks\<close>

lemma offset_at:
  assumes "pc cx + 3 \<le> length (program cx)"
  shows "\<exists>o'. branch_offset cx = Ok o' \<and>
    (\<forall>cx'. program cx' = program cx \<longrightarrow> pc cx' = pc cx \<longrightarrow> branch_offset cx' = Ok o')"
  using assms by (auto simp: branch_offset_def immediate_at res_bind_def)

lemma bnz_op:
  assumes "ready (Suc 0) 3 cx"
  shows "case opBnz tc cx of
      Ok cx' \<Rightarrow> frame cx cx' \<and>
        (nextpc cx' = pc cx + 3 \<or> (\<exists>o'. branch_offset cx = Ok o' \<and> o' \<le> 0x7fff \<and> nextpc cx' = pc cx + 3 + unat o'))
    | Err e \<Rightarrow> e \<notin> static_errors | Panic e \<Rightarrow> False"
proof -
  from assms obtain y r where s: "stack cx = y # r" using stack_nonempty by (metis ready_def)
  obtain o' where o': "branch_offset cx = Ok o'"
    and same: "\<forall>cx'. program cx' = program cx \<longrightarrow> pc cx' = pc cx \<longrightarrow> branch_offset cx' = Ok o'"
    using offset_at [of cx] assms by (auto simp: ready_def)
  have "branch_offset (cx\<lparr>nextpc := pc cx + 3, stack := r\<rparr>) = Ok o'"
    using same by simp
  then show ?thesis
    using assms s o' by (auto simp: opBnz_def with_top_def res_bind_def ready_def frame_def static_simps Let_def)
qed

lemma Uvarint_used:
  assumes "uvarint_from i x s bs = (v, used)"
  shows "used \<le> int i + int (length bs)"
  using assms by (induction i x s bs rule: uvarint_from.induct) (auto split: if_splits)

lemma Uvarint_bound: "Uvarint bs = (v, used) \<Longrightarrow> nat used \<le> length bs"
  using Uvarint_used [of 0 0 0 bs v used] by (simp add: Uvarint_def)

lemma parse_ints_check:
  "check_ints n prog pos = Ok p \<longleftrightarrow> (\<exists>vs. parse_ints n prog pos = Ok (vs, p))"
  by (induction n arbitrary: pos) (auto simp: res_bind_def split: prod.splits result.splits)

lemma parse_ints_not:
  "parse_ints n prog pos \<noteq> Panic e" "parse_ints n prog pos = Err e \<Longrightarrow> e \<notin> static_errors"
  by (induction n arbitrary: pos) (auto simp: res_bind_def static_simps Let_def split: prod.splits result.splits if_splits)

lemma check_ints_bounds:
  "check_ints n prog pos = Ok p \<Longrightarrow> pos \<le> length prog \<Longrightarrow> pos \<le> p \<and> p \<le> length prog"
proof (induction n arbitrary: pos)
  case (Suc n)
  obtain v used where u: "Uvarint (drop pos prog) = (v, used)" by force
  with Suc.prems have rest: "check_ints n prog (pos + nat used) = Ok p" by (auto split: if_splits)
  have "pos + nat used \<le> length prog" using Uvarint_bound [OF u] Suc.prems(2) by simp
  from Suc.IH [OF rest this] show ?case by simp
qed simp

lemma item_at_Ok:
  assumes "item_at prog pos = Ok (p, len)" and "length prog < 2 ^ 63"
  shows "pos < p \<and> p + len \<le> length prog"
proof -
  obtain v used where u: "Uvarint (drop pos prog) = (v, used)" by force
  with assms(1) have p: "p = pos + nat used" "0 < used" "p < length prog" "len = unat v"
    and no_wrap: "\<not> (of_nat p + v :: u64) < of_nat p" and le: "\<not> of_nat (length prog) < (of_nat p + v :: u64)"
    by (auto simp: item_at_def Let_def split: if_splits)
  have small: "unat (of_nat p :: u64) = p" "unat (of_nat (length prog) :: u64) = length prog"
    using assms(2) p(3) by (simp_all add: unat_of_nat)
  have "p + unat v \<le> length prog"
    using le unat_add_no_wrap [OF no_wrap] small by (simp add: word_less_nat_alt not_less)
  then show ?thesis using p by simp
qed

lemma item_at_not: "item_at prog pos \<noteq> Panic e" "item_at prog pos = Err e \<Longrightarrow> e \<notin> static_errors"
  by (auto simp: item_at_def static_simps Let_def split: prod.splits if_splits)

lemma parse_items_check:
  assumes "length prog < 2 ^ 63"
  shows "check_items n prog pos = Ok p \<longleftrightarrow> (\<exists>vs. parse_items n prog pos = Ok (vs, p))"
proof (induction n arbitrary: pos)
  case (Suc n)
  show ?case
  proof (cases "item_at prog pos")
    case (Ok a)
    obtain q len where a: "a = (q, len)" by force
    have "q + len \<le> length prog" using item_at_Ok [OF _ assms, of pos q len] Ok a by simp
    then show ?thesis
      using Ok a Suc.IH [of "q + len"] by (auto simp: act_simps res_bind_def split: result.splits)
  qed (simp_all add: res_bind_def)
qed simp

lemma parse_items_not:
  assumes "length prog < 2 ^ 63"
  shows "parse_items n prog pos \<noteq> Panic e" "parse_items n prog pos = Err e \<Longrightarrow> e \<notin> static_errors"
proof (induction n arbitrary: pos)
  case (Suc n)
  case 1
  show ?case using Suc(1) item_at_not(1)
    by (cases "item_at prog pos") (auto simp: res_bind_def dest: item_at_Ok [OF _ assms] split: result.splits)
  case 2
  then show ?case using Suc(2) item_at_not(2)
    by (cases "item_at prog pos") (auto simp: res_bind_def split: result.splits if_splits)
qed simp_all

lemma check_items_bounds:
  assumes "length prog < 2 ^ 63"
  shows "check_items n prog pos = Ok p \<Longrightarrow> pos \<le> length prog \<Longrightarrow> pos \<le> p \<and> p \<le> length prog"
proof (induction n arbitrary: pos)
  case (Suc n)
  then obtain q len where q: "item_at prog pos = Ok (q, len)" and rest: "check_items n prog (q + len) = Ok p"
    by (auto simp: act_simps)
  from item_at_Ok [OF q assms] Suc.IH [OF rest] show ?case by auto
qed simp

text \<open>Where the instruction after the one at \<open>p\<close> begins.\<close>

definition instr_next :: "OpSpec \<Rightarrow> byte list \<Rightarrow> nat \<Rightarrow> nat \<Rightarrow> bool" where
  "instr_next oi prog p n \<longleftrightarrow>
     (if opName oi = ''intcblock'' then \<exists>vs. parseIntcblock prog p = Ok (vs, n)
      else if opName oi = ''bytecblock'' then \<exists>vs. parseBytecBlock prog p = Ok (vs, n)
      else n = p + ozSize (opSize_of oi))"

lemma check_int_block:
  assumes "checkIntConstBlock k = Ok (c, k')"
  shows "\<exists>n vs. c = 1 \<and> k' = k\<lparr>nextpc := n\<rparr> \<and> pc k < n \<and> n \<le> length (program k) \<and>
    parseIntcblock (program k) (pc k) = Ok (vs, n)"
proof -
  obtain v used where u: "Uvarint (drop (Suc (pc k)) (program k)) = (v, used)" by force
  from assms u have le: "Suc (pc k) \<le> length (program k)" and "0 < used" "\<not> v > of_nat (length (program k))"
    and n: "check_ints (unat v) (program k) (pc k + 1 + nat used) = Ok (nextpc k')" and k: "c = 1" "k' = k\<lparr>nextpc := nextpc k'\<rparr>"
    by (auto simp: checkIntConstBlock_def act_simps program_from_def Let_def split: if_splits)
  from n obtain vs where vs: "parse_ints (unat v) (program k) (pc k + 1 + nat used) = Ok (vs, nextpc k')"
    by (auto simp: parse_ints_check)
  have "parseIntcblock (program k) (pc k) = Ok (vs, nextpc k')"
    using u le \<open>0 < used\<close> \<open>\<not> v > of_nat (length (program k))\<close> vs
    by (simp add: parseIntcblock_def program_from_def res_bind_def)
  moreover have "pc k + 1 + nat used \<le> length (program k)" using Uvarint_bound [OF u] le by simp
  ultimately show ?thesis using check_ints_bounds [OF n] k by (intro exI [of _ "nextpc k'"] exI [of _ vs]) auto
qed

lemma check_byte_block:
  assumes "checkByteConstBlock k = Ok (c, k')" and len: "length (program k) < 2 ^ 63"
  shows "\<exists>n vs. c = 1 \<and> k' = k\<lparr>nextpc := n\<rparr> \<and> pc k < n \<and> n \<le> length (program k) \<and>
    parseBytecBlock (program k) (pc k) = Ok (vs, n)"
proof -
  obtain v used where u: "Uvarint (drop (Suc (pc k)) (program k)) = (v, used)" by force
  from assms u have le: "Suc (pc k) \<le> length (program k)" and "0 < used" "\<not> v > of_nat (length (program k))"
    and n: "check_items (unat v) (program k) (pc k + 1 + nat used) = Ok (nextpc k')" and k: "c = 1" "k' = k\<lparr>nextpc := nextpc k'\<rparr>"
    by (auto simp: checkByteConstBlock_def act_simps program_from_def Let_def split: if_splits)
  from n obtain vs where vs: "parse_items (unat v) (program k) (pc k + 1 + nat used) = Ok (vs, nextpc k')"
    by (auto simp: parse_items_check [OF len])
  have "parseBytecBlock (program k) (pc k) = Ok (vs, nextpc k')"
    using u le \<open>0 < used\<close> \<open>\<not> v > of_nat (length (program k))\<close> vs
    by (simp add: parseBytecBlock_def program_from_def res_bind_def)
  moreover have "pc k + 1 + nat used \<le> length (program k)" using Uvarint_bound [OF u] le by simp
  ultimately show ?thesis using check_items_bounds [OF len n] k by (intro exI [of _ "nextpc k'"] exI [of _ vs]) auto
qed

lemma parse_blocks_not:
  assumes "p < length prog" and len: "length prog < 2 ^ 63"
  shows "parseIntcblock prog p \<noteq> Panic e" "parseIntcblock prog p = Err e \<Longrightarrow> e \<notin> static_errors"
    "parseBytecBlock prog p \<noteq> Panic e" "parseBytecBlock prog p = Err e \<Longrightarrow> e \<notin> static_errors"
proof -
  obtain v used where u: "Uvarint (drop (Suc p) prog) = (v, used)" by force
  have errs: "Errorf ''could not decode int const block size'' \<notin> static_errors"
      "Errorf ''intcblock with too many items'' \<notin> static_errors"
      "Errorf ''could not decode []byte const block size'' \<notin> static_errors"
      "Errorf ''bytecblock with too many items'' \<notin> static_errors"
    by (simp_all add: static_simps)
  note not = parse_ints_not [of "unat v" prog "Suc (p + nat used)"] parse_items_not [OF len, of "unat v" "Suc (p + nat used)"]
  show "parseIntcblock prog p \<noteq> Panic e" "parseBytecBlock prog p \<noteq> Panic e"
    using assms(1) u not(1,3)
    by (auto simp: parseIntcblock_def parseBytecBlock_def program_from_def res_bind_def split: if_splits)
  show "parseIntcblock prog p = Err e \<Longrightarrow> e \<notin> static_errors" "parseBytecBlock prog p = Err e \<Longrightarrow> e \<notin> static_errors"
    using assms(1) u errs not(2,4)
    by (auto simp: parseIntcblock_def parseBytecBlock_def program_from_def res_bind_def split: if_splits)
qed

section \<open>The table\<close>

lemmas op_lemmas = two_ops top_ops load_ops immediate_ops txn_op gtxn_op store_op verify_op

lemma table_ops:
  assumes "oi \<in> set OpSpecs"
  shows "opName oi = ''intcblock'' \<and> op oi = opIntConstBlock \<and> opSize_of oi = \<lparr>ozName = ''intcblock'', ozCost = 1, ozSize = 0, checkFunc = Some checkIntConstBlock\<rparr> \<or>
    opName oi = ''bytecblock'' \<and> op oi = opByteConstBlock \<and> opSize_of oi = \<lparr>ozName = ''bytecblock'', ozCost = 1, ozSize = 0, checkFunc = Some checkByteConstBlock\<rparr> \<or>
    opName oi = ''bnz'' \<and> op oi = opBnz \<and> length (opArgs oi) = 1 \<and> opSize_of oi = \<lparr>ozName = ''bnz'', ozCost = 1, ozSize = 3, checkFunc = Some checkBnz\<rparr> \<or>
    opName oi \<notin> {''intcblock'', ''bytecblock'', ''bnz''} \<and> checkFunc (opSize_of oi) = None \<and> 0 < ozSize (opSize_of oi) \<and>
      fixed_op (op oi) (length (opArgs oi)) (ozSize (opSize_of oi))"
  using assms unfolding OpSpecs_def opspec_def
  by (simp only: list.set insert_iff empty_iff, elim disjE)
    (simp_all add: opSize_of_def opSizes_def oneBytes_def threeBytes_def oneInt_def twoInts_def oneAny_def twoAny_def
      op_lemmas [simplified numeral_2_eq_2 numeral_3_eq_3] numeral_2_eq_2 numeral_3_eq_3)


section \<open>Arithmetic\<close>

lemma opMulwImpl_exact:
  "\<exists>high low. opMulwImpl x y = Ok (high, low) \<and> unat high * 2 ^ 64 + unat low = unat x * unat y"
proof -
  define v where "v = uint x * uint y"
  define h where "h = v div 2 ^ 64"
  define l where "l = v mod 2 ^ 64"
  have v0: "0 \<le> v" by (simp add: v_def)
  have "uint x < 2 ^ 64" "uint y < 2 ^ 64" using uint_lt2p [of x] uint_lt2p [of y] by simp_all
  then have vb: "v < 2 ^ 64 * 2 ^ 64" unfolding v_def by (intro mult_strict_mono) simp_all
  have low: "and v (2 ^ 64 - 1) = l" unfolding l_def by (metis mask_eq_exp_minus_1 take_bit_eq_mask take_bit_eq_mod)
  have high: "drop_bit 64 v = h" unfolding h_def by (rule drop_bit_eq_div)
  have hb: "0 \<le> h" "h < 2 ^ 64" using v0 vb by (simp_all add: h_def div_less_iff_less_mult pos_imp_zdiv_nonneg_iff)
  have lb: "0 \<le> l" "l < 2 ^ 64" by (simp_all add: l_def)
  have eq: "opMulwImpl x y = Ok (word_of_int h, word_of_int l)"
    unfolding opMulwImpl_def v_def [symmetric] Let_def low high using hb lb by (simp only: simp_thms if_False)
  have u: "unat (word_of_int z :: u64) = nat z" if "0 \<le> z" "z < 2 ^ 64" for z
    using that by (simp add: unat_eq_nat_uint uint_word_of_int)
  have "int (nat h * 2 ^ 64 + nat l) = h * 2 ^ 64 + l" using hb lb by simp
  also have "\<dots> = v" unfolding h_def l_def by (rule div_mult_mod_eq)
  also have "\<dots> = int (unat x * unat y)" by (simp add: v_def)
  finally have "nat h * 2 ^ 64 + nat l = unat x * unat y" by (simp only: of_nat_eq_iff)
  then show ?thesis using eq u [OF hb] u [OF lb] by (intro exI conjI) auto
qed

lemma mask_byte: "and (ucast (b :: byte)) 0xff = (ucast b :: u64)"
proof -
  have m: "(0xff :: u64) = mask 8" by (simp add: mask_eq_exp_minus_1)
  show ?thesis unfolding m by (rule bit_word_eqI) (auto simp: bit_simps dest: bit_imp_le_length)
qed

lemma bit_shifted:
  "k \<le> n \<and> n - k < 64 \<and> n - k < 8 \<and> bit v (k + (n - k)) \<longleftrightarrow> k \<le> n \<and> n < k + 8 \<and> bit v n"
  by auto

lemma btoi_itob: "btoi_value (PutUint64 v) = v"
proof (rule bit_word_eqI)
  fix n assume "n < LENGTH(64)"
  then have n: "n < 64" by simp
  have "n < 8 \<or> 8 \<le> n \<and> n < 16 \<or> 16 \<le> n \<and> n < 24 \<or> 24 \<le> n \<and> n < 32 \<or> 32 \<le> n \<and> n < 40 \<or>
      40 \<le> n \<and> n < 48 \<or> 48 \<le> n \<and> n < 56 \<or> 56 \<le> n" by linarith
  with n show "bit (btoi_value (PutUint64 v)) n = bit v n"
    by (simp add: btoi_value_def PutUint64_def upt_rec mask_byte bit_simps bit_shifted) argo
qed

end
