(* ===== verification/Teal_Exec.thy ===== *)
theory Teal_Exec
  imports Teal_Laws
begin

text \<open>
  Running and checking whole programs: \<open>Eval\<close> and \<open>Check\<close> of \<open>logic/eval.go\<close>.  The loop of \<open>Eval\<close>
  ends because the code counts its steps, the loop of \<open>Check\<close> because every checked instruction
  moves the position forward.  A program that passes \<open>Check\<close> stays within the checked cost.
\<close>

section \<open>The loops\<close>

lemma case_list_Ok: "(case xs of [] \<Rightarrow> Panic e | y # r \<Rightarrow> f y r) = Ok z \<longleftrightarrow> (\<exists>y r. xs = y # r \<and> f y r = Ok z)"
  by (cases xs) simp_all

lemma with_top_Ok: "with_top cx f = Ok z \<longleftrightarrow> (\<exists>y r. stack cx = y # r \<and> f y r = Ok z)"
  by (simp add: with_top_def case_list_Ok)

lemma with_two_Ok: "with_two cx f = Ok z \<longleftrightarrow> (\<exists>y x r. stack cx = y # x # r \<and> f x y r = Ok z)"
  by (auto simp: with_two_def with_top_Ok case_list_Ok)

lemma table_frame:
  assumes "oi \<in> set OpSpecs" and "op oi tc cx = Ok cx'"
  shows "frame cx cx'"
  using assms unfolding OpSpecs_def opspec_def
  by (simp only: list.set insert_iff empty_iff, elim disjE)
    (auto simp: frame_def with_top_Ok with_two_Ok case_list_Ok act_simps push_value_def Let_def
      opErr_def opSHA256_def opKeccak256_def opSHA512_256_def opHash_def opPlus_def opMinus_def opDiv_def opModulo_def
      opMul_def opMulw_def opLt_def opGt_def opLe_def opGe_def opAnd_def opOr_def opEq_def opNeq_def opNot_def opLen_def
      opItob_def opBtoi_def opBitOr_def opBitAnd_def opBitXor_def opBitNot_def opCond_def opBits_def
      opIntConstBlock_def opIntConstLoad_def opIntConst0_def opIntConst1_def opIntConst2_def opIntConst3_def opIntConstN_def
      opByteConstBlock_def opByteConstLoad_def opByteConst0_def opByteConst1_def opByteConst2_def opByteConst3_def opByteConstN_def
      opArg_def opArg0_def opArg1_def opArg2_def opArg3_def opArgN_def opTxn_def opGtxn_def opGlobal_def opLoad_def opStore_def
      opBnz_def opPop_def opDup_def opEd25519verify_def split: if_splits option.splits)

lemma opsByOpcode_mem: "opsByOpcode b = Some oi \<Longrightarrow> oi \<in> set OpSpecs"
  unfolding opsByOpcode_def by (auto simp: find_Some_iff)

lemma advance_frame:
  "advance cx = (r, cx') \<Longrightarrow> cxParams cx' = cxParams cx \<and> program cx' = program cx \<and> stepCount cx' = stepCount cx \<and>
     cost cx' = cost cx \<and> length (scratch cx') = length (scratch cx)"
  by (auto simp: advance_def split: if_splits)

lemma step_frame:
  assumes "step tc cx = (r, cx')"
  shows "cxParams cx' = cxParams cx \<and> program cx' = program cx \<and> stepCount cx' = stepCount cx \<and>
    length (scratch cx') = length (scratch cx)"
  using assms
  by (auto simp: step_def Let_def frame_def dest!: opsByOpcode_mem table_frame advance_frame
      split: result.splits option.splits if_splits)

function eval_loop :: "teal_crypto \<Rightarrow> evalContext \<Rightarrow> (goerror, evalContext) result" where
  "eval_loop tc cx =
     (if pc cx < length (program cx) then
        (case step tc cx of (r, cx1) \<Rightarrow>
          let cx2 = cx1\<lparr>stepCount := stepCount cx1 + 1\<rparr> in
          case r of
            Panic e \<Rightarrow> Panic e
          | _ \<Rightarrow>
              if stepCount cx2 > length (program cx2) then Err errLoopDetected
              else if (of_nat (cost cx2) :: u64) > LogicSigMaxCost (cxProto cx2) then Err errCostTooHigh
              else (case r of Ok _ \<Rightarrow> eval_loop tc cx2 | Err e \<Rightarrow> Err e | Panic e \<Rightarrow> Panic e))
      else Ok cx)"
  by pat_completeness auto

termination
  by (relation "measure (\<lambda>(tc, cx). Suc (length (program cx)) - stepCount cx)")
    (auto dest!: sym [of "(_, _)" "step _ _"] step_frame)

lemma checkStepE:
  assumes "checkStep k = Ok (c, k')"
  obtains oi k1 where "pc k < length (program k)" "opsByOpcode (program k ! pc k) = Some oi"
    "ozSize (opSize_of oi) = 0 \<or> pc k + ozSize (opSize_of oi) \<le> length (program k)"
    "(case checkFunc (opSize_of oi) of
        Some f \<Rightarrow> res_bind (f k) (\<lambda>(c, cx'). Ok (c, moved (opSize_of oi) cx'))
      | None \<Rightarrow> Ok (ozCost (opSize_of oi), k\<lparr>pc := pc k + ozSize (opSize_of oi)\<rparr>)) = Ok (c, k1)"
    "check_targets (c, k1) = Ok (c, k')"
proof -
  from assms obtain b where b: "program_at k (pc k) = Ok b" by (auto simp: checkStep_def act_simps)
  then have at: "pc k < length (program k)" "b = program k ! pc k" by (auto simp: program_at_def split: if_splits)
  from assms b obtain oi where oi: "opsByOpcode b = Some oi" by (auto simp: checkStep_def act_simps split: option.splits)
  from assms b oi have short: "ozSize (opSize_of oi) = 0 \<or> pc k + ozSize (opSize_of oi) \<le> length (program k)"
    by (auto simp: checkStep_def act_simps Let_def split: if_splits)
  from assms b oi short obtain c1 k1 where k1: "(case checkFunc (opSize_of oi) of
        Some f \<Rightarrow> res_bind (f k) (\<lambda>(c, cx'). Ok (c, moved (opSize_of oi) cx'))
      | None \<Rightarrow> Ok (ozCost (opSize_of oi), k\<lparr>pc := pc k + ozSize (opSize_of oi)\<rparr>)) = Ok (c1, k1)"
      "check_targets (c1, k1) = Ok (c, k')"
    by (auto simp: checkStep_def act_simps Let_def split: if_splits)
  moreover have "c1 = c" using k1(2) by (auto simp: check_targets_def split: list.splits if_splits)
  ultimately show ?thesis using that at oi short by blast
qed

lemma check_targets_frame:
  "check_targets (c, k1) = Ok (c, k') \<Longrightarrow> \<exists>ts. k' = k1\<lparr>branchTargets := ts\<rparr>"
  by (auto simp: check_targets_def intro: exI [of _ "branchTargets k'"] split: list.splits if_splits)

lemma check_items_mono: "check_items n prog pos = Ok p \<Longrightarrow> pos \<le> p"
proof (induction n arbitrary: pos)
  case (Suc n)
  then obtain q len where q: "item_at prog pos = Ok (q, len)" and rest: "check_items n prog (q + len) = Ok p"
    by (auto simp: act_simps)
  have "pos \<le> q" using q by (auto simp: item_at_def Let_def split: prod.splits if_splits)
  with Suc.IH [OF rest] show ?case by simp
qed simp

lemma check_byte_block_mono:
  assumes "checkByteConstBlock k = Ok (c, k')"
  shows "\<exists>n. k' = k\<lparr>nextpc := n\<rparr> \<and> pc k < n"
proof -
  obtain v used where u: "Uvarint (drop (Suc (pc k)) (program k)) = (v, used)" by force
  with assms obtain n where "check_items (unat v) (program k) (pc k + 1 + nat used) = Ok n" "k' = k\<lparr>nextpc := n\<rparr>"
    by (auto simp: checkByteConstBlock_def act_simps program_from_def Let_def split: if_splits)
  then show ?thesis using check_items_mono [of "unat v" "program k" "pc k + 1 + nat used" n] by auto
qed

lemma checkBnz_Ok:
  assumes "checkBnz k = Ok (c, k')"
  shows "\<exists>o'. branch_offset k = Ok o' \<and> o' \<le> 0x7fff \<and> pc k + 3 + unat o' < length (program k) \<and> c = 1 \<and>
    k' = k\<lparr>nextpc := pc k + 3, branchTargets := sort (branchTargets k @ [pc k + 3 + unat o'])\<rparr>"
  using assms by (auto simp: checkBnz_def act_simps Let_def not_less split: if_splits)

lemma moved_sel [simp]:
  "nextpc k \<noteq> 0 \<Longrightarrow> moved oz k = k\<lparr>pc := nextpc k, nextpc := 0\<rparr>"
  by (simp add: moved_def)

lemma checkStep_progress:
  assumes "checkStep k = Ok (c, k')"
  shows "program k' = program k \<and> pc k < pc k'"
proof -
  obtain oi k1 where k1: "opsByOpcode (program k ! pc k) = Some oi"
    "(case checkFunc (opSize_of oi) of
        Some f \<Rightarrow> res_bind (f k) (\<lambda>(c, cx'). Ok (c, moved (opSize_of oi) cx'))
      | None \<Rightarrow> Ok (ozCost (opSize_of oi), k\<lparr>pc := pc k + ozSize (opSize_of oi)\<rparr>)) = Ok (c, k1)"
    "check_targets (c, k1) = Ok (c, k')"
    using assms by (rule checkStepE)
  have "program k1 = program k \<and> pc k < pc k1"
    using table_ops [OF opsByOpcode_mem [OF k1(1)]] k1(2)
    by (elim disjE) (auto simp: act_simps moved_def dest!: check_int_block check_byte_block_mono checkBnz_Ok)
  then show ?thesis using check_targets_frame [OF k1(3)] by auto
qed

function check_loop :: "evalContext \<Rightarrow> nat \<Rightarrow> (goerror, nat) result" where
  "check_loop cx acc =
     (if pc cx < length (program cx) then
        res_bind (checkStep cx) (\<lambda>(c, cx'). check_loop cx' (acc + c))
      else Ok acc)"
  by pat_completeness auto

termination
  by (relation "measure (\<lambda>(cx, acc). length (program cx) - pc cx)") (auto dest!: checkStep_progress)

text \<open>The context in which a program starts, after its version has been read.\<close>

definition start_context :: "EvalParams \<Rightarrow> byte list \<Rightarrow> u64 \<Rightarrow> nat \<Rightarrow> Digest \<Rightarrow> evalContext" where
  "start_context params prog v vlen h =
     \<lparr>cxParams = params, stack = [], program = prog, pc = vlen, nextpc = 0, intc = [], bytec = [],
      version = v, scratch = replicate 256 stackValue_zero, stepCount = 0, cost = 0,
      branchTargets = [], programHash = h\<rparr>"

definition check_version :: "byte list \<Rightarrow> ConsensusParams \<Rightarrow> (goerror, u64 \<times> nat) result" where
  "check_version prog proto =
     (let (v, vlen) = Uvarint prog in
      if vlen \<le> 0 then Err (Errorf ''invalid version'')
      else if v > EvalMaxVersion then Err (Errorf ''program version greater than max supported version'')
      else if v > LogicSigVersion proto then Err (Errorf ''program version greater than protocol supported version'')
      else Ok (v, nat vlen))"

definition supported :: "EvalParams \<Rightarrow> (goerror, ConsensusParams) result" where
  "supported params =
     (case epProto params of
        None \<Rightarrow> Err errLogicSignNotSupported
      | Some proto \<Rightarrow> if LogicSigVersion proto = 0 then Err errLogicSignNotSupported else Ok proto)"

definition final_value :: "evalContext \<Rightarrow> (goerror, bool) result" where
  "final_value cx =
     (case stack cx of
        [v] \<Rightarrow> if Bytes v \<noteq> None then Err (Errorf ''stack finished with bytes not int'') else Ok (Uint v \<noteq> 0)
      | _ \<Rightarrow> Err (Errorf ''stack len is not 1''))"

text \<open>\<open>recover\<close>: a panic becomes an error.\<close>

definition recovered :: "(goerror, 'a) result \<Rightarrow> (goerror, 'a) result" where
  "recovered r = (case r of Panic e \<Rightarrow> Err PanicError | _ \<Rightarrow> r)"

definition Eval :: "teal_crypto \<Rightarrow> byte list \<Rightarrow> EvalParams \<Rightarrow> (goerror, bool) result" where
  "Eval tc prog params = recovered (
     res_bind (supported params) (\<lambda>proto.
     if length (lsArgs (stLsig (epTxn params))) > EvalMaxArgs then Err errTooManyArgs
     else
       res_bind (check_version prog proto) (\<lambda>(v, vlen).
       res_bind (eval_loop tc (start_context params prog v vlen (tcProgramHash tc prog))) final_value)))"

definition Check :: "byte list \<Rightarrow> EvalParams \<Rightarrow> (goerror, nat) result" where
  "Check prog params = recovered (
     res_bind (supported params) (\<lambda>proto.
     res_bind (check_version prog proto) (\<lambda>(v, vlen).
     check_loop (start_context params prog v vlen 0) 0)))"

declare eval_loop.simps [simp del] check_loop.simps [simp del]

section \<open>One step of the machine against one step of the check\<close>

definition cx_ok :: "evalContext \<Rightarrow> bool" where
  "cx_ok cx \<longleftrightarrow> nextpc cx = 0 \<and> length (scratch cx) = 256 \<and> length (program cx) < 2 ^ 63"

definition targets_ok :: "evalContext \<Rightarrow> bool" where
  "targets_ok k \<longleftrightarrow> sorted (branchTargets k) \<and> (\<forall>t\<in>set (branchTargets k). pc k < t) \<and>
     nextpc k = 0 \<and> length (program k) < 2 ^ 63"

lemma check_targets_Ok:
  assumes "check_targets (c, k1) = Ok (c, k')" and "sorted (branchTargets k1)"
  shows "\<forall>t\<in>set (branchTargets k1). t = pc k1 \<or> t \<in> set (branchTargets k')"
    and "sorted (branchTargets k') \<and> (\<forall>t\<in>set (branchTargets k'). pc k1 < t)" and "\<exists>ts. k' = k1\<lparr>branchTargets := ts\<rparr>"
proof -
  show "\<exists>ts. k' = k1\<lparr>branchTargets := ts\<rparr>" using check_targets_frame [OF assms(1)] .
  have kept: "\<forall>t\<in>set ts. t = p \<or> t \<in> set (dropWhile (\<lambda>t. t = p) ts)" for ts and p :: nat
    by (induction ts) auto
  have srt: "sorted ts \<Longrightarrow> \<forall>t\<in>set ts. p \<le> t \<Longrightarrow>
      sorted (dropWhile (\<lambda>t. t = p) ts) \<and> (\<forall>t\<in>set (dropWhile (\<lambda>t. t = p) ts). p < t)" for ts and p :: nat
    by (induction ts) auto
  show "\<forall>t\<in>set (branchTargets k1). t = pc k1 \<or> t \<in> set (branchTargets k')"
    using assms(1) kept [of "branchTargets k1" "pc k1"]
    by (auto simp: check_targets_def split: list.splits if_splits)
  show "sorted (branchTargets k') \<and> (\<forall>t\<in>set (branchTargets k'). pc k1 < t)"
  proof (cases "branchTargets k1")
    case (Cons t ts)
    have "pc k1 \<le> t" and k': "k' = k1\<lparr>branchTargets := dropWhile (\<lambda>t. t = pc k1) (branchTargets k1)\<rparr>"
      using assms(1) Cons by (simp_all add: check_targets_def split: if_splits)
    then have "\<forall>t\<in>set (branchTargets k1). pc k1 \<le> t" using assms(2) Cons by auto
    then show ?thesis using srt [of "branchTargets k1" "pc k1"] assms(2) k' by simp
  qed (use assms in \<open>simp add: check_targets_def\<close>)
qed

text \<open>What one checked step establishes about the instruction at its position.\<close>

definition checked_at :: "evalContext \<Rightarrow> nat \<Rightarrow> evalContext \<Rightarrow> bool" where
  "checked_at k c k' \<longleftrightarrow> (\<exists>oi. opsByOpcode (program k ! pc k) = Some oi \<and>
     (ozSize (opSize_of oi) = 0 \<or> pc k + ozSize (opSize_of oi) \<le> length (program k)) \<and>
     c = ozCost (opSize_of oi) \<and> instr_next oi (program k) (pc k) (pc k') \<and> pc k' \<le> length (program k) \<and>
     (opName oi = ''bnz'' \<longrightarrow> (\<exists>o'. branch_offset k = Ok o' \<and> pc k + 3 + unat o' < length (program k) \<and>
        (pc k + 3 + unat o' = pc k' \<or> pc k + 3 + unat o' \<in> set (branchTargets k')))))"

lemma checkStep_targets:
  assumes "checkStep k = Ok (c, k')" and "targets_ok k"
  shows "targets_ok k' \<and> checked_at k c k' \<and> (\<forall>t\<in>set (branchTargets k). t = pc k' \<or> t \<in> set (branchTargets k'))"
proof -
  obtain oi k1 where k1: "pc k < length (program k)" "opsByOpcode (program k ! pc k) = Some oi"
    "ozSize (opSize_of oi) = 0 \<or> pc k + ozSize (opSize_of oi) \<le> length (program k)"
    "(case checkFunc (opSize_of oi) of
        Some f \<Rightarrow> res_bind (f k) (\<lambda>(c, cx'). Ok (c, moved (opSize_of oi) cx'))
      | None \<Rightarrow> Ok (ozCost (opSize_of oi), k\<lparr>pc := pc k + ozSize (opSize_of oi)\<rparr>)) = Ok (c, k1)"
    "check_targets (c, k1) = Ok (c, k')"
    using assms(1) by (rule checkStepE)
  have srt: "sorted (branchTargets k)" "nextpc k = 0" and len: "length (program k) < 2 ^ 63"
    using assms(2) by (auto simp: targets_ok_def)
  have all: "sorted (branchTargets k1) \<and> nextpc k1 = 0 \<and> program k1 = program k \<and> set (branchTargets k) \<subseteq> set (branchTargets k1) \<and>
      c = ozCost (opSize_of oi) \<and> instr_next oi (program k) (pc k) (pc k1) \<and> pc k1 \<le> length (program k) \<and>
      (opName oi = ''bnz'' \<longrightarrow> (\<exists>o'. branch_offset k = Ok o' \<and> pc k + 3 + unat o' < length (program k) \<and>
         pc k + 3 + unat o' \<in> set (branchTargets k1)))"
    using table_ops [OF opsByOpcode_mem [OF k1(2)]] k1(3,4) srt
    by (elim disjE) (auto simp: act_simps instr_next_def moved_def
        dest!: check_int_block check_byte_block [OF _ len] checkBnz_Ok)
  note ct = check_targets_Ok [OF k1(5)]
  show ?thesis
    using all ct k1(2,3) len unfolding targets_ok_def checked_at_def
    by auto
qed


lemma check_loop_ge: "check_loop k acc = Ok c \<Longrightarrow> acc \<le> c"
proof (induction k acc rule: check_loop.induct)
  case (1 k acc)
  show ?case
  proof (cases "pc k < length (program k)")
    case True
    with "1.prems" obtain c0 k' where s: "checkStep k = Ok (c0, k')" and l: "check_loop k' (acc + c0) = Ok c"
      by (subst (asm) check_loop.simps) (auto simp: act_simps)
    from "1.IH" [OF True s refl l] show ?thesis by simp
  qed (use "1.prems" in \<open>simp add: check_loop.simps\<close>)
qed

lemma check_loop_step:
  assumes "check_loop k acc = Ok c" and "pc k < length (program k)"
  obtains c0 k' where "checkStep k = Ok (c0, k')" "check_loop k' (acc + c0) = Ok c"
  using assms by (subst (asm) check_loop.simps) (auto simp: act_simps)

text \<open>Every branch target that is still open is a position the check comes to.\<close>

lemma check_reaches:
  assumes "check_loop k acc = Ok c" and "targets_ok k" and "t \<in> set (branchTargets k)" and "t < length (program k)"
  shows "\<exists>k' acc'. program k' = program k \<and> pc k' = t \<and> targets_ok k' \<and> check_loop k' acc' = Ok c \<and> acc \<le> acc'"
  using assms
proof (induction k acc rule: check_loop.induct)
  case (1 k acc)
  have "pc k < t" using "1.prems"(2,3) by (simp add: targets_ok_def)
  with "1.prems"(4) have pc: "pc k < length (program k)" by simp
  with "1.prems"(1) obtain c0 k' where s: "checkStep k = Ok (c0, k')" and l: "check_loop k' (acc + c0) = Ok c"
    by (rule check_loop_step)
  have k': "program k' = program k" using checkStep_progress [OF s] by simp
  from checkStep_targets [OF s "1.prems"(2)] "1.prems"(3)
  have tk: "targets_ok k'" and "t = pc k' \<or> t \<in> set (branchTargets k')" by auto
  then show ?case
  proof (elim disjE)
    assume "t = pc k'"
    then show ?thesis using k' tk l by (intro exI [of _ k'] exI [of _ "acc + c0"]) simp
  next
    assume "t \<in> set (branchTargets k')"
    with "1.IH" [OF pc s refl l tk] k' "1.prems"(4)
    obtain k2 acc2 where "program k2 = program k" "pc k2 = t" "targets_ok k2" "check_loop k2 acc2 = Ok c" "acc + c0 \<le> acc2"
      by auto
    then show ?thesis by (intro exI [of _ k2] exI [of _ acc2]) simp
  qed
qed

lemma instr_next_unique: "instr_next oi prog p n \<Longrightarrow> instr_next oi prog p m \<Longrightarrow> n = m"
  by (auto simp: instr_next_def split: if_splits)

lemma advance_Ok:
  "advance cx = (Ok u, cx') \<Longrightarrow> nextpc cx' = 0 \<and> length (stack cx') \<le> MaxStackDepth \<and>
     pc cx' = (if nextpc cx \<noteq> 0 then nextpc cx else pc cx + 1)"
  by (auto simp: advance_def split: if_splits)

lemma advance_not: "fst (advance cx) \<noteq> Panic e" "fst (advance cx) = Err e \<Longrightarrow> e \<notin> static_errors"
  by (auto simp: advance_def static_simps split: if_splits)

definition op_next :: "OpSpec \<Rightarrow> evalContext \<Rightarrow> nat \<Rightarrow> bool" where
  "op_next oi cx n \<longleftrightarrow> instr_next oi (program cx) (pc cx) n \<or>
     opName oi = ''bnz'' \<and> (\<exists>o'. branch_offset cx = Ok o' \<and> n = pc cx + 3 + unat o')"

lemma parse_ints_mono: "parse_ints n prog pos = Ok (vs, p) \<Longrightarrow> pos \<le> p"
proof (induction n arbitrary: pos vs)
  case (Suc n)
  obtain v used where u: "Uvarint (drop pos prog) = (v, used)" by force
  with Suc.prems obtain vs' where "parse_ints n prog (pos + nat used) = Ok (vs', p)"
    by (auto simp: act_simps split: if_splits)
  from Suc.IH [OF this] show ?case by simp
qed simp

lemma parse_items_mono: "parse_items n prog pos = Ok (vs, p) \<Longrightarrow> pos \<le> p"
proof (induction n arbitrary: pos vs)
  case (Suc n)
  then obtain q len vs' where q: "item_at prog pos = Ok (q, len)" and rest: "parse_items n prog (q + len) = Ok (vs', p)"
    by (auto simp: act_simps split: if_splits)
  have "pos \<le> q" using q by (auto simp: item_at_def Let_def split: prod.splits if_splits)
  with Suc.IH [OF rest] show ?case by simp
qed simp

lemma parse_blocks_mono:
  "parseIntcblock prog p = Ok (vs, n) \<Longrightarrow> p < n" "parseBytecBlock prog p = Ok (ws, n) \<Longrightarrow> p < n"
proof -
  obtain v used where u: "Uvarint (drop (Suc p) prog) = (v, used)" by force
  show "parseIntcblock prog p = Ok (vs, n) \<Longrightarrow> p < n" "parseBytecBlock prog p = Ok (ws, n) \<Longrightarrow> p < n"
    using u by (auto simp: parseIntcblock_def parseBytecBlock_def program_from_def res_bind_def
        dest!: parse_ints_mono parse_items_mono split: if_splits)
qed

lemma op_run:
  assumes oi: "oi \<in> set OpSpecs" and ok: "cx_ok cx" and pc: "pc cx < length (program cx)"
    and size: "ozSize (opSize_of oi) = 0 \<or> pc cx + ozSize (opSize_of oi) \<le> length (program cx)"
    and args: "length (opArgs oi) \<le> length (stack cx)"
  shows "case op oi tc cx of
      Ok cx' \<Rightarrow> frame cx cx' \<and> op_next oi cx (if nextpc cx' \<noteq> 0 then nextpc cx' else pc cx' + 1)
    | Err e \<Rightarrow> e \<notin> static_errors | Panic e \<Rightarrow> False"
  using table_ops [OF oi]
proof (elim disjE conjE)
  assume b: "opName oi = ''intcblock''" "op oi = opIntConstBlock"
  show ?thesis
    using parse_blocks_not(1,2) [OF pc] ok unfolding b cx_ok_def
    by (auto simp: opIntConstBlock_def res_bind_def frame_def op_next_def instr_next_def b
        dest: parse_blocks_mono split: result.splits)
next
  assume b: "opName oi = ''bytecblock''" "op oi = opByteConstBlock"
  show ?thesis
    using parse_blocks_not(3,4) [OF pc] ok unfolding b cx_ok_def
    by (auto simp: opByteConstBlock_def res_bind_def frame_def op_next_def instr_next_def b
        dest: parse_blocks_mono split: result.splits)
next
  assume b: "opName oi = ''bnz''" "op oi = opBnz" "length (opArgs oi) = 1"
    and oz: "opSize_of oi = \<lparr>ozName = ''bnz'', ozCost = 1, ozSize = 3, checkFunc = Some checkBnz\<rparr>"
  have "ready (Suc 0) 3 cx" using ok pc size args b oz by (simp add: ready_def cx_ok_def)
  from bnz_op [OF this, of tc] show ?thesis
    unfolding b by (auto simp: op_next_def instr_next_def b oz frame_def split: result.splits)
next
  assume f: "opName oi \<notin> {''intcblock'', ''bytecblock'', ''bnz''}" "0 < ozSize (opSize_of oi)"
    "fixed_op (op oi) (length (opArgs oi)) (ozSize (opSize_of oi))"
  have "ready (length (opArgs oi)) (ozSize (opSize_of oi)) cx"
    using ok pc size args f(2) by (auto simp: ready_def cx_ok_def)
  then have "case op oi tc cx of
      Ok cx' \<Rightarrow> frame cx cx' \<and> (nextpc cx' = pc cx + ozSize (opSize_of oi) \<or> nextpc cx' = 0 \<and> ozSize (opSize_of oi) = 1)
    | Err e \<Rightarrow> e \<notin> static_errors | Panic e \<Rightarrow> False"
    using f(3) by (simp add: fixed_op_def)
  then show ?thesis
    using f(1,2) by (cases "op oi tc cx") (auto simp: op_next_def instr_next_def frame_def)
qed


lemma cx_ok_cost [simp]: "cx_ok (cx\<lparr>cost := c\<rparr>) = cx_ok cx"
  by (simp add: cx_ok_def)

lemma op_next_cost [simp]: "op_next oi (cx\<lparr>cost := c\<rparr>) = op_next oi cx"
  by (simp add: op_next_def branch_offset_def program_at_def fun_eq_iff)

lemma step_run:
  assumes ok: "cx_ok cx" and pc: "pc cx < length (program cx)" and st: "step tc cx = (r, cx')"
  shows "r \<noteq> Panic e"
    and "r = Ok u \<Longrightarrow> cx_ok cx' \<and> length (stack cx') \<le> MaxStackDepth \<and>
      (\<exists>oi. opsByOpcode (program cx ! pc cx) = Some oi \<and> op_next oi cx (pc cx') \<and>
        cost cx' = cost cx + ozCost (opSize_of oi))"
    and "opsByOpcode (program cx ! pc cx) = Some oi \<Longrightarrow> cost cx' \<le> cost cx + ozCost (opSize_of oi)"
    and "opsByOpcode (program cx ! pc cx) = Some oi \<Longrightarrow>
      ozSize (opSize_of oi) = 0 \<or> pc cx + ozSize (opSize_of oi) \<le> length (program cx) \<Longrightarrow>
      r = Err e \<Longrightarrow> e \<notin> static_errors"
proof -
  have errs: "Errorf ''stack underflow'' \<notin> static_errors" "Errorf ''wrong argument type'' \<notin> static_errors"
    by (simp_all add: static_simps)
  have "r \<noteq> Panic e \<and> (r = Ok u \<longrightarrow> cx_ok cx' \<and> length (stack cx') \<le> MaxStackDepth \<and>
      (\<exists>oi. opsByOpcode (program cx ! pc cx) = Some oi \<and> op_next oi cx (pc cx') \<and>
        cost cx' = cost cx + ozCost (opSize_of oi))) \<and>
    (opsByOpcode (program cx ! pc cx) = Some oi \<longrightarrow> cost cx' \<le> cost cx + ozCost (opSize_of oi)) \<and>
    (opsByOpcode (program cx ! pc cx) = Some oi \<longrightarrow>
      ozSize (opSize_of oi) = 0 \<or> pc cx + ozSize (opSize_of oi) \<le> length (program cx) \<longrightarrow>
      r = Err e \<longrightarrow> e \<notin> static_errors)"
  proof (cases "opsByOpcode (program cx ! pc cx)")
    case None
    then show ?thesis using st pc by (auto simp: step_def program_at_def)
  next
    case (Some o1)
    let ?cx = "cx\<lparr>cost := cost cx + ozCost (opSize_of o1)\<rparr>"
    show ?thesis
    proof (cases "length (opArgs o1) \<le> length (stack cx) \<and>
        list_all2 (\<lambda>t sv. opCompat t (argType sv)) (opArgs o1) (rev (take (length (opArgs o1)) (stack cx))) \<and>
        (ozSize (opSize_of o1) = 0 \<or> pc cx + ozSize (opSize_of o1) \<le> length (program cx))")
      case False
      then show ?thesis using st pc Some errs by (auto simp: step_def program_at_def Let_def not_le split: if_splits)
    next
      case True
      have run: "case op o1 tc ?cx of
          Ok cx' \<Rightarrow> frame ?cx cx' \<and> op_next o1 ?cx (if nextpc cx' \<noteq> 0 then nextpc cx' else pc cx' + 1)
        | Err e \<Rightarrow> e \<notin> static_errors | Panic e \<Rightarrow> False"
        by (rule op_run [OF opsByOpcode_mem [OF Some]]) (use True ok pc in simp_all)
      have st': "(r, cx') = (case op o1 tc ?cx of Ok c \<Rightarrow> advance c | Err e \<Rightarrow> (Err e, ?cx) | Panic e \<Rightarrow> (Panic e, ?cx))"
        using st pc Some True by (auto simp: step_def program_at_def Let_def not_less split: if_splits)
      show ?thesis
      proof (cases "op o1 tc ?cx")
        case (Ok c1)
        with run have fr: "frame ?cx c1" and nx: "op_next o1 cx (if nextpc c1 \<noteq> 0 then nextpc c1 else pc c1 + 1)" by auto
        have adv: "advance c1 = (r, cx')" using st' Ok by simp
        have "cost cx' = cost cx + ozCost (opSize_of o1)" using advance_frame [OF adv] fr by (simp add: frame_def)
        moreover have "r \<noteq> Panic e" using advance_not(1) [of c1 e] adv by simp
        moreover have "r = Err e \<Longrightarrow> e \<notin> static_errors" using advance_not(2) [of c1 e] adv by simp
        moreover have "cx_ok cx' \<and> length (stack cx') \<le> MaxStackDepth \<and> op_next o1 cx (pc cx')" if "r = Ok u"
          using advance_Ok [of c1 u cx'] adv that advance_frame [OF adv] fr ok nx by (simp add: cx_ok_def frame_def)
        ultimately show ?thesis using Some by auto
      qed (use st' run Some in auto)
    qed
  qed
  then show "r \<noteq> Panic e"
    and "r = Ok u \<Longrightarrow> cx_ok cx' \<and> length (stack cx') \<le> MaxStackDepth \<and>
      (\<exists>oi. opsByOpcode (program cx ! pc cx) = Some oi \<and> op_next oi cx (pc cx') \<and>
        cost cx' = cost cx + ozCost (opSize_of oi))"
    and "opsByOpcode (program cx ! pc cx) = Some oi \<Longrightarrow> cost cx' \<le> cost cx + ozCost (opSize_of oi)"
    and "opsByOpcode (program cx ! pc cx) = Some oi \<Longrightarrow>
      ozSize (opSize_of oi) = 0 \<or> pc cx + ozSize (opSize_of oi) \<le> length (program cx) \<Longrightarrow>
      r = Err e \<Longrightarrow> e \<notin> static_errors"
    by blast+
qed

section \<open>Whole programs\<close>

text \<open>No index is ever out of range, whatever the program.\<close>

lemma eval_loop_no_panic: "cx_ok cx \<Longrightarrow> eval_loop tc cx \<noteq> Panic e"
proof (induction tc cx rule: eval_loop.induct)
  case (1 tc cx)
  show ?case
  proof (cases "pc cx < length (program cx)")
    case True
    obtain r cx1 where st: "step tc cx = (r, cx1)" by force
    note run = step_run [OF "1.prems" True st]
    show ?thesis
    proof (cases r)
      case (Ok u)
      have "cx_ok (cx1\<lparr>stepCount := stepCount cx1 + 1\<rparr>)" using run(2) [OF Ok] by (simp add: cx_ok_def)
      then show ?thesis
        using "1.IH"(1) [OF True st [symmetric] refl Ok] True st Ok by (subst eval_loop.simps) (auto simp: Let_def)
    qed (use run(1) True st in \<open>subst eval_loop.simps, simp add: Let_def\<close>)+
  qed (simp add: eval_loop.simps)
qed


lemma check_targets_no_panic: "check_targets x \<noteq> Panic e"
  by (auto simp: check_targets_def split: prod.splits list.splits if_splits)

lemma check_blocks_no_panic:
  assumes "pc k < length (program k)"
  shows "checkIntConstBlock k \<noteq> Panic e" "checkByteConstBlock k \<noteq> Panic e"
proof -
  have ints: "check_ints n prog pos \<noteq> Panic e" for n prog pos
    by (induction n arbitrary: pos) (auto simp: Let_def split: prod.splits)
  have items: "check_items n prog pos \<noteq> Panic e" for n prog pos
    by (induction n arbitrary: pos) (auto simp: res_bind_def item_at_not(1) split: prod.splits result.splits)
  show "checkIntConstBlock k \<noteq> Panic e" "checkByteConstBlock k \<noteq> Panic e"
    using assms ints items
    by (auto simp: checkIntConstBlock_def checkByteConstBlock_def program_from_def res_bind_def Let_def
        split: prod.splits result.splits)
qed

lemma checkStep_no_panic:
  assumes pc: "pc k < length (program k)"
  shows "checkStep k \<noteq> Panic e"
proof (cases "opsByOpcode (program k ! pc k)")
  case (Some oi)
  have bnz: "checkBnz k \<noteq> Panic e'" if "pc k + 3 \<le> length (program k)" for e'
    using offset_at [OF that] by (auto simp: checkBnz_def res_bind_def Let_def split: if_splits)
  from table_ops [OF opsByOpcode_mem [OF Some]] show ?thesis
    using pc Some check_blocks_no_panic [OF pc] check_targets_no_panic bnz [of e]
    by (elim disjE) (auto simp: checkStep_def program_at_def res_bind_def Let_def not_less
        split: result.splits prod.splits if_splits)
qed (use pc in \<open>simp add: checkStep_def program_at_def res_bind_def\<close>)

lemma check_loop_no_panic: "check_loop k acc \<noteq> Panic e"
proof (induction k acc rule: check_loop.induct)
  case (1 k acc)
  show ?case
  proof (cases "pc k < length (program k)")
    case True
    then show ?thesis
      using "1.IH" [OF True] checkStep_no_panic [OF True]
      by (subst check_loop.simps) (auto simp: res_bind_def split: result.splits prod.splits)
  qed (simp add: check_loop.simps)
qed

lemma branch_offset_cong: "program k = program cx \<Longrightarrow> pc k = pc cx \<Longrightarrow> branch_offset k = branch_offset cx"
  by (simp add: branch_offset_def program_at_def)

text \<open>
  The simulation: as long as the machine is at a position the check came to, with a cost not
  above what the check had counted there, it stays within the checked cost and below the step
  limit.
\<close>

lemma eval_loop_checked:
  assumes "cx_ok cx" and "check_loop k acc = Ok c" and "targets_ok k" and "program k = program cx" and "pc k = pc cx"
    and "cost cx \<le> acc" and "stepCount cx < pc cx" and "pc cx \<le> length (program cx)"
    and "c \<le> unat (LogicSigMaxCost (cxProto cx))"
  shows "eval_loop tc cx = Err e \<Longrightarrow> e \<notin> static_errors"
  using assms
proof (induction tc cx arbitrary: k acc rule: eval_loop.induct)
  case (1 tc cx)
  have pc: "pc cx < length (program cx)" using "1.prems"(1) by (auto simp: eval_loop.simps [of tc cx] split: if_splits)
  obtain r cx1 where st: "step tc cx = (r, cx1)" by force
  let ?cx2 = "cx1\<lparr>stepCount := stepCount cx1 + 1\<rparr>"
  obtain c0 k' where s: "checkStep k = Ok (c0, k')" and l: "check_loop k' (acc + c0) = Ok c"
    using "1.prems"(3,5,6) pc by (metis check_loop_step)
  from checkStep_targets [OF s "1.prems"(4)] have tk: "targets_ok k'" and at: "checked_at k c0 k'" by auto
  then obtain oi where oi: "opsByOpcode (program cx ! pc cx) = Some oi"
    and size: "ozSize (opSize_of oi) = 0 \<or> pc cx + ozSize (opSize_of oi) \<le> length (program cx)"
    and c0: "c0 = ozCost (opSize_of oi)" and next': "instr_next oi (program cx) (pc cx) (pc k')" "pc k' \<le> length (program cx)"
    and br: "opName oi = ''bnz'' \<longrightarrow> (\<exists>o'. branch_offset cx = Ok o' \<and> pc cx + 3 + unat o' < length (program cx) \<and>
        (pc cx + 3 + unat o' = pc k' \<or> pc cx + 3 + unat o' \<in> set (branchTargets k')))"
    using "1.prems"(5,6) branch_offset_cong [of k cx] unfolding checked_at_def by auto
  note run = step_run [OF "1.prems"(2) pc st]
  have fr: "cxParams cx1 = cxParams cx" "program cx1 = program cx" "stepCount cx1 = stepCount cx"
    using step_frame [OF st] by auto
  have cost: "cost cx1 \<le> acc + c0" "acc + c0 \<le> c"
    using run(3) [OF oi] "1.prems"(7) c0 check_loop_ge [OF l] by auto
  have loop: "\<not> length (program ?cx2) < stepCount ?cx2" using "1.prems"(8) pc fr by simp
  have proto: "cxProto ?cx2 = cxProto cx" using fr by (simp add: cxProto_def)
  have cheap: "\<not> LogicSigMaxCost (cxProto ?cx2) < (of_nat (cost ?cx2) :: u64)"
  proof -
    have "unat (of_nat (cost cx1) :: u64) \<le> cost cx1" by (simp add: unat_of_nat)
    also have "\<dots> \<le> unat (LogicSigMaxCost (cxProto cx))" using cost "1.prems"(10) by simp
    finally show ?thesis using proto by (simp add: word_less_nat_alt not_less)
  qed
  show ?case
  proof (cases r)
    case (Err e')
    then show ?thesis using "1.prems"(1) st pc loop cheap run(4) [OF oi size] by (subst (asm) eval_loop.simps) (simp add: Let_def)
  next
    case (Panic e') then show ?thesis using run(1) by blast
  next
    case (Ok u)
    then have ok: "cx_ok cx1" and nx: "op_next oi cx (pc cx1)" using run(2) [OF Ok] oi by auto
    have k': "program k' = program cx" "pc cx < pc k'" using checkStep_progress [OF s] "1.prems"(5,6) by auto
    have "\<exists>k2 acc2. program k2 = program cx \<and> pc k2 = pc cx1 \<and> targets_ok k2 \<and> check_loop k2 acc2 = Ok c \<and>
        acc + c0 \<le> acc2 \<and> pc cx < pc cx1 \<and> pc cx1 \<le> length (program cx)"
    proof (cases "pc cx1 = pc k'")
      case True
      then show ?thesis using k' tk l next' by (intro exI [of _ k'] exI [of _ "acc + c0"]) simp
    next
      case False
      with nx next' instr_next_unique br
      have t: "pc cx1 \<in> set (branchTargets k')" "pc cx1 < length (program cx)" "pc cx < pc cx1"
        by (auto simp: op_next_def)
      with check_reaches [OF l tk t(1)] k' show ?thesis by (metis less_imp_le)
    qed
    then obtain k2 acc2 where k2: "program k2 = program cx" "pc k2 = pc cx1" "targets_ok k2" "check_loop k2 acc2 = Ok c"
      "acc + c0 \<le> acc2" "pc cx < pc cx1" "pc cx1 \<le> length (program cx)" by blast
    have "eval_loop tc ?cx2 = Err e"
      using "1.prems"(1) st pc loop cheap Ok by (subst (asm) eval_loop.simps) (simp add: Let_def)
    then show ?thesis
      by (rule "1.IH"(1) [OF pc st [symmetric] refl Ok loop cheap Ok _ _ k2(4,3)])
        (use k2 ok fr cost proto "1.prems"(8,10) in \<open>simp_all add: cx_ok_def\<close>)
  qed
qed


lemma start_ok:
  "length prog < 2 ^ 63 \<Longrightarrow> cx_ok (start_context params prog v vlen h)"
  "length prog < 2 ^ 63 \<Longrightarrow> targets_ok (start_context params prog v vlen h)"
  by (simp_all add: start_context_def cx_ok_def targets_ok_def)

lemma check_version_Ok:
  "check_version prog proto = Ok (v, vlen) \<Longrightarrow> 0 < vlen \<and> vlen \<le> length prog"
  by (auto simp: check_version_def dest: Uvarint_bound split: prod.splits if_splits)

lemma check_version_not: "check_version prog proto \<noteq> Panic e" "check_version prog proto = Err e \<Longrightarrow> e \<noteq> PanicError"
  by (auto simp: check_version_def PanicError_def split: prod.splits if_splits)

lemma final_value_not: "final_value cx \<noteq> Panic e"
  by (auto simp: final_value_def split: list.splits)

lemma supported_not: "supported params \<noteq> Panic e"
  by (auto simp: supported_def split: option.splits)

text \<open>The body that the deferred \<open>recover\<close> surrounds.\<close>

definition eval_body :: "teal_crypto \<Rightarrow> byte list \<Rightarrow> EvalParams \<Rightarrow> (goerror, bool) result" where
  "eval_body tc prog params =
     res_bind (supported params) (\<lambda>proto.
     if length (lsArgs (stLsig (epTxn params))) > EvalMaxArgs then Err errTooManyArgs
     else
       res_bind (check_version prog proto) (\<lambda>(v, vlen).
       res_bind (eval_loop tc (start_context params prog v vlen (tcProgramHash tc prog))) final_value))"

lemma Eval_body: "Eval tc prog params = recovered (eval_body tc prog params)"
  by (simp add: Eval_def eval_body_def)

lemma eval_body_no_panic:
  assumes "length prog < 2 ^ 63"
  shows "eval_body tc prog params \<noteq> Panic e"
  using eval_loop_no_panic [OF start_ok(1) [OF assms]]
  by (auto simp: eval_body_def res_bind_def supported_not check_version_not final_value_not
      split: result.splits prod.splits)

lemma check_body_no_panic:
  "res_bind (supported params) (\<lambda>proto. res_bind (check_version prog proto) (\<lambda>(v, vlen).
     check_loop (start_context params prog v vlen 0) 0)) \<noteq> Panic e"
  by (auto simp: res_bind_def supported_not check_version_not check_loop_no_panic split: result.splits prod.splits)

lemma CheckE:
  assumes "Check prog params = Ok c"
  obtains proto v vlen where "supported params = Ok proto" "check_version prog proto = Ok (v, vlen)"
    "check_loop (start_context params prog v vlen 0) 0 = Ok c"
  using assms check_body_no_panic [of params prog]
  by (auto simp: Check_def recovered_def act_simps split: result.splits)

lemma res_bind_Ok_eq: "res_bind (Ok a) f = f a"
  by (simp add: res_bind_def)

text \<open>
  The check does not look at the transaction or its group, so its verdict bounds the evaluation
  in every context under the same protocol.
\<close>

lemma Check_bounds_eval:
  assumes chk: "Check prog params' = Ok c" and same: "epProto params' = epProto params" and len: "length prog < 2 ^ 63"
    and max: "\<forall>p. epProto params = Some p \<longrightarrow> c \<le> unat (LogicSigMaxCost p)"
    and run: "Eval tc prog params = Err e"
  shows "e \<notin> static_errors"
proof -
  obtain proto v vlen where sup: "supported params' = Ok proto" and p: "check_version prog proto = Ok (v, vlen)"
    "check_loop (start_context params' prog v vlen 0) 0 = Ok c"
    using chk by (rule CheckE)
  have sup: "supported params = Ok proto" using sup same by (simp add: supported_def)
  have proto: "epProto params = Some proto" using sup by (auto simp: supported_def split: option.splits if_splits)
  let ?cx = "start_context params prog v vlen (tcProgramHash tc prog)"
  have "eval_body tc prog params = Err e"
  proof (cases "eval_body tc prog params")
    case (Panic x) with eval_body_no_panic [OF len, of tc params x] show ?thesis by simp
  qed (use run in \<open>simp_all add: Eval_body recovered_def\<close>)
  then have body: "(if length (lsArgs (stLsig (epTxn params))) > EvalMaxArgs then Err errTooManyArgs
      else res_bind (eval_loop tc ?cx) final_value) = Err e"
    unfolding eval_body_def sup p res_bind_Ok_eq by (simp only: prod.case)
  have fin: "final_value cx' \<noteq> Err e" if "e \<in> static_errors" for cx'
    using that by (auto simp: final_value_def static_simps split: list.splits if_splits)
  have tma: "errTooManyArgs \<notin> static_errors" by (simp add: static_simps errTooManyArgs_def)
  have loop: "eval_loop tc ?cx = Err e \<Longrightarrow> e \<notin> static_errors"
  proof (rule eval_loop_checked [OF start_ok(1) [OF len] p(2) start_ok(2) [OF len]])
    show "c \<le> unat (LogicSigMaxCost (cxProto ?cx))"
      using max proto by (simp add: start_context_def cxProto_def)
  qed (use check_version_Ok [OF p(1)] in \<open>simp_all add: start_context_def\<close>)
  show ?thesis
  proof
    assume e: "e \<in> static_errors"
    show False
      using body loop fin [OF e] tma e
      by (cases "eval_loop tc ?cx") (auto simp: res_bind_def split: if_splits)
  qed
qed

end
