(* ===== verification/Verify.thy ===== *)
theory Verify
  imports Teal_Exec
begin

text \<open>
  Signature verification of a single transaction (\<open>data/transactions/verify/txn.go\<close>).

  The signature scheme is a record of parameters: the check of an ed25519 signature on a
  transaction and on a program, and the hash that makes a multisignature address.  The worker
  pool of \<open>TxnPool\<close> runs \<open>stxnVerifyCore\<close> and hands its error back, so the call is made directly.
\<close>

record verifiers =
  vTxn :: "Transaction verifier"
  vProgram :: "byte list verifier"
  vHash :: hash_fun
  vTeal :: teal_crypto

text \<open>\<open>LogicSig\<close> of the package, under the name it has there with a suffix: \<open>LogicSig\<close> is the struct.\<close>

definition count_sigs :: "bool list \<Rightarrow> nat" where
  "count_sigs bs = length (filter id bs)"

definition LogicSig_verify ::
    "verifiers \<Rightarrow> LogicSig \<Rightarrow> ConsensusParams \<Rightarrow> SignedTxn \<Rightarrow> (goerror, unit) result" where
  "LogicSig_verify W lsig proto stxn =
     (if LogicSigVersion proto = 0 then Err (Errorf ''LogicSig not enabled'')
      else if length (Logic lsig) = 0 then Err (Errorf ''LogicSig.Logic empty'')
      else let (version, vlen) = Uvarint (Logic lsig) in
        if vlen \<le> 0 then Err (Errorf ''LogicSig.Logic bad version'')
        else if version > LogicSigVersion proto then Err (Errorf ''LogicSig.Logic version too new'')
        else if word_of_int (Lsig_Len lsig) > LogicSigMaxSize proto then Err (Errorf ''LogicSig.Logic too long'')
        else
          res_bind (Check (Logic lsig)
              \<lparr>epTxn = stxn, epProto = Some proto, epTxnGroup = [], epGroupIndex = 0, epFirstValidTimeStamp = 0\<rparr>) (\<lambda>cost.
          if int cost > sint (LogicSigMaxCost proto) then Err (Errorf ''LogicSig.Logic too slow'')
          else
            let hasSig = lsSig lsig \<noteq> 0; hasMsig = \<not> Msig_Blank (lsMsig lsig);
                numSigs = count_sigs [hasSig, hasMsig];
                src = Src (Txn stxn) in
            if numSigs = 0 then
              (if Sender (txHeader (Txn stxn)) = tcProgramHash (vTeal W) (Logic lsig) then Ok ()
               else Err (Errorf ''LogicNot signed and not a Logic-only account''))
            else if numSigs > 1 then Err (Errorf ''LogicSig should only have one of Sig or Msig but has more than one'')
            else if hasSig then
              (if vProgram W src (Logic lsig) (lsSig lsig) then Ok ()
               else Err (Errorf ''logic signature validation failed''))
            else if hasMsig then
              (if fst (MultisigVerify (vHash W) (vProgram W) (Logic lsig) src (lsMsig lsig)) then Ok ()
               else Err (Errorf ''logic multisig validation failed''))
            else Err (Errorf ''inconsistent internal state verifying LogicSig'')))"

definition stxnVerifyCore :: "verifiers \<Rightarrow> SignedTxn \<Rightarrow> ConsensusParams \<Rightarrow> (goerror, unit) result" where
  "stxnVerifyCore W s proto =
     (let hasSig = stSig s \<noteq> 0; hasMsig = \<not> Msig_Blank (stMsig s); hasLogicSig = \<not> Lsig_Blank (stLsig s);
          numSigs = count_sigs [hasSig, hasMsig, hasLogicSig];
          src = Src (Txn s) in
      if numSigs = 0 then Err (Errorf ''signedtxn has no sig'')
      else if numSigs > 1 then Err (Errorf ''signedtxn should only have one of Sig or Msig or LogicSig'')
      else if hasSig then
        (if vTxn W src (strip_cache (Txn s)) (stSig s) then Ok ()
         else Err (Errorf ''signature validation failed''))
      else if hasMsig then
        (if fst (MultisigVerify (vHash W) (vTxn W) (strip_cache (Txn s)) src (stMsig s)) then Ok ()
         else Err (Errorf ''multisig validation failed''))
      else if hasLogicSig then LogicSig_verify W (stLsig s) proto s
      else Err (Errorf ''has one mystery sig. WAT?''))"

definition Txn_verify ::
    "verifiers \<Rightarrow> SignedTxn \<Rightarrow> SpecialAddresses \<Rightarrow> ConsensusParams \<Rightarrow> (goerror, unit) result" where
  "Txn_verify W s spec proto =
     res_bind (WellFormed spec proto (Txn s)) (\<lambda>_.
     if Src (Txn s) = 0 then Err (Errorf ''empty address'')
     else stxnVerifyCore W s proto)"

definition TxnPool_verify ::
    "verifiers \<Rightarrow> SignedTxn \<Rightarrow> SpecialAddresses \<Rightarrow> ConsensusParams \<Rightarrow> (goerror, unit) result" where
  "TxnPool_verify W s spec proto =
     res_bind (WellFormed spec proto (Txn s)) (\<lambda>_.
     if Src (Txn s) = 0 then Err (Errorf ''empty address'')
     else stxnVerifyCore W s proto)"

section \<open>What an accepted transaction proves\<close>

text \<open>
  The ways in which the owner of the sending address can have agreed to a transaction: a
  signature under the address, a multisignature whose address it is, or a program, which is
  either signed in one of these ways or has the address itself.
\<close>

definition program_authorized :: "verifiers \<Rightarrow> Address \<Rightarrow> LogicSig \<Rightarrow> bool" where
  "program_authorized W src lsig \<longleftrightarrow>
     (if lsSig lsig \<noteq> 0 then Msig_Blank (lsMsig lsig) \<and> vProgram W src (Logic lsig) (lsSig lsig)
      else if Msig_Blank (lsMsig lsig) then src = tcProgramHash (vTeal W) (Logic lsig)
      else msig_valid (vHash W) (vProgram W) (Logic lsig) src (lsMsig lsig))"

definition authorized :: "verifiers \<Rightarrow> SignedTxn \<Rightarrow> bool" where
  "authorized W s \<longleftrightarrow>
     (let src = Src (Txn s) in
      if stSig s \<noteq> 0 then
        Msig_Blank (stMsig s) \<and> Lsig_Blank (stLsig s) \<and> vTxn W src (strip_cache (Txn s)) (stSig s)
      else if \<not> Msig_Blank (stMsig s) then
        Lsig_Blank (stLsig s) \<and> msig_valid (vHash W) (vTxn W) (strip_cache (Txn s)) src (stMsig s)
      else \<not> Lsig_Blank (stLsig s) \<and> program_authorized W src (stLsig s))"

lemma LogicSig_verify_Ok:
  assumes "LogicSig_verify W lsig proto stxn = Ok u"
  shows "program_authorized W (Src (Txn stxn)) lsig"
    and "\<exists>c. Check (Logic lsig) \<lparr>epTxn = stxn, epProto = Some proto, epTxnGroup = [], epGroupIndex = 0,
             epFirstValidTimeStamp = 0\<rparr> = Ok c \<and> int c \<le> sint (LogicSigMaxCost proto)"
    and "word_of_int (Lsig_Len lsig) \<le> LogicSigMaxSize proto"
  using assms unfolding LogicSig_verify_def
  by (auto simp: act_simps program_authorized_def count_sigs_def Src_def MultisigVerify_iff Let_def
      split: if_splits prod.splits)

lemma stxnVerifyCore_Ok: "stxnVerifyCore W s proto = Ok u \<Longrightarrow> authorized W s"
  by (auto simp: stxnVerifyCore_def authorized_def count_sigs_def MultisigVerify_iff Let_def
      dest: LogicSig_verify_Ok(1) split: if_splits)

lemma stxnVerifyCore_logic:
  "stxnVerifyCore W s proto = Ok u \<Longrightarrow> \<not> Lsig_Blank (stLsig s) \<Longrightarrow> LogicSig_verify W (stLsig s) proto s = Ok u"
  by (auto simp: stxnVerifyCore_def count_sigs_def Let_def split: if_splits)

lemma stxnVerifyCore_cases:
  assumes "Lsig_Blank (stLsig s)"
  shows "stxnVerifyCore W s proto = Ok () \<longleftrightarrow> authorized W s"
  using assms
  by (auto simp: stxnVerifyCore_def authorized_def count_sigs_def MultisigVerify_iff Let_def split: if_splits)

end
