(* ===== verification/Totals.thy ===== *)
theory Totals
  imports Apply
begin

text \<open>
  Running totals of the money and reward units of all accounts, by account status
  (\<open>ledger/totals.go\<close>).

  \<open>totals_ok\<close> is what the running totals stand for: sums over all accounts.  Each operation is
  shown to compute the new sums from the old ones.
\<close>

section \<open>Operations\<close>

record AlgoCount =
  acMoney :: MicroAlgos
  acRewardUnits :: u64

record AccountTotals =
  atOnline :: AlgoCount
  atOffline :: AlgoCount
  atNotParticipating :: AlgoCount
  atRewardsLevel :: u64

definition AlgoCount_applyRewards :: "u64 \<Rightarrow> AlgoCount \<Rightarrow> OverflowTracker \<Rightarrow> AlgoCount \<times> OverflowTracker" where
  "AlgoCount_applyRewards rewardsPerUnit ac ot =
     (let (rewardsGottenThisRound, ot1) = ot_Mul (acRewardUnits ac) rewardsPerUnit ot;
          (money, ot2) = ot_AddA (acMoney ac) rewardsGottenThisRound ot1 in
      (ac\<lparr>acMoney := money\<rparr>, ot2))"

text \<open>\<open>statusField\<close> returns a pointer to the field of a status: reading and writing through it.\<close>

definition statusField :: "Status \<Rightarrow> AccountTotals \<Rightarrow> (goerror, AlgoCount) result" where
  "statusField status at =
     (case status of
        Online \<Rightarrow> Ok (atOnline at)
      | Offline \<Rightarrow> Ok (atOffline at)
      | NotParticipating \<Rightarrow> Ok (atNotParticipating at)
      | StatusOther _ \<Rightarrow> Panic (Errorf ''AccountTotals: unknown status''))"

definition set_statusField :: "Status \<Rightarrow> AlgoCount \<Rightarrow> AccountTotals \<Rightarrow> AccountTotals" where
  "set_statusField status ac at =
     (case status of
        Online \<Rightarrow> at\<lparr>atOnline := ac\<rparr>
      | Offline \<Rightarrow> at\<lparr>atOffline := ac\<rparr>
      | NotParticipating \<Rightarrow> at\<lparr>atNotParticipating := ac\<rparr>
      | StatusOther _ \<Rightarrow> at)"

definition addAccount ::
    "ConsensusParams \<Rightarrow> AccountData \<Rightarrow> AccountTotals \<times> OverflowTracker \<Rightarrow> (goerror, AccountTotals \<times> OverflowTracker) result" where
  "addAccount proto data = (\<lambda>(at, ot).
     res_bind (statusField (acctStatus data) at) (\<lambda>sum.
     res_bind (Money proto (atRewardsLevel at) data) (\<lambda>(algos, _).
     let (money, ot1) = ot_AddA (acMoney sum) algos ot in
     res_bind (RewardUnits proto (acctMicroAlgos data)) (\<lambda>u.
     let (units, ot2) = ot_Add (acRewardUnits sum) u ot1 in
     Ok (set_statusField (acctStatus data) \<lparr>acMoney = money, acRewardUnits = units\<rparr> at, ot2)))))"

definition delAccount ::
    "ConsensusParams \<Rightarrow> AccountData \<Rightarrow> AccountTotals \<times> OverflowTracker \<Rightarrow> (goerror, AccountTotals \<times> OverflowTracker) result" where
  "delAccount proto data = (\<lambda>(at, ot).
     res_bind (statusField (acctStatus data) at) (\<lambda>sum.
     res_bind (Money proto (atRewardsLevel at) data) (\<lambda>(algos, _).
     let (money, ot1) = ot_SubA (acMoney sum) algos ot in
     res_bind (RewardUnits proto (acctMicroAlgos data)) (\<lambda>u.
     let (units, ot2) = ot_Sub (acRewardUnits sum) u ot1 in
     Ok (set_statusField (acctStatus data) \<lparr>acMoney = money, acRewardUnits = units\<rparr> at, ot2)))))"

definition Totals_applyRewards :: "u64 \<Rightarrow> AccountTotals \<times> OverflowTracker \<Rightarrow> AccountTotals \<times> OverflowTracker" where
  "Totals_applyRewards lvl = (\<lambda>(at, ot).
     let (rewardsPerUnit, ot1) = ot_Sub lvl (atRewardsLevel at) ot;
         (online, ot2) = AlgoCount_applyRewards rewardsPerUnit (atOnline at) ot1;
         (offline, ot3) = AlgoCount_applyRewards rewardsPerUnit (atOffline at) ot2 in
     (at\<lparr>atRewardsLevel := lvl, atOnline := online, atOffline := offline\<rparr>, ot3))"

definition Participating :: "AccountTotals \<Rightarrow> (goerror, MicroAlgos) result" where
  "Participating at =
     (let (res, overflowed) = OAddA (acMoney (atOnline at)) (acMoney (atOffline at)) in
      if overflowed then Panic (Errorf ''AccountTotals.Participating(): overflow'') else Ok res)"

definition All :: "AccountTotals \<Rightarrow> (goerror, MicroAlgos) result" where
  "All at =
     res_bind (Participating at) (\<lambda>participating.
     let (res, overflowed) = OAddA (acMoney (atNotParticipating at)) participating in
     if overflowed then Panic (Errorf ''AccountTotals.All(): overflow'') else Ok res)"

definition Totals_RewardUnits :: "AccountTotals \<Rightarrow> (goerror, u64) result" where
  "Totals_RewardUnits at =
     (let (res, overflowed) = OAdd (acRewardUnits (atOnline at)) (acRewardUnits (atOffline at)) in
      if overflowed then Panic (Errorf ''AccountTotals.RewardUnits(): overflow'') else Ok res)"

section \<open>What the totals stand for\<close>

definition units :: "ConsensusParams \<Rightarrow> AccountData \<Rightarrow> nat" where
  "units p u = unat (acctMicroAlgos u) div unat (RewardUnit p)"

definition of_status :: "Status \<Rightarrow> (AccountData \<Rightarrow> nat) \<Rightarrow> AccountData \<Rightarrow> nat" where
  "of_status st f u = (if acctStatus u = st then f u else 0)"

definition sum_status :: "Status \<Rightarrow> (AccountData \<Rightarrow> nat) \<Rightarrow> accounts \<Rightarrow> nat" where
  "sum_status st f m = (\<Sum>a\<in>UNIV. of_status st f (m a))"

definition count_ok :: "ConsensusParams \<Rightarrow> u64 \<Rightarrow> accounts \<Rightarrow> Status \<Rightarrow> AlgoCount \<Rightarrow> bool" where
  "count_ok p lvl m st ac \<longleftrightarrow>
     unat (acMoney ac) = sum_status st (worth p lvl) m \<and> unat (acRewardUnits ac) = sum_status st (units p) m"

definition known_status :: "accounts \<Rightarrow> bool" where
  "known_status m \<longleftrightarrow> (\<forall>a. acctStatus (m a) \<in> {Online, Offline, NotParticipating})"

definition totals_ok :: "ConsensusParams \<Rightarrow> accounts \<Rightarrow> AccountTotals \<Rightarrow> bool" where
  "totals_ok p m at \<longleftrightarrow> known_status m \<and>
     count_ok p (atRewardsLevel at) m Online (atOnline at) \<and>
     count_ok p (atRewardsLevel at) m Offline (atOffline at) \<and>
     count_ok p (atRewardsLevel at) m NotParticipating (atNotParticipating at)"

lemma sum_status_upd:
  "sum_status st f (m(a := u)) + of_status st f (m a) = sum_status st f m + of_status st f u"
  unfolding sum_status_def by (rule sum_fun_upd_UNIV)

lemma sum_status_total:
  assumes "known_status m"
  shows "sum_status Online f m + sum_status Offline f m + sum_status NotParticipating f m = (\<Sum>a\<in>UNIV. f (m a))"
proof -
  have "of_status Online f (m a) + of_status Offline f (m a) + of_status NotParticipating f (m a) = f (m a)" for a
    using assms by (auto simp: of_status_def known_status_def)
  then show ?thesis by (simp add: sum_status_def sum.distrib [symmetric])
qed

text \<open>
  The books without one account: the running totals in between \<open>delAccount\<close> and \<open>addAccount\<close>.
\<close>

definition count_without :: "ConsensusParams \<Rightarrow> u64 \<Rightarrow> accounts \<Rightarrow> Address \<Rightarrow> Status \<Rightarrow> AlgoCount \<Rightarrow> bool" where
  "count_without p lvl m a st ac \<longleftrightarrow>
     unat (acMoney ac) + of_status st (worth p lvl) (m a) = sum_status st (worth p lvl) m \<and>
     unat (acRewardUnits ac) + of_status st (units p) (m a) = sum_status st (units p) m"

definition totals_without :: "ConsensusParams \<Rightarrow> accounts \<Rightarrow> Address \<Rightarrow> AccountTotals \<Rightarrow> bool" where
  "totals_without p m a at \<longleftrightarrow>
     count_without p (atRewardsLevel at) m a Online (atOnline at) \<and>
     count_without p (atRewardsLevel at) m a Offline (atOffline at) \<and>
     count_without p (atRewardsLevel at) m a NotParticipating (atNotParticipating at)"

lemma count_without_zero: "acctStatus (m a) \<noteq> st \<Longrightarrow> count_without p lvl m a st ac \<longleftrightarrow> count_ok p lvl m st ac"
  by (simp add: count_without_def count_ok_def of_status_def)

lemma Money_worth:
  "Money p lvl u = Ok (x, y) \<Longrightarrow> unat x = worth p lvl u"
  by (auto simp: Money_def act_simps WithUpdatedRewards_OkD(1))

lemma RewardUnits_units: "RewardUnits p (acctMicroAlgos u) = Ok n \<Longrightarrow> unat n = units p u"
  by (auto simp: RewardUnits_def units_def unat_div split: if_splits)

lemma ot_Sub_ok: "ot_Sub a b t = (r, t') \<Longrightarrow> \<not> Overflowed t' \<Longrightarrow> unat r + unat b = unat a \<and> \<not> Overflowed t"
  using ot_note_ok [of "OSub a b" t r t'] OSub_nat [of a b r] by (simp add: ot_Sub_def)

lemma ot_Add_ok: "ot_Add a b t = (r, t') \<Longrightarrow> \<not> Overflowed t' \<Longrightarrow> unat r = unat a + unat b \<and> \<not> Overflowed t"
  using ot_note_ok [of "OAdd a b" t r t'] OAdd_nat [of a b r] by (simp add: ot_Add_def)

lemma ot_Mul_ok: "ot_Mul a b t = (r, t') \<Longrightarrow> \<not> Overflowed t' \<Longrightarrow> unat r = unat a * unat b \<and> \<not> Overflowed t"
  using ot_note_ok [of "OMul a b" t r t'] OMul_nat [of a b r] by (simp add: ot_Mul_def)

lemmas ot_ok = ot_Sub_ok ot_Add_ok ot_Mul_ok

lemma delAccount_ok:
  assumes "delAccount p (m a) (at, ot) = Ok (at', ot')" and "\<not> Overflowed ot'" and "totals_ok p m at"
  shows "totals_without p m a at' \<and> atRewardsLevel at' = atRewardsLevel at \<and> \<not> Overflowed ot"
proof -
  from assms(1) obtain sum algos z money ot1 u un where
    s: "statusField (acctStatus (m a)) at = Ok sum" and mo: "Money p (atRewardsLevel at) (m a) = Ok (algos, z)" and
    su: "ot_Sub (acMoney sum) algos ot = (money, ot1)" and ru: "RewardUnits p (acctMicroAlgos (m a)) = Ok u" and
    un: "ot_Sub (acRewardUnits sum) u ot1 = (un, ot')" and
    at': "at' = set_statusField (acctStatus (m a)) \<lparr>acMoney = money, acRewardUnits = un\<rparr> at"
    by (auto simp: delAccount_def act_simps Let_def ot_SubA_def case_prod_unfold intro!: that surjective_pairing)
  note n = ot_Sub_ok [OF un assms(2)] ot_Sub_ok [OF su] Money_worth [OF mo] RewardUnits_units [OF ru]
  show ?thesis
    using s assms(3) n unfolding at' totals_without_def totals_ok_def
    by (cases "acctStatus (m a)")
      (auto simp: statusField_def set_statusField_def count_without_def count_ok_def of_status_def)
qed

lemma addAccount_ok:
  assumes "addAccount p u (at, ot) = Ok (at', ot')" and "\<not> Overflowed ot'" and "totals_without p m a at" and "known_status m"
  shows "totals_ok p (m(a := u)) at' \<and> atRewardsLevel at' = atRewardsLevel at \<and> \<not> Overflowed ot"
proof -
  from assms(1) obtain sum algos z money ot1 r un where
    s: "statusField (acctStatus u) at = Ok sum" and mo: "Money p (atRewardsLevel at) u = Ok (algos, z)" and
    su: "ot_Add (acMoney sum) algos ot = (money, ot1)" and ru: "RewardUnits p (acctMicroAlgos u) = Ok r" and
    un: "ot_Add (acRewardUnits sum) r ot1 = (un, ot')" and
    at': "at' = set_statusField (acctStatus u) \<lparr>acMoney = money, acRewardUnits = un\<rparr> at"
    by (auto simp: addAccount_def act_simps Let_def ot_AddA_def case_prod_unfold intro!: that surjective_pairing)
  note n = ot_Add_ok [OF un assms(2)] ot_Add_ok [OF su] Money_worth [OF mo] RewardUnits_units [OF ru]
  have upd: "sum_status st f (m(a := u)) + of_status st f (m a) = sum_status st f m + of_status st f u" for st f
    by (rule sum_status_upd)
  have known: "known_status (m(a := u))"
    using assms(4) s by (cases "acctStatus u") (auto simp: known_status_def statusField_def)
  show ?thesis
    using s assms(3) n upd [of Online "worth p (atRewardsLevel at)"] upd [of Online "units p"]
      upd [of Offline "worth p (atRewardsLevel at)"] upd [of Offline "units p"]
      upd [of NotParticipating "worth p (atRewardsLevel at)"] upd [of NotParticipating "units p"] known
    unfolding at' totals_without_def totals_ok_def
    by (cases "acctStatus u")
      (auto simp: statusField_def set_statusField_def count_without_def count_ok_def of_status_def)
qed

section \<open>A new rewards level\<close>

lemma worth_level:
  assumes "RewardsBase u \<le> lvl" and "lvl \<le> lvl'"
  shows "worth p lvl' u = worth p lvl u +
    (if acctStatus u = NotParticipating then 0 else units p u * (unat lvl' - unat lvl))"
proof -
  have "unat lvl' - unat (RewardsBase u) = (unat lvl - unat (RewardsBase u)) + (unat lvl' - unat lvl)"
    using assms by (simp add: word_le_nat_alt)
  then show ?thesis by (simp add: worth_def pending_rewards_def units_def algebra_simps)
qed

definition bases_below :: "u64 \<Rightarrow> accounts \<Rightarrow> bool" where
  "bases_below lvl m \<longleftrightarrow> (\<forall>a. acctStatus (m a) \<noteq> NotParticipating \<longrightarrow> RewardsBase (m a) \<le> lvl)"

lemma sum_status_level:
  assumes "bases_below lvl m" and "lvl \<le> lvl'"
  shows "sum_status st (worth p lvl') m = sum_status st (worth p lvl) m +
    (if st = NotParticipating then 0 else sum_status st (units p) m * (unat lvl' - unat lvl))"
proof -
  have "of_status st (worth p lvl') (m a) = of_status st (worth p lvl) (m a) +
      (if st = NotParticipating then 0 else of_status st (units p) (m a) * (unat lvl' - unat lvl))" for a
  proof (cases "st = NotParticipating")
    case True
    then show ?thesis by (simp add: of_status_def worth_def pending_rewards_def)
  next
    case False
    then show ?thesis using assms worth_level [of "m a" lvl lvl' p]
      by (auto simp: of_status_def bases_below_def)
  qed
  then show ?thesis by (simp add: sum_status_def sum.distrib sum_distrib_right)
qed

lemma Totals_applyRewards_ok:
  assumes run: "Totals_applyRewards lvl (at, ot) = (at', ot')" and "\<not> Overflowed ot'"
    and "totals_ok p m at" and "bases_below (atRewardsLevel at) m"
  shows "totals_ok p m at' \<and> atRewardsLevel at' = lvl \<and> atRewardsLevel at \<le> lvl \<and> \<not> Overflowed ot"
proof -
  obtain d ot1 where d: "ot_Sub lvl (atRewardsLevel at) ot = (d, ot1)" by force
  obtain r1 t1 where r1: "ot_Mul (acRewardUnits (atOnline at)) d ot1 = (r1, t1)" by force
  obtain m1 ot2 where m1: "ot_Add (acMoney (atOnline at)) r1 t1 = (m1, ot2)" by force
  obtain r2 t2 where r2: "ot_Mul (acRewardUnits (atOffline at)) d ot2 = (r2, t2)" by force
  obtain m2 ot3 where m2: "ot_Add (acMoney (atOffline at)) r2 t2 = (m2, ot3)" by force
  have at': "at' = at\<lparr>atRewardsLevel := lvl, atOnline := (atOnline at)\<lparr>acMoney := m1\<rparr>,
      atOffline := (atOffline at)\<lparr>acMoney := m2\<rparr>\<rparr>" and ot': "ot' = ot3"
    using run d r1 m1 r2 m2 by (simp_all add: Totals_applyRewards_def AlgoCount_applyRewards_def ot_AddA_def)
  note n5 = ot_Add_ok [OF m2] note n4 = ot_Mul_ok [OF r2] note n3 = ot_Add_ok [OF m1] note n2 = ot_Mul_ok [OF r1]
  note n1 = ot_Sub_ok [OF d]
  have n: "unat d + unat (atRewardsLevel at) = unat lvl" "unat r1 = unat (acRewardUnits (atOnline at)) * unat d"
      "unat m1 = unat (acMoney (atOnline at)) + unat r1" "unat r2 = unat (acRewardUnits (atOffline at)) * unat d"
      "unat m2 = unat (acMoney (atOffline at)) + unat r2" "\<not> Overflowed ot"
    using n1 n2 n3 n4 n5 assms(2) ot' by auto
  have le: "atRewardsLevel at \<le> lvl" and dd: "unat lvl - unat (atRewardsLevel at) = unat d"
    using n(1) by (simp_all add: word_le_nat_alt)
  show ?thesis
    using assms(3) n le
    unfolding at' totals_ok_def count_ok_def
    by (auto simp: sum_status_level [OF assms(4) le] dd)
qed

section \<open>The sums\<close>

lemma All_total_worth:
  assumes "totals_ok p m at" and "All at = Ok x"
  shows "unat x = total_worth p (atRewardsLevel at) m"
proof -
  from assms(2) obtain y where y: "OAdd (acMoney (atOnline at)) (acMoney (atOffline at)) = (y, False)"
      "OAdd (acMoney (atNotParticipating at)) y = (x, False)"
    by (auto simp: All_def Participating_def OAddA_def act_simps Let_def case_prod_unfold prod_eq_iff split: if_splits)
  have "unat x = sum_status Online (worth p (atRewardsLevel at)) m + sum_status Offline (worth p (atRewardsLevel at)) m +
      sum_status NotParticipating (worth p (atRewardsLevel at)) m"
    using OAdd_nat [OF y(1)] OAdd_nat [OF y(2)] assms(1) by (simp add: totals_ok_def count_ok_def)
  then show ?thesis using sum_status_total [of m] assms(1) by (simp add: totals_ok_def total_worth_def)
qed

definition participating_units :: "ConsensusParams \<Rightarrow> accounts \<Rightarrow> nat" where
  "participating_units p m = sum_status Online (units p) m + sum_status Offline (units p) m"

lemma Totals_RewardUnits_sum:
  assumes "totals_ok p m at" and "Totals_RewardUnits at = Ok x"
  shows "unat x = participating_units p m"
  using assms OAdd_nat [of "acRewardUnits (atOnline at)" "acRewardUnits (atOffline at)" x]
  by (auto simp: Totals_RewardUnits_def totals_ok_def count_ok_def participating_units_def split: prod.splits if_splits)

lemma total_worth_level:
  assumes "known_status m" and "bases_below lvl m" and "lvl \<le> lvl'"
  shows "total_worth p lvl' m = total_worth p lvl m + participating_units p m * (unat lvl' - unat lvl)"
  using sum_status_total [OF assms(1), of "worth p lvl'"] sum_status_total [OF assms(1), of "worth p lvl"]
    sum_status_level [OF assms(2,3), of Online p] sum_status_level [OF assms(2,3), of Offline p]
    sum_status_level [OF assms(2,3), of NotParticipating p]
  by (simp add: total_worth_def participating_units_def algebra_simps)

end
