(* ===== verification/Evaluator.thy ===== *)
theory Evaluator
  imports Cow Verify Totals
begin

text \<open>
  The block evaluator (\<open>ledger/eval.go\<close>): it starts from the ledger after the previous block,
  withdraws the rewards of the new block, applies transaction groups one at a time on a
  copy-on-write child of its state, and generates or validates a block.

  The ledger and the cache of verified transactions are Go interfaces and stand as records of
  their methods; the cache is mutable, so its state is a type parameter and its methods take and
  return that state.  The lengths of encodings, the hashes and the signature schemes are
  parameters.  \<open>evalAux\<close> is an empty struct and the verification pool only schedules
  \<open>stxnVerifyCore\<close>; neither is represented.
\<close>

section \<open>Data\<close>

record 'c VerifiedTxnCache =
  cacheState :: 'c
  cacheVerified :: "'c \<Rightarrow> SignedTxn \<Rightarrow> bool"
  cacheEvalOk :: "'c \<Rightarrow> ConsensusVersion \<Rightarrow> Txid \<Rightarrow> bool \<times> goerror option"
  cacheEvalRemember :: "ConsensusVersion \<Rightarrow> Txid \<Rightarrow> goerror option \<Rightarrow> 'c \<Rightarrow> 'c"

record ledgerForEvaluator =
  leGenesisHash :: Digest
  leBlockHdr :: "Round \<Rightarrow> (goerror, BlockHeader) result"
  leLookup :: "Round \<Rightarrow> Address \<Rightarrow> (goerror, AccountData) result"
  leTotals :: "Round \<Rightarrow> (goerror, AccountTotals) result"
  leIsDup :: "ConsensusParams \<Rightarrow> Round \<Rightarrow> Round \<Rightarrow> Round \<Rightarrow> Txid \<Rightarrow> txlease \<Rightarrow> (goerror, bool) result"
  leLookupWithoutRewards :: "Round \<Rightarrow> Address \<Rightarrow> (goerror, AccountData) result"
  leGetAssetCreatorForRound :: "Round \<Rightarrow> AssetIndex \<Rightarrow> (goerror, Address) result"

record roundCowBase =
  baseL :: ledgerForEvaluator
  baseRnd :: Round
  baseTxnCount :: u64
  baseProto :: ConsensusParams

record 'c BlockEvaluator =
  evState :: roundCowState
  evValidate :: bool
  evGenerate :: bool
  evTxcache :: "'c VerifiedTxnCache option"
  evPrevHeader :: BlockHeader
  evProto :: ConsensusParams
  evGenesisHash :: Digest
  evBlock :: Block
  evBlockTxBytes :: int
  evL :: ledgerForEvaluator

record ValidatedBlock =
  vbBlk :: Block
  vbDelta :: StateDelta

record eval_env =
  eeHashes :: Hashes
  eeVerifiers :: verifiers
  eeEncodeTxib :: "SignedTxnInBlock \<Rightarrow> nat"
  eeEncodeTxsib :: "SignedSingleTxnInBlock \<Rightarrow> nat"

definition base_as_parent :: "roundCowBase \<Rightarrow> roundCowParent" where
  "base_as_parent x =
     \<lparr>parent_lookup = leLookupWithoutRewards (baseL x) (baseRnd x),
      parent_isDup = leIsDup (baseL x) (baseProto x) (baseRnd x + 1),
      parent_txnCounter = baseTxnCount x,
      parent_getAssetCreator = leGetAssetCreatorForRound (baseL x) (baseRnd x)\<rparr>"

text \<open>An error wrapped in a message of its own.\<close>

definition wrap_err :: "string \<Rightarrow> (goerror, 'a) result \<Rightarrow> (goerror, 'a) result" where
  "wrap_err msg r = (case r of Err _ \<Rightarrow> Err (Errorf msg) | _ \<Rightarrow> r)"

definition nil_dereference :: goerror where
  "nil_dereference = Errorf ''invalid memory address or nil pointer dereference''"

section \<open>One transaction\<close>

type_synonym 'c tx_state = "roundCowState \<times> 'c VerifiedTxnCache option"

definition on_cow :: "(roundCowState, goerror, 'a) act \<Rightarrow> ('c tx_state, goerror, 'a) act" where
  "on_cow m = (\<lambda>(cow, c). let (r, cow') = m cow in (r, (cow', c)))"

definition eval_spec :: "Block \<Rightarrow> SpecialAddresses" where
  "eval_spec blk =
     \<lparr>spFeeSink = FeeSink (bhRewards (blkHeader blk)), spRewardsPool = RewardsPool (bhRewards (blkHeader blk))\<rparr>"

definition txlease_of :: "Transaction \<Rightarrow> txlease" where
  "txlease_of txn = \<lparr>sender = Sender (txHeader txn), lease = Lease (txHeader txn)\<rparr>"

definition checkLogicSig ::
    "eval_env \<Rightarrow> 'c BlockEvaluator \<Rightarrow> SignedTxn \<Rightarrow> SignedTxnWithAD list \<Rightarrow> nat \<Rightarrow> (goerror, unit) result" where
  "checkLogicSig env eval txn txgroup groupIndex =
     (let h = txHeader (Txn txn) in
      if FirstValid h = 0 then Err (Errorf ''LogicSig does not work with FirstValid==0'')
      else
        res_bind (wrap_err ''could not fetch BlockHdr for FirstValid-1'' (leBlockHdr (evL eval) (FirstValid h - 1))) (\<lambda>hd.
        if TimeStamp hd <s 0 then Err (Errorf ''cannot evaluate LogicSig before 1970'')
        else
          res_bind (wrap_err ''rejected by logic err'' (Eval (vTeal (eeVerifiers env)) (Logic (stLsig txn))
              \<lparr>epTxn = txn, epProto = Some (evProto eval), epTxnGroup = txgroup,
               epGroupIndex = int groupIndex, epFirstValidTimeStamp = TimeStamp hd\<rparr>)) (\<lambda>pass.
          if pass then Ok () else Err (Errorf ''rejected by logic''))))"

text \<open>The logic signature part of the checks, with its cache.\<close>

definition check_lsig_cached ::
    "eval_env \<Rightarrow> 'c BlockEvaluator \<Rightarrow> SignedTxn \<Rightarrow> SignedTxnWithAD list \<Rightarrow> nat \<Rightarrow> ('c tx_state, goerror, unit) act" where
  "check_lsig_cached env eval txn txgroup groupIndex = (\<lambda>(cow, c).
     let txid = SignedTxn_ID (txnHash (eeHashes env)) txn;
         cv = CurrentProtocol (bhUpgradeState (blkHeader (evBlock eval))) in
     case c of
       None \<Rightarrow> (Panic nil_dereference, (cow, c))
     | Some vc \<Rightarrow>
         (case cacheEvalOk vc (cacheState vc) cv txid of
            (True, None) \<Rightarrow> (Ok (), (cow, c))
          | (True, Some txErr) \<Rightarrow> (Err txErr, (cow, c))
          | (False, _) \<Rightarrow>
              (case checkLogicSig env eval txn txgroup groupIndex of
                 Ok _ \<Rightarrow> (Ok (), (cow, Some (vc\<lparr>cacheState := cacheEvalRemember vc cv txid None (cacheState vc)\<rparr>)))
               | r \<Rightarrow> (r, (cow, c)))))"

definition check_signed ::
    "eval_env \<Rightarrow> 'c BlockEvaluator \<Rightarrow> SignedTxn \<Rightarrow> 'c VerifiedTxnCache option \<Rightarrow> (goerror, unit) result" where
  "check_signed env eval txn c =
     (if (case c of None \<Rightarrow> True | Some vc \<Rightarrow> \<not> cacheVerified vc (cacheState vc) txn)
      then wrap_err ''failed to verify'' (TxnPool_verify (eeVerifiers env) txn (eval_spec (evBlock eval)) (evProto eval))
      else Ok ())"

definition validate_txn ::
    "eval_env \<Rightarrow> 'c BlockEvaluator \<Rightarrow> SignedTxn \<Rightarrow> SignedTxnWithAD list \<Rightarrow> nat \<Rightarrow> ('c tx_state, goerror, unit) act" where
  "validate_txn env eval txn txgroup groupIndex =
     (let tx = Txn txn; h = txHeader tx; txid = SignedTxn_ID (txnHash (eeHashes env)) txn in
      act_bind (act_lift (Alive (block_context (evBlock eval)) h)) (\<lambda>_.
      act_bind (\<lambda>(cow, c). (cow_isDup cow (First tx) (Last tx) txid (txlease_of tx), (cow, c))) (\<lambda>dup.
      act_bind (act_guard (\<not> dup) (TransactionInLedgerError txid)) (\<lambda>_.
      act_bind (act_lift (wrap_err ''malformed'' (WellFormed (eval_spec (evBlock eval)) (evProto eval) tx))) (\<lambda>_.
      act_bind (\<lambda>(cow, c). (check_signed env eval txn c, (cow, c))) (\<lambda>_.
      act_bind (act_guard (Group h = 0 \<or> SupportTxGroups (evProto eval)) (Errorf ''transaction groups not supported'')) (\<lambda>_.
      act_when (\<not> Lsig_Blank (stLsig txn)) (check_lsig_cached env eval txn txgroup groupIndex))))))))"

definition check_applyData :: "'c BlockEvaluator \<Rightarrow> ApplyData \<Rightarrow> ApplyData \<Rightarrow> (goerror, unit) result" where
  "check_applyData eval ad applyData =
     (if evValidate eval \<and> \<not> evGenerate eval then
        (if cpApplyData (evProto eval) then
           (if ad \<noteq> applyData then Err (Errorf ''applyData mismatch'') else Ok ())
         else if ad \<noteq> ApplyData_zero then Err (Errorf ''applyData not supported'') else Ok ())
      else Ok ())"

definition effectiveMinBalance :: "ConsensusParams \<Rightarrow> AccountData \<Rightarrow> u64" where
  "effectiveMinBalance proto d = MulSaturate (MinBalance proto) (of_nat (1 + glen (acctAssets d)))"

fun check_balances ::
    "'c BlockEvaluator \<Rightarrow> SpecialAddresses \<Rightarrow> roundCowState \<Rightarrow> Address list \<Rightarrow> (goerror, unit) result" where
  "check_balances eval spec cow [] = Ok ()"
| "check_balances eval spec cow (addr # rest) =
     (if addr = spFeeSink spec \<or> addr = spRewardsPool spec then check_balances eval spec cow rest
      else
        res_bind (cow_lookup cow addr) (\<lambda>data.
        if AccountData_IsZero data then check_balances eval spec cow rest
        else
          res_bind (WithUpdatedRewards (evProto eval) (rewardsLevel cow) data) (\<lambda>dataNew.
          if acctMicroAlgos dataNew < effectiveMinBalance (evProto eval) dataNew
          then Err (Errorf ''balance below min'')
          else check_balances eval spec cow rest)))"

definition transaction ::
    "eval_env \<Rightarrow> 'c BlockEvaluator \<Rightarrow> SignedTxn \<Rightarrow> ApplyData \<Rightarrow> SignedTxnWithAD list \<Rightarrow> nat
     \<Rightarrow> ('c tx_state, goerror, SignedTxnInBlock) act" where
  "transaction env eval txn ad txgroup groupIndex =
     (let spec = eval_spec (evBlock eval) in
      act_bind (act_when (evValidate eval) (validate_txn env eval txn txgroup groupIndex)) (\<lambda>_.
      act_bind (on_cow (\<lambda>cow. let (r, cow') = Transaction_Apply cowBalances (Txn txn) spec (txnCounter cow) cow in
                           (wrap_err ''transaction'' r, cow'))) (\<lambda>applyData.
      act_bind (act_lift (check_applyData eval ad applyData)) (\<lambda>_.
      act_bind (act_lift (EncodeSignedTxn (blkHeader (evBlock eval)) txn applyData)) (\<lambda>txib.
      act_bind (on_cow (\<lambda>cow. (check_balances eval spec cow (modifiedAccounts cow), cow))) (\<lambda>_.
      act_bind (on_cow (act_modify (addTx (txnHash (eeHashes env)) (Txn txn)))) (\<lambda>_.
      act_return txib)))))))"

section \<open>Groups\<close>

text \<open>The hash of a transaction without its group field and caches.\<close>

definition ungrouped_hash :: "Hashes \<Rightarrow> Transaction \<Rightarrow> Digest" where
  "ungrouped_hash Hs tx = txnHash Hs (ResetCaches (tx\<lparr>txHeader := (txHeader tx)\<lparr>Group := 0\<rparr>\<rparr>))"

text \<open>The checks on the group field inside the loop: the hashes collected so far, extended.\<close>

definition group_member ::
    "Hashes \<Rightarrow> Digest \<Rightarrow> nat \<Rightarrow> Transaction \<Rightarrow> Digest list \<Rightarrow> (goerror, Digest list) result" where
  "group_member Hs first n tx hashes =
     (let g = Group (txHeader tx) in
      if g \<noteq> first then Err (Errorf ''transactionGroup: inconsistent group values'')
      else if g \<noteq> 0 then Ok (hashes @ [ungrouped_hash Hs tx])
      else if n > 1 then Err (Errorf ''transactionGroup: had zero Group but was submitted in a group'')
      else Ok hashes)"

definition group_complete :: "Hashes \<Rightarrow> Digest \<Rightarrow> Digest list \<Rightarrow> (goerror, unit) result" where
  "group_complete Hs first hashes =
     (if hashes \<noteq> [] \<and> first \<noteq> groupHash Hs \<lparr>TxGroupHashes = hashes\<rparr>
      then Err (Errorf ''transactionGroup: incomplete group'') else Ok ())"

definition group_of :: "SignedTxnWithAD \<Rightarrow> Digest" where
  "group_of txad = Group (txHeader (Txn (adSignedTxn txad)))"

fun group_loop ::
    "eval_env \<Rightarrow> 'c BlockEvaluator \<Rightarrow> SignedTxnWithAD list \<Rightarrow> nat \<Rightarrow> SignedTxnWithAD list
     \<Rightarrow> SignedTxnInBlock list \<Rightarrow> Digest list \<Rightarrow> int
     \<Rightarrow> ('c tx_state, goerror, SignedTxnInBlock list \<times> Digest list \<times> int) act" where
  "group_loop env eval txgroup gi [] txibs hashes groupTxBytes = act_return (txibs, hashes, groupTxBytes)"
| "group_loop env eval txgroup gi (txad # rest) txibs hashes groupTxBytes =
     act_bind (transaction env eval (adSignedTxn txad) (adApplyData txad) txgroup gi) (\<lambda>txib.
     let bytes = (if evValidate eval then groupTxBytes + int (eeEncodeTxib env txib) else groupTxBytes) in
     act_bind (act_guard (\<not> (evValidate eval \<and> evBlockTxBytes eval + bytes > MaxTxnBytesPerBlock (evProto eval))) ErrNoSpace) (\<lambda>_.
     act_bind (act_lift (group_member (eeHashes env) (group_of (hd txgroup)) (length txgroup)
                 (Txn (adSignedTxn txad)) hashes)) (\<lambda>hashes'.
     group_loop env eval txgroup (gi + 1) rest (txibs @ [txib]) hashes' bytes)))"

definition remember_group ::
    "roundCowState \<Rightarrow> SignedTxnInBlock list \<Rightarrow> int \<Rightarrow> 'c BlockEvaluator \<Rightarrow> 'c BlockEvaluator" where
  "remember_group cow txibs groupTxBytes eval =
     eval\<lparr>evBlock := (evBlock eval)\<lparr>blkPayset := blkPayset (evBlock eval) @ txibs\<rparr>,
          evBlockTxBytes := evBlockTxBytes eval + groupTxBytes,
          evState := commitToParent cow (evState eval)\<rparr>"

definition transactionGroup ::
    "eval_env \<Rightarrow> SignedTxnWithAD list \<Rightarrow> bool \<Rightarrow> ('c BlockEvaluator, goerror, unit) act" where
  "transactionGroup env txgroup remember eval =
     (if txgroup = [] then (Ok (), eval)
      else if int (length txgroup) > MaxTxGroupSize (evProto eval) then
        (Err (Errorf ''group size exceeds maximum''), eval)
      else
        case group_loop env eval txgroup 0 txgroup [] [] 0 (child (evState eval), evTxcache eval) of
          (r, (cow, c)) \<Rightarrow>
            let eval1 = eval\<lparr>evTxcache := c\<rparr> in
            (case r of
               Err e \<Rightarrow> (Err e, eval1)
             | Panic e \<Rightarrow> (Panic e, eval1)
             | Ok (txibs, hashes, groupTxBytes) \<Rightarrow>
                 (case group_complete (eeHashes env) (group_of (hd txgroup)) hashes of
                    Ok _ \<Rightarrow> (Ok (), if remember then remember_group cow txibs groupTxBytes eval1 else eval1)
                  | f \<Rightarrow> (f, eval1))))"

definition eval_Transaction :: "eval_env \<Rightarrow> SignedTxn \<Rightarrow> ApplyData \<Rightarrow> ('c BlockEvaluator, goerror, unit) act" where
  "eval_Transaction env txn ad = transactionGroup env [\<lparr>adSignedTxn = txn, adApplyData = ad\<rparr>] True"

definition TransactionGroup :: "eval_env \<Rightarrow> SignedTxnWithAD list \<Rightarrow> ('c BlockEvaluator, goerror, unit) act" where
  "TransactionGroup env txads = transactionGroup env txads True"

text \<open>A transaction for the proxied application: the application's answer is a parameter.\<close>

definition transactionSingle ::
    "eval_env \<Rightarrow> (Tx \<Rightarrow> bool) \<Rightarrow> Tx \<Rightarrow> bool \<Rightarrow> ('c BlockEvaluator, goerror, unit) act" where
  "transactionSingle env checkTx tx remember eval =
     (let cow = child (evState eval);
          txsib = \<lparr>sibTx = tx, sibHasGenesisID = True, sibHasGenesisHash = True\<rparr>;
          groupTxBytes = (if evValidate eval then int (eeEncodeTxsib env txsib) else 0) in
      if \<not> checkTx tx then (Err (Errorf ''proxy app check tx not valid''), eval)
      else if evValidate eval \<and> evBlockTxBytes eval + groupTxBytes > MaxTxnBytesPerBlock (evProto eval)
      then (Err ErrNoSpace, eval)
      else (Ok (),
        if remember then
          eval\<lparr>evBlock := (evBlock eval)\<lparr>blkPayProxySet := blkPayProxySet (evBlock eval) @ [txsib]\<rparr>,
               evBlockTxBytes := evBlockTxBytes eval + groupTxBytes,
               evState := commitToParent cow (evState eval)\<rparr>
        else eval))"

definition TransactionSingle :: "eval_env \<Rightarrow> (Tx \<Rightarrow> bool) \<Rightarrow> Tx \<Rightarrow> ('c BlockEvaluator, goerror, unit) act" where
  "TransactionSingle env checkTx tx = transactionSingle env checkTx tx True"

definition testTransaction ::
    "eval_env \<Rightarrow> 'c BlockEvaluator \<Rightarrow> SignedTxn \<Rightarrow> roundCowState \<Rightarrow> (goerror, unit) result" where
  "testTransaction env eval txn cow =
     (let tx = Txn txn; h = txHeader tx; txid = SignedTxn_ID (txnHash (eeHashes env)) txn in
      if Group h \<noteq> 0 \<and> \<not> SupportTxGroups (evProto eval) then Err (Errorf ''transaction groups not supported'')
      else
        res_bind (Alive (block_context (evBlock eval)) h) (\<lambda>_.
        res_bind (wrap_err ''malformed'' (WellFormed (eval_spec (evBlock eval)) (evProto eval) tx)) (\<lambda>_.
        res_bind (cow_isDup cow (First tx) (Last tx) txid (txlease_of tx)) (\<lambda>dup.
        if dup then Err (TransactionInLedgerError txid) else Ok ()))))"

fun test_loop ::
    "eval_env \<Rightarrow> 'c BlockEvaluator \<Rightarrow> roundCowState \<Rightarrow> Digest \<Rightarrow> nat \<Rightarrow> SignedTxn list \<Rightarrow> Digest list
     \<Rightarrow> (goerror, Digest list) result" where
  "test_loop env eval cow first n [] hashes = Ok hashes"
| "test_loop env eval cow first n (txn # rest) hashes =
     res_bind (testTransaction env eval txn cow) (\<lambda>_.
     res_bind (group_member (eeHashes env) first n (Txn txn) hashes) (\<lambda>hashes'.
     test_loop env eval cow first n rest hashes'))"

definition TestTransactionGroup ::
    "eval_env \<Rightarrow> 'c BlockEvaluator \<Rightarrow> SignedTxn list \<Rightarrow> (goerror, unit) result" where
  "TestTransactionGroup env eval txgroup =
     (if txgroup = [] then Ok ()
      else if int (length txgroup) > MaxTxGroupSize (evProto eval) then Err (Errorf ''group size exceeds maximum'')
      else
        let first = Group (txHeader (Txn (hd txgroup))) in
        res_bind (test_loop env eval (child (evState eval)) first (length txgroup) txgroup []) (\<lambda>hashes.
        group_complete (eeHashes env) first hashes))"

section \<open>Starting\<close>

text \<open>
  The two string literals of the workaround, decoded: the genesis hash of testnet and the address
  of its bank.
\<close>

definition testnetGenesisHash :: Digest where
  "testnetGenesisHash = 0x4863b518a4b3c84ec810f22d4f1081cb0f71f059a7ac20dec62f7f70e5093a22"

definition testnetBankAddr :: Address where
  "testnetBankAddr = 0x30fdcc231b9d8c3609af7f7bb1e5ef8f963a48b07213528defbd886d96ae4884"

definition workaroundOverspentRewards ::
    "Digest \<Rightarrow> Address \<Rightarrow> BalanceRecord \<Rightarrow> Round \<Rightarrow> (roundCowState, goerror, BalanceRecord) act" where
  "workaroundOverspentRewards genesisHash pool rewardPoolBalance headerRound =
     (if headerRound \<noteq> 1499995 \<and> headerRound \<noteq> 2926564 then act_return rewardPoolBalance
      else if genesisHash \<noteq> testnetGenesisHash then act_return rewardPoolBalance
      else
        act_bind (\<lambda>s. let (r, s') = cow_Move testnetBankAddr pool 20000000000 None None s in
                     (wrap_err ''unable to move funds from testnet bank to incentive pool'' r, s')) (\<lambda>_.
        cow_Get pool True))"

text \<open>Withdrawing the rewards of the block from the incentive pool.\<close>

definition withdraw_rewards ::
    "ConsensusParams \<Rightarrow> Digest \<Rightarrow> BlockHeader \<Rightarrow> BlockHeader \<Rightarrow> AccountTotals \<Rightarrow> (roundCowState, goerror, unit) act" where
  "withdraw_rewards proto genesisHash bh prevHeader prevTotals =
     (let (rewardsPerUnit, ot1) = ot_Sub (RewardsLevel (bhRewards bh)) (RewardsLevel (bhRewards prevHeader)) ot_new;
          poolAddr = RewardsPool (bhRewards prevHeader) in
      if Overflowed ot1 then act_err (Errorf ''overflowed subtracting rewards levels'')
      else
        act_bind (cow_Get poolAddr True) (\<lambda>poolOld.
        act_bind (workaroundOverspentRewards genesisHash poolAddr poolOld (bhRound bh)) (\<lambda>poolOld.
        act_bind (act_lift (Totals_RewardUnits prevTotals)) (\<lambda>units.
        let (owed, ot2) = ot_Mul units rewardsPerUnit ot1;
            (algos, ot3) = ot_SubA (acctMicroAlgos (brData poolOld)) owed ot2 in
        if Overflowed ot3 then act_err (Errorf ''overflowed subtracting reward unit'')
        else
          act_bind (cow_Put (poolOld\<lparr>brData := (brData poolOld)\<lparr>acctMicroAlgos := algos\<rparr>\<rparr>)) (\<lambda>_.
          let (_, ot4) = ot_SubA algos (MinBalance proto) ot3 in
          act_guard (\<not> Overflowed ot4) (Errorf ''overflowed subtracting rewards''))))))"

definition check_header ::
    "Hashes \<Rightarrow> ConsensusParams \<Rightarrow> Digest \<Rightarrow> BlockHeader \<Rightarrow> BlockHeader \<Rightarrow> MicroAlgos \<Rightarrow> AccountTotals \<Rightarrow> (goerror, unit) result" where
  "check_header Hs proto genesisHash bh prevHeader poolBalance prevTotals =
     res_bind (PreCheck Hs bh prevHeader) (\<lambda>_.
     res_bind (Totals_RewardUnits prevTotals) (\<lambda>units.
     res_bind (NextRewardsState (bhRewards prevHeader) (bhRound bh) proto poolBalance units) (\<lambda>expected.
     if bhRewards bh \<noteq> expected then Err (Errorf ''bad rewards state'')
     else if SupportGenesisHash proto \<and> bhGenesisHash bh \<noteq> genesisHash then Err (Errorf ''wrong genesis hash'')
     else Ok ())))"

definition generated_header ::
    "ConsensusParams \<Rightarrow> Digest \<Rightarrow> BlockHeader \<Rightarrow> BlockHeader \<Rightarrow> MicroAlgos \<Rightarrow> AccountTotals \<Rightarrow> (goerror, BlockHeader) result" where
  "generated_header proto genesisHash bh prevHeader poolBalance prevTotals =
     (let bh1 = (if SupportGenesisHash proto then bh\<lparr>bhGenesisHash := genesisHash\<rparr> else bh) in
      res_bind (Totals_RewardUnits prevTotals) (\<lambda>units.
      res_bind (NextRewardsState (bhRewards prevHeader) (bhRound bh) proto poolBalance units) (\<lambda>rs.
      Ok (bh1\<lparr>bhRewards := rs\<rparr>))))"

definition startEvaluator ::
    "eval_env \<Rightarrow> ledgerForEvaluator \<Rightarrow> BlockHeader \<Rightarrow> bool \<Rightarrow> bool \<Rightarrow> 'c VerifiedTxnCache option
     \<Rightarrow> (goerror, 'c BlockEvaluator) result" where
  "startEvaluator env l bh validate generate txcache =
     (case Consensus (CurrentProtocol (bhUpgradeState bh)) of
        None \<Rightarrow> Err (ProtocolError (CurrentProtocol (bhUpgradeState bh)))
      | Some proto \<Rightarrow>
          res_bind (if bhRound bh > 0
                    then wrap_err ''can't evaluate block without previous header'' (leBlockHdr l (bhRound bh - 1))
                    else Ok BlockHeader_zero) (\<lambda>prevHeader.
          let base = \<lparr>baseL = l, baseRnd = bhRound bh - 1,
                      baseTxnCount = (if bhRound bh > 0 then TxnCounter prevHeader else 0), baseProto = proto\<rparr>;
              poolAddr = RewardsPool (bhRewards prevHeader) in
          res_bind (leTotals l (bhRound prevHeader)) (\<lambda>prevTotals.
          res_bind (leLookup l (bhRound prevHeader) poolAddr) (\<lambda>incentivePoolData.
          res_bind (if generate
                    then generated_header proto (leGenesisHash l) bh prevHeader (acctMicroAlgos incentivePoolData) prevTotals
                    else Ok bh) (\<lambda>bh'.
          let state = makeRoundCowState (base_as_parent base) bh' in
          res_bind (if validate
                    then check_header (eeHashes env) proto (leGenesisHash l) bh' prevHeader
                           (acctMicroAlgos incentivePoolData) prevTotals
                    else Ok ()) (\<lambda>_.
          case withdraw_rewards proto (leGenesisHash l) bh' prevHeader prevTotals state of
            (Ok _, state') \<Rightarrow>
              Ok \<lparr>evState = state', evValidate = validate, evGenerate = generate, evTxcache = txcache,
                  evPrevHeader = prevHeader, evProto = proto, evGenesisHash = leGenesisHash l,
                  evBlock = \<lparr>blkHeader = bh', blkPayset = [], blkPayProxySet = []\<rparr>,
                  evBlockTxBytes = 0, evL = l\<rparr>
          | (Err e, _) \<Rightarrow> Err e
          | (Panic e, _) \<Rightarrow> Panic e))))))"

definition StartEvaluator ::
    "eval_env \<Rightarrow> ledgerForEvaluator \<Rightarrow> BlockHeader \<Rightarrow> 'c VerifiedTxnCache option \<Rightarrow> (goerror, 'c BlockEvaluator) result" where
  "StartEvaluator env l bh txcache = startEvaluator env l bh True True txcache"

definition eval_Round :: "'c BlockEvaluator \<Rightarrow> Round" where
  "eval_Round eval = Block_Round (evBlock eval)"

definition ResetTxnBytes :: "'c BlockEvaluator \<Rightarrow> 'c BlockEvaluator" where
  "ResetTxnBytes eval = eval\<lparr>evBlockTxBytes := 0\<rparr>"

section \<open>Finishing\<close>

definition expected_counter :: "'c BlockEvaluator \<Rightarrow> u64" where
  "expected_counter eval = (if cpTxnCounter (evProto eval) then txnCounter (evState eval) else 0)"

definition set_root :: "'c BlockEvaluator \<Rightarrow> Digest \<Rightarrow> 'c BlockEvaluator" where
  "set_root eval txnRoot =
     eval\<lparr>evBlock := (evBlock eval)\<lparr>blkHeader := (blkHeader (evBlock eval))\<lparr>
        TxnRoot := txnRoot, TxnCounter := expected_counter eval\<rparr>\<rparr>\<rparr>"

definition endOfBlock :: "eval_env \<Rightarrow> 'c BlockEvaluator \<Rightarrow> (goerror, 'c BlockEvaluator) result" where
  "endOfBlock env eval =
     (if evGenerate eval then
        res_bind (Payset_Commit (eeHashes env) (blkPayset (evBlock eval)) (PaysetCommitFlat (evProto eval)))
          (\<lambda>txnRoot. Ok (set_root eval txnRoot))
      else Ok eval)"

definition endOfProxyBlock :: "eval_env \<Rightarrow> 'c BlockEvaluator \<Rightarrow> (goerror, 'c BlockEvaluator) result" where
  "endOfProxyBlock env eval =
     (if evGenerate eval then
        res_bind (PayProxySet_Commit (eeHashes env) (blkPayProxySet (evBlock eval)) (PaysetCommitFlat (evProto eval)))
          (\<lambda>txnRoot. Ok (set_root eval txnRoot))
      else Ok eval)"

definition check_commitments :: "'c BlockEvaluator \<Rightarrow> Digest \<Rightarrow> (goerror, unit) result" where
  "check_commitments eval txnRoot =
     (if txnRoot \<noteq> TxnRoot (blkHeader (evBlock eval)) then Err (Errorf ''txn txnRoot wrong'')
      else if TxnCounter (blkHeader (evBlock eval)) \<noteq> expected_counter eval then
        Err (Errorf ''txn count wrong'')
      else Ok ())"

definition finalValidation :: "eval_env \<Rightarrow> 'c BlockEvaluator \<Rightarrow> (goerror, unit) result" where
  "finalValidation env eval =
     (if evValidate eval then
        res_bind (Payset_Commit (eeHashes env) (blkPayset (evBlock eval)) (PaysetCommitFlat (evProto eval)))
          (check_commitments eval)
      else Ok ())"

definition finalProxyValidation :: "eval_env \<Rightarrow> 'c BlockEvaluator \<Rightarrow> (goerror, unit) result" where
  "finalProxyValidation env eval =
     (if evValidate eval then
        res_bind (PayProxySet_Commit (eeHashes env) (blkPayProxySet (evBlock eval)) (PaysetCommitFlat (evProto eval)))
          (check_commitments eval)
      else Ok ())"

definition GenerateProxyBlock :: "eval_env \<Rightarrow> 'c BlockEvaluator \<Rightarrow> (goerror, ValidatedBlock) result" where
  "GenerateProxyBlock env eval =
     (if \<not> evGenerate eval then Panic (Errorf ''GenerateBlock() called but generate is false'')
      else
        res_bind (endOfProxyBlock env eval) (\<lambda>eval.
        res_bind (finalProxyValidation env eval) (\<lambda>_.
        Ok \<lparr>vbBlk = evBlock eval, vbDelta = mods (evState eval)\<rparr>)))"

definition GenerateBlock :: "eval_env \<Rightarrow> 'c BlockEvaluator \<Rightarrow> (goerror, ValidatedBlock) result" where
  "GenerateBlock env eval =
     (if \<not> evGenerate eval then Panic (Errorf ''GenerateBlock() called but generate is false'')
      else
        res_bind (endOfBlock env eval) (\<lambda>eval.
        res_bind (finalValidation env eval) (\<lambda>_.
        Ok \<lparr>vbBlk = evBlock eval, vbDelta = mods (evState eval)\<rparr>)))"

definition GetEvalBlock :: "'c BlockEvaluator \<Rightarrow> Block" where
  "GetEvalBlock eval = evBlock eval"

text \<open>The loop over the groups of a block; \<open>done i\<close> tells whether the context is cancelled before group \<open>i\<close>.\<close>

fun eval_groups ::
    "eval_env \<Rightarrow> (nat \<Rightarrow> bool) \<Rightarrow> nat \<Rightarrow> SignedTxnWithAD list list \<Rightarrow> ('c BlockEvaluator, goerror, unit) act" where
  "eval_groups env ctxDone i [] = act_return ()"
| "eval_groups env ctxDone i (txgroup # rest) =
     (if ctxDone i then act_err (Errorf ''context canceled'')
      else act_bind (TransactionGroup env txgroup) (\<lambda>_. eval_groups env ctxDone (i + 1) rest))"

definition Ledger_eval ::
    "eval_env \<Rightarrow> ledgerForEvaluator \<Rightarrow> (nat \<Rightarrow> bool) \<Rightarrow> Block \<Rightarrow> bool \<Rightarrow> 'c VerifiedTxnCache option
     \<Rightarrow> (goerror, StateDelta) result" where
  "Ledger_eval env l ctxDone blk validate txcache =
     res_bind (startEvaluator env l (blkHeader blk) validate False txcache) (\<lambda>eval.
     res_bind (DecodePaysetGroups blk) (\<lambda>paysetgroups.
     case eval_groups env ctxDone 0 paysetgroups eval of
       (Ok _, eval) \<Rightarrow>
         res_bind (endOfBlock env eval) (\<lambda>eval.
         res_bind (if validate then finalValidation env eval else Ok ()) (\<lambda>_.
         Ok (mods (evState eval))))
     | (Err e, _) \<Rightarrow> Err e
     | (Panic e, _) \<Rightarrow> Panic e))"

definition Validate ::
    "eval_env \<Rightarrow> ledgerForEvaluator \<Rightarrow> (nat \<Rightarrow> bool) \<Rightarrow> Block \<Rightarrow> 'c VerifiedTxnCache option
     \<Rightarrow> (goerror, ValidatedBlock) result" where
  "Validate env l ctxDone blk txcache =
     res_bind (Ledger_eval env l ctxDone blk True txcache) (\<lambda>delta. Ok \<lparr>vbBlk = blk, vbDelta = delta\<rparr>)"

definition ValidatedBlock_WithSeed :: "ValidatedBlock \<Rightarrow> bytes32 \<Rightarrow> ValidatedBlock" where
  "ValidatedBlock_WithSeed vb s = \<lparr>vbBlk = WithSeed (vbBlk vb) s, vbDelta = vbDelta vb\<rparr>"

end
