(* ===== verification/Agreement.thy ===== *)
theory Agreement
  imports Evaluator "HOL-Library.Product_Lexorder"
begin

text \<open>
  Votes, bundles, proposals and events of the agreement protocol (\<open>agreement/types.go\<close>, \<open>selector.go\<close>,
  \<open>vote.go\<close>, \<open>bundle.go\<close>, \<open>proposal.go\<close>, \<open>certificate.go\<close>, \<open>events.go\<close>, \<open>message.go\<close>, \<open>actions.go\<close>)
  and the credentials of committee members (\<open>data/committee/credential.go\<close>).

  The verifiable random function, the one-time signatures, sortition, the codec and the ledger are
  parameters, gathered in \<open>agree_env\<close> and \<open>LedgerReader\<close>.
\<close>

section \<open>Rounds, periods and steps\<close>

type_synonym period = u64
type_synonym step = u64
type_synonym Duration = i64
type_synonym VrfProof = "640 word"
type_synonym VrfOutput = "512 word"
type_synonym Seed = bytes32

definition propose :: step where "propose = 0"
definition soft :: step where "soft = 1"
definition cert :: step where "cert = 2"
definition next_step :: step where "next_step = 3"
definition late :: step where "late = 253"
definition redo :: step where "redo = 254"
definition down :: step where "down = 255"

lemmas step_defs = propose_def soft_def cert_def next_step_def late_def redo_def down_def

text \<open>Durations are nanoseconds in 64 bits.\<close>

definition SmallLambda :: Duration where "SmallLambda = 2000000000"
definition BigLambda :: Duration where "BigLambda = 15000000000"
definition filterTimeout :: Duration where "filterTimeout = 2 * SmallLambda"
definition deadlineTimeout :: Duration where "deadlineTimeout = BigLambda + SmallLambda"
definition partitionStep :: step where "partitionStep = next_step + 3"
definition recoveryExtraTimeout :: Duration where "recoveryExtraTimeout = SmallLambda"

primrec vote_ranges :: "nat \<Rightarrow> Duration \<Rightarrow> Duration \<Rightarrow> Duration \<Rightarrow> Duration \<times> Duration" where
  "vote_ranges 0 extra lower upper = (lower, upper)"
| "vote_ranges (Suc n) extra lower upper = vote_ranges n (extra * 2) upper (upper + extra * 2)"

definition nextVoteRanges :: "step \<Rightarrow> Duration \<times> Duration" where
  "nextVoteRanges s =
     vote_ranges (unat s - unat next_step) recoveryExtraTimeout deadlineTimeout (deadlineTimeout + recoveryExtraTimeout)"

definition threshold :: "step \<Rightarrow> ConsensusParams \<Rightarrow> u64" where
  "threshold s proto =
     (if s = propose then 0
      else if s = soft then SoftCommitteeThreshold proto
      else if s = cert then CertCommitteeThreshold proto
      else if s = late then LateCommitteeThreshold proto
      else if s = redo then RedoCommitteeThreshold proto
      else if s = down then DownCommitteeThreshold proto
      else NextCommitteeThreshold proto)"

definition reachesQuorum :: "step \<Rightarrow> ConsensusParams \<Rightarrow> u64 \<Rightarrow> bool" where
  "reachesQuorum s proto weight =
     (if s = propose then False
      else if s = soft then weight \<ge> SoftCommitteeThreshold proto
      else if s = cert then weight \<ge> CertCommitteeThreshold proto
      else if s = late then weight \<ge> LateCommitteeThreshold proto
      else if s = redo then weight \<ge> RedoCommitteeThreshold proto
      else if s = down then weight \<ge> DownCommitteeThreshold proto
      else weight \<ge> NextCommitteeThreshold proto)"

definition committeeSize :: "step \<Rightarrow> ConsensusParams \<Rightarrow> u64" where
  "committeeSize s proto =
     (if s = propose then NumProposers proto
      else if s = soft then SoftCommitteeSize proto
      else if s = cert then CertCommitteeSize proto
      else if s = late then LateCommitteeSize proto
      else if s = redo then RedoCommitteeSize proto
      else if s = down then DownCommitteeSize proto
      else NextCommitteeSize proto)"

section \<open>Credentials\<close>

record UnauthenticatedCredential =
  Proof :: VrfProof

record hashableCredential =
  RawOut :: VrfOutput
  Member :: Address
  Iter :: u64

record Credential =
  Weight :: u64
  VrfOut :: Digest
  DomainSeparationEnabled :: bool
  Hashable :: hashableCredential
  crUnauthenticated :: UnauthenticatedCredential

record selector =
  selSeed :: Seed
  selRound :: Round
  selPeriod :: period
  selStep :: step

record Membership =
  mbRecord :: BalanceRecord
  mbSelector :: selector
  mbTotalMoney :: MicroAlgos

record OneTimeSignature =
  otSig :: Signature
  otPK :: bytes32
  otPKSigOld :: Signature
  otPK2 :: bytes32
  otPK1Sig :: Signature
  otPK2Sig :: Signature

section \<open>Votes\<close>

record proposalValue =
  pvOriginalPeriod :: period
  pvOriginalProposer :: Address
  BlockDigest :: Digest
  EncodingDigest :: Digest

definition bottom :: proposalValue where
  "bottom = \<lparr>pvOriginalPeriod = 0, pvOriginalProposer = 0, BlockDigest = 0, EncodingDigest = 0\<rparr>"

record rawVote =
  rvSender :: Address
  rvRound :: Round
  rvPeriod :: period
  rvStep :: step
  rvProposal :: proposalValue

record unauthenticatedVote =
  uvR :: rawVote
  uvCred :: UnauthenticatedCredential
  uvSig :: OneTimeSignature

record vote =
  vR :: rawVote
  vCred :: Credential
  vSig :: OneTimeSignature

record unauthenticatedEquivocationVote =
  ueSender :: Address
  ueRound :: Round
  uePeriod :: period
  ueStep :: step
  ueCred :: UnauthenticatedCredential
  ueProposals :: "proposalValue \<times> proposalValue"
  ueSigs :: "OneTimeSignature \<times> OneTimeSignature"

record equivocationVote =
  evSender :: Address
  evRound :: Round
  evPeriod :: period
  evStep :: step
  evCred :: Credential
  evProposals :: "proposalValue \<times> proposalValue"
  evSigs :: "OneTimeSignature \<times> OneTimeSignature"

record voteAuthenticator =
  vaSender :: Address
  vaCred :: UnauthenticatedCredential
  vaSig :: OneTimeSignature

record equivocationVoteAuthenticator =
  eaSender :: Address
  eaCred :: UnauthenticatedCredential
  eaSigs :: "OneTimeSignature \<times> OneTimeSignature"
  eaProposals :: "proposalValue \<times> proposalValue"

record unauthenticatedBundle =
  ubRound :: Round
  ubPeriod :: period
  ubStep :: step
  ubProposal :: proposalValue
  ubVotes :: "voteAuthenticator list"
  ubEquivocationVotes :: "equivocationVoteAuthenticator list"

record Bundle =
  bU :: unauthenticatedBundle
  bVotes :: "vote list"
  bEquivocationVotes :: "equivocationVote list"

record unauthenticatedProposal =
  upBlock :: Block
  SeedProof :: VrfProof
  upOriginalPeriod :: period
  upOriginalProposer :: Address

record proposal =
  prUnauthenticated :: unauthenticatedProposal
  ve :: "ValidatedBlock option"

text \<open>An order on proposal-values, for iterating over maps they index.\<close>

definition pv_key :: "('a::linorder) proposalValue_scheme \<Rightarrow> period \<times> Address \<times> Digest \<times> Digest \<times> 'a" where
  "pv_key p = (pvOriginalPeriod p, pvOriginalProposer p, BlockDigest p, EncodingDigest p, proposalValue.more p)"

lemma pv_key_inject [simp]: "pv_key p = pv_key q \<longleftrightarrow> p = q"
  by (cases p; cases q) (simp add: pv_key_def)

instantiation proposalValue_ext :: (linorder) linorder
begin

definition less_eq_proposalValue_ext :: "'a proposalValue_scheme \<Rightarrow> 'a proposalValue_scheme \<Rightarrow> bool" where
  "less_eq_proposalValue_ext p q \<longleftrightarrow> pv_key p \<le> pv_key q"

definition less_proposalValue_ext :: "'a proposalValue_scheme \<Rightarrow> 'a proposalValue_scheme \<Rightarrow> bool" where
  "less_proposalValue_ext p q \<longleftrightarrow> pv_key p < pv_key q"

instance
  by standard (auto simp: less_eq_proposalValue_ext_def less_proposalValue_ext_def order.strict_iff_order)

end

section \<open>Parameters of the protocol\<close>

record LedgerReader =
  lrConsensusParams :: "Round \<Rightarrow> (goerror, ConsensusParams) result"
  lrBalanceRecord :: "Round \<Rightarrow> Address \<Rightarrow> (goerror, BalanceRecord) result"
  lrCirculation :: "Round \<Rightarrow> (goerror, MicroAlgos) result"
  lrSeed :: "Round \<Rightarrow> (goerror, Seed) result"
  lrLookupDigest :: "Round \<Rightarrow> (goerror, Digest) result"

record agree_env =
  aeHashes :: Hashes
  aePayloadHash :: "unauthenticatedProposal \<Rightarrow> Digest"
  aeCredentialHash :: "hashableCredential \<Rightarrow> Digest"
  aeHash :: "byte list \<Rightarrow> Digest"
  aeProposerSeedHash :: "Address \<Rightarrow> VrfOutput \<Rightarrow> Digest"
  aeSeedHash :: "Seed \<Rightarrow> Digest"
  aeSeedInputHash :: "Digest \<Rightarrow> Digest \<Rightarrow> Seed"
  aeVerifySelector :: "bytes32 \<Rightarrow> VrfProof \<Rightarrow> selector \<Rightarrow> bool \<times> VrfOutput"
  aeVerifySeed :: "bytes32 \<Rightarrow> VrfProof \<Rightarrow> Seed \<Rightarrow> bool \<times> VrfOutput"
  aeProofHash :: "VrfProof \<Rightarrow> VrfOutput option"
  aeVerifyVote :: "bytes32 \<Rightarrow> OneTimeSignatureIdentifier \<Rightarrow> rawVote \<Rightarrow> OneTimeSignature \<Rightarrow> bool"
  aeSelect :: "u64 \<Rightarrow> u64 \<Rightarrow> u64 \<Rightarrow> Digest \<Rightarrow> u64"

text \<open>The secrets of a participant: one-time signing keys and the key of the random function.\<close>

record participant =
  ptKeyDilution :: "ConsensusParams \<Rightarrow> u64"
  ptSign :: "OneTimeSignatureIdentifier \<Rightarrow> rawVote \<Rightarrow> OneTimeSignature"
  ptProveSelector :: "selector \<Rightarrow> VrfProof option"
  ptProveSeed :: "Seed \<Rightarrow> VrfProof option"

definition hashableCredential_zero :: hashableCredential where
  "hashableCredential_zero = \<lparr>RawOut = 0, Member = 0, Iter = 0\<rparr>"

definition Credential_zero :: Credential where
  "Credential_zero = \<lparr>Weight = 0, VrfOut = 0, DomainSeparationEnabled = False, Hashable = hashableCredential_zero,
     crUnauthenticated = \<lparr>Proof = 0\<rparr>\<rparr>"

definition OneTimeSignature_zero :: OneTimeSignature where
  "OneTimeSignature_zero = \<lparr>otSig = 0, otPK = 0, otPKSigOld = 0, otPK2 = 0, otPK1Sig = 0, otPK2Sig = 0\<rparr>"

definition rawVote_zero :: rawVote where
  "rawVote_zero = \<lparr>rvSender = 0, rvRound = 0, rvPeriod = 0, rvStep = 0, rvProposal = bottom\<rparr>"

definition vote_zero :: vote where
  "vote_zero = \<lparr>vR = rawVote_zero, vCred = Credential_zero, vSig = OneTimeSignature_zero\<rparr>"

section \<open>Committee membership\<close>

definition output_bytes :: "VrfOutput \<Rightarrow> byte list" where
  "output_bytes w = map (\<lambda>i. ucast (drop_bit (8 * (63 - i)) w)) [0..<64]"

definition ParamsRound :: "Round \<Rightarrow> Round" where
  "ParamsRound rnd = SubSaturate rnd 2"

definition balanceRound :: "Round \<Rightarrow> ConsensusParams \<Rightarrow> Round" where
  "balanceRound r cparams = SubSaturate r (2 * SeedRefreshInterval cparams * SeedLookback cparams)"

definition seedRound :: "Round \<Rightarrow> ConsensusParams \<Rightarrow> Round" where
  "seedRound r cparams = SubSaturate r (SeedLookback cparams)"

definition CommitteeSize :: "ConsensusParams \<Rightarrow> selector \<Rightarrow> u64" where
  "CommitteeSize proto sel = committeeSize (selStep sel) proto"

definition membership ::
    "LedgerReader \<Rightarrow> Address \<Rightarrow> Round \<Rightarrow> period \<Rightarrow> step \<Rightarrow> (goerror, Membership) result" where
  "membership l addr r p s =
     res_bind (lrConsensusParams l (ParamsRound r)) (\<lambda>cparams.
     res_bind (lrBalanceRecord l (balanceRound r cparams) addr) (\<lambda>rec.
     res_bind (lrCirculation l (balanceRound r cparams)) (\<lambda>circulation.
     res_bind (lrSeed l (seedRound r cparams)) (\<lambda>seed.
     Ok \<lparr>mbRecord = rec, mbSelector = \<lparr>selSeed = seed, selRound = r, selPeriod = p, selStep = s\<rparr>,
         mbTotalMoney = circulation\<rparr>))))"

text \<open>
  Committee sizes are far below \<open>2 ^ 53\<close>, so the comparisons the code makes on floating-point numbers
  are those on the integers.
\<close>

definition Credential_Verify ::
    "agree_env \<Rightarrow> ConsensusParams \<Rightarrow> Membership \<Rightarrow> UnauthenticatedCredential \<Rightarrow> (goerror, Credential) result" where
  "Credential_Verify E proto m cred =
     (let rec = mbRecord m; (ok, vrfOut) = aeVerifySelector E (SelectionID (brData rec)) (Proof cred) (mbSelector m);
          hashable = \<lparr>RawOut = vrfOut, Member = brAddr rec, Iter = 0\<rparr>;
          h = (if CredentialDomainSeparationEnabled proto then aeCredentialHash E hashable
               else aeHash E (output_bytes vrfOut @ array_bytes (brAddr rec)));
          userMoney = VotingStake (brData rec); expectedSelection = CommitteeSize proto (mbSelector m) in
      if \<not> ok then Err (Errorf ''UnauthenticatedCredential.Verify: could not verify VRF Proof'')
      else if mbTotalMoney m < userMoney then Panic (Errorf ''total money below user money'')
      else if mbTotalMoney m = 0 \<or> expectedSelection = 0 \<or> expectedSelection > mbTotalMoney m then
        Panic (Errorf ''bad expectedSelection'')
      else
        let weight = (if userMoney \<noteq> 0 then aeSelect E userMoney (mbTotalMoney m) expectedSelection h else 0) in
        if weight = 0 then Err (Errorf ''UnauthenticatedCredential.Verify: credential has weight 0'')
        else Ok \<lparr>Weight = weight, VrfOut = h, DomainSeparationEnabled = CredentialDomainSeparationEnabled proto,
                 Hashable = (if CredentialDomainSeparationEnabled proto then hashable else hashableCredential_zero),
                 crUnauthenticated = cred\<rparr>)"

definition MakeCredential :: "participant \<Rightarrow> selector \<Rightarrow> UnauthenticatedCredential" where
  "MakeCredential secrets sel =
     (case ptProveSelector secrets sel of None \<Rightarrow> \<lparr>Proof = 0\<rparr> | Some pf \<Rightarrow> \<lparr>Proof = pf\<rparr>)"

definition output_at :: "agree_env \<Rightarrow> Credential \<Rightarrow> u64 \<Rightarrow> Digest" where
  "output_at E cred i =
     (if DomainSeparationEnabled cred then aeCredentialHash E ((Hashable cred)\<lparr>Iter := i\<rparr>)
      else aeHash E (array_bytes (VrfOut cred) @ array_bytes (push_bit 192 (ucast i))))"

text \<open>Digests as big-endian numbers are compared as words.\<close>

primrec lowest_upto :: "agree_env \<Rightarrow> Credential \<Rightarrow> nat \<Rightarrow> Digest" where
  "lowest_upto E cred 0 = 0"
| "lowest_upto E cred (Suc n) =
     (if n = 0 then output_at E cred 0
      else if output_at E cred (of_nat n) < lowest_upto E cred n then output_at E cred (of_nat n)
      else lowest_upto E cred n)"

definition lowestOutput :: "agree_env \<Rightarrow> Credential \<Rightarrow> Digest" where
  "lowestOutput E cred = lowest_upto E cred (unat (Weight cred))"

definition Less :: "agree_env \<Rightarrow> Credential \<Rightarrow> Credential \<Rightarrow> bool" where
  "Less E cred otherCred \<longleftrightarrow> lowestOutput E cred < lowestOutput E otherCred"

definition Credential_Equals :: "Credential \<Rightarrow> Credential \<Rightarrow> bool" where
  "Credential_Equals cred otherCred \<longleftrightarrow> VrfOut cred = VrfOut otherCred"

definition Selected :: "Credential \<Rightarrow> bool" where
  "Selected cred \<longleftrightarrow> Weight cred > 0"

section \<open>Making and verifying votes\<close>

definition check_step_value :: "rawVote \<Rightarrow> (goerror, unit) result" where
  "check_step_value rv =
     (let v = rvProposal rv in
      if rvStep rv = propose \<and> rvPeriod rv = pvOriginalPeriod v \<and> rvSender rv \<noteq> pvOriginalProposer v then
        Err (Errorf ''proposal-vote sender mismatches with proposal-value'')
      else if rvStep rv = propose \<and> pvOriginalPeriod v > rvPeriod rv then
        Err (Errorf ''proposal-vote claims to repropose block from future period'')
      else if rvStep rv \<in> {propose, soft, cert} \<and> v = bottom then
        Err (Errorf ''votes from this step cannot validate bottom'')
      else Ok ())"

definition vote_verify :: "agree_env \<Rightarrow> LedgerReader \<Rightarrow> unauthenticatedVote \<Rightarrow> (goerror, vote) result" where
  "vote_verify E l uv =
     (let rv = uvR uv in
      res_bind (membership l (rvSender rv) (rvRound rv) (rvPeriod rv) (rvStep rv)) (\<lambda>m.
      let d = brData (mbRecord m) in
      res_bind (check_step_value rv) (\<lambda>_.
      res_bind (lrConsensusParams l (ParamsRound (rvRound rv))) (\<lambda>proto.
      if rvRound rv < VoteFirstValid d then Err (Errorf ''vote before VoteFirstValid'')
      else if VoteLastValid d \<noteq> 0 \<and> rvRound rv > VoteLastValid d then Err (Errorf ''vote after VoteLastValid'')
      else
        res_bind (OneTimeIDForRound (rvRound rv) (KeyDilution proto d)) (\<lambda>ephID.
        if \<not> aeVerifyVote E (VoteID d) ephID rv (uvSig uv) then Err (Errorf ''could not verify FS signature on vote'')
        else
          res_bind (Credential_Verify E proto m (uvCred uv)) (\<lambda>cred.
          Ok \<lparr>vR = rv, vCred = cred, vSig = uvSig uv\<rparr>))))))"

definition bad_own_vote :: "ConsensusParams \<Rightarrow> rawVote \<Rightarrow> bool" where
  "bad_own_vote proto rv \<longleftrightarrow>
     (if FastPartitionRecovery proto then
        (rvStep rv \<in> {propose, soft, cert, late, redo} \<and> rvProposal rv = bottom) \<or>
        (rvStep rv = down \<and> rvProposal rv \<noteq> bottom)
      else rvStep rv \<in> {propose, soft, cert} \<and> rvProposal rv = bottom)"

definition makeVote ::
    "participant \<Rightarrow> LedgerReader \<Rightarrow> rawVote \<Rightarrow> (goerror, unauthenticatedVote) result" where
  "makeVote secrets l rv =
     res_bind (membership l (rvSender rv) (rvRound rv) (rvPeriod rv) (rvStep rv)) (\<lambda>m.
     res_bind (lrConsensusParams l (ParamsRound (rvRound rv))) (\<lambda>proto.
     if bad_own_vote proto rv then Panic (Errorf ''makeVote: vote of this step cannot validate this value'')
     else
       res_bind (OneTimeIDForRound (rvRound rv) (ptKeyDilution secrets proto)) (\<lambda>ephID.
       let sig = ptSign secrets ephID rv in
       if sig = OneTimeSignature_zero then Err (Errorf ''makeVote: got back empty signature for vote'')
       else Ok \<lparr>uvR = rv, uvCred = MakeCredential secrets (mbSelector m), uvSig = sig\<rparr>)))"

definition vote_u :: "vote \<Rightarrow> unauthenticatedVote" where
  "vote_u v = \<lparr>uvR = vR v, uvCred = crUnauthenticated (vCred v), uvSig = vSig v\<rparr>"

definition eq_verify ::
    "agree_env \<Rightarrow> LedgerReader \<Rightarrow> unauthenticatedEquivocationVote \<Rightarrow> (goerror, equivocationVote) result" where
  "eq_verify E l pair =
     (if fst (ueProposals pair) = snd (ueProposals pair) then Err (Errorf ''not an equivocation pair: identical vote'')
      else
        let rv = (\<lambda>pv. \<lparr>rvSender = ueSender pair, rvRound = ueRound pair, rvPeriod = uePeriod pair, rvStep = ueStep pair,
                      rvProposal = pv\<rparr>);
            uv0 = \<lparr>uvR = rv (fst (ueProposals pair)), uvCred = ueCred pair, uvSig = fst (ueSigs pair)\<rparr>;
            uv1 = \<lparr>uvR = rv (snd (ueProposals pair)), uvCred = ueCred pair, uvSig = snd (ueSigs pair)\<rparr> in
        res_bind (vote_verify E l uv0) (\<lambda>v0.
        res_bind (vote_verify E l uv1) (\<lambda>_.
        Ok \<lparr>evSender = ueSender pair, evRound = ueRound pair, evPeriod = uePeriod pair, evStep = ueStep pair,
            evCred = vCred v0, evProposals = ueProposals pair, evSigs = ueSigs pair\<rparr>)))"

definition eq_v0 :: "equivocationVote \<Rightarrow> vote" where
  "eq_v0 pair =
     \<lparr>vR = \<lparr>rvSender = evSender pair, rvRound = evRound pair, rvPeriod = evPeriod pair, rvStep = evStep pair,
        rvProposal = fst (evProposals pair)\<rparr>, vCred = evCred pair, vSig = fst (evSigs pair)\<rparr>"

definition eq_v1 :: "equivocationVote \<Rightarrow> vote" where
  "eq_v1 pair =
     \<lparr>vR = \<lparr>rvSender = evSender pair, rvRound = evRound pair, rvPeriod = evPeriod pair, rvStep = evStep pair,
        rvProposal = snd (evProposals pair)\<rparr>, vCred = evCred pair, vSig = snd (evSigs pair)\<rparr>"

section \<open>Bundles\<close>

text \<open>Packing votes until the quorum is reached; the rest is left out.\<close>

fun pack_votes :: "step \<Rightarrow> ConsensusParams \<Rightarrow> u64 \<Rightarrow> vote list \<Rightarrow> voteAuthenticator list \<times> u64" where
  "pack_votes s proto packed [] = ([], packed)"
| "pack_votes s proto packed (v # vs) =
     (if reachesQuorum s proto packed then ([], packed)
      else
        let auth = \<lparr>vaSender = rvSender (vR v), vaCred = crUnauthenticated (vCred v), vaSig = vSig v\<rparr>;
            (auths, packed') = pack_votes s proto (packed + Weight (vCred v)) vs in
        (auth # auths, packed'))"

fun pack_equivocations ::
    "step \<Rightarrow> ConsensusParams \<Rightarrow> u64 \<Rightarrow> equivocationVote list \<Rightarrow> equivocationVoteAuthenticator list \<times> u64" where
  "pack_equivocations s proto packed [] = ([], packed)"
| "pack_equivocations s proto packed (ev # evs) =
     (if reachesQuorum s proto packed then ([], packed)
      else
        let auth = \<lparr>eaSender = evSender ev, eaCred = crUnauthenticated (evCred ev), eaSigs = evSigs ev, eaProposals = evProposals ev\<rparr>;
            (auths, packed') = pack_equivocations s proto (packed + Weight (evCred ev)) evs in
        (auth # auths, packed'))"

definition makeBundle ::
    "ConsensusParams \<Rightarrow> proposalValue \<Rightarrow> vote list \<Rightarrow> equivocationVote list \<Rightarrow> (goerror, unauthenticatedBundle) result" where
  "makeBundle proto targetProposal votes equivocationVotes =
     (case votes of
        [] \<Rightarrow> Panic (Errorf ''makeBundle: no votes present in bundle'')
      | v0 # _ \<Rightarrow>
          let s = rvStep (vR v0) in
          if list_ex (\<lambda>v. rvProposal (vR v) \<noteq> targetProposal) votes then
            Panic (Errorf ''makeBundle: invalid vote passed into function'')
          else
            let (certVotes, packed) = pack_votes s proto 0 votes;
                (certEquiVotes, packed) = pack_equivocations s proto packed equivocationVotes in
            if \<not> reachesQuorum s proto packed then Panic (Errorf ''not enough votes to generate bundle'')
            else Ok \<lparr>ubRound = rvRound (vR v0), ubPeriod = rvPeriod (vR v0), ubStep = s, ubProposal = targetProposal,
                     ubVotes = certVotes, ubEquivocationVotes = certEquiVotes\<rparr>)"

definition auth_vote :: "unauthenticatedBundle \<Rightarrow> voteAuthenticator \<Rightarrow> unauthenticatedVote" where
  "auth_vote b auth =
     \<lparr>uvR = \<lparr>rvSender = vaSender auth, rvRound = ubRound b, rvPeriod = ubPeriod b, rvStep = ubStep b, rvProposal = ubProposal b\<rparr>,
      uvCred = vaCred auth, uvSig = vaSig auth\<rparr>"

definition auth_equivocation ::
    "unauthenticatedBundle \<Rightarrow> equivocationVoteAuthenticator \<Rightarrow> unauthenticatedEquivocationVote" where
  "auth_equivocation b auth =
     \<lparr>ueSender = eaSender auth, ueRound = ubRound b, uePeriod = ubPeriod b, ueStep = ubStep b, ueCred = eaCred auth,
      ueProposals = eaProposals auth, ueSigs = eaSigs auth\<rparr>"

fun verify_all :: "('a \<Rightarrow> (goerror, 'b) result) \<Rightarrow> 'a list \<Rightarrow> (goerror, 'b list) result" where
  "verify_all f [] = Ok []"
| "verify_all f (x # xs) = res_bind (f x) (\<lambda>y. res_bind (verify_all f xs) (\<lambda>ys. Ok (y # ys)))"

text \<open>
  Verification runs on worker threads and collects the results as they come; the sum of weights and
  the outcome do not depend on their order, which is that of the bundle here.
\<close>

definition bundle_verify ::
    "agree_env \<Rightarrow> LedgerReader \<Rightarrow> unauthenticatedBundle \<Rightarrow> (goerror, Bundle) result" where
  "bundle_verify E l b =
     (if ubStep b = propose then Err (Errorf ''unauthenticatedBundle.verify: step is propose'')
      else
        res_bind (lrConsensusParams l (ParamsRound (ubRound b))) (\<lambda>proto.
        let numVotes = of_nat (length (ubVotes b)) :: u64; numEquivocationVotes = of_nat (length (ubEquivocationVotes b)) :: u64;
            limit = threshold (ubStep b) proto in
        if numVotes > limit \<or> numEquivocationVotes > limit \<or> numVotes + numEquivocationVotes > limit then
          Err (Errorf ''unauthenticatedBundle.verify: bundle too large'')
        else if \<not> distinct (map vaSender (ubVotes b) @ map eaSender (ubEquivocationVotes b)) then
          Err (Errorf ''unauthenticatedBundle.verify: vote was duplicated in bundle'')
        else
          res_bind (verify_all (vote_verify E l) (map (auth_vote b) (ubVotes b))) (\<lambda>votes.
          res_bind (verify_all (eq_verify E l) (map (auth_equivocation b) (ubEquivocationVotes b))) (\<lambda>eqVotes.
          if \<not> reachesQuorum (ubStep b) proto
                 (sum_list (map (\<lambda>v. Weight (vCred v)) votes) + sum_list (map (\<lambda>v. Weight (evCred v)) eqVotes)) then
            Err (Errorf ''bundle: did not see enough votes'')
          else Ok \<lparr>bU = b, bVotes = votes, bEquivocationVotes = eqVotes\<rparr>))))"

definition bundle_Certificate :: "unauthenticatedBundle \<Rightarrow> (goerror, unauthenticatedBundle) result" where
  "bundle_Certificate b =
     (if ubStep b \<noteq> cert then Panic (Errorf ''bundle.Certificate: expected step=cert'')
      else if ubProposal b = bottom then Panic (Errorf ''attempted to generate a Certificate for a bottom-bundle'')
      else Ok b)"

definition claimsToAuthenticate :: "Hashes \<Rightarrow> unauthenticatedBundle \<Rightarrow> Block \<Rightarrow> (goerror, unit) result" where
  "claimsToAuthenticate Hs c e =
     (if ubRound c \<noteq> Block_Round e then Err (Errorf ''certificate claims to validate the wrong round'')
      else if BlockDigest (ubProposal c) \<noteq> Block_Digest Hs e then Err (Errorf ''certificate claims to validate the wrong hash'')
      else Ok ())"

definition Authenticate ::
    "agree_env \<Rightarrow> LedgerReader \<Rightarrow> unauthenticatedBundle \<Rightarrow> Block \<Rightarrow> (goerror, unit) result" where
  "Authenticate E l c e =
     (if ubStep c \<noteq> cert then Err (Errorf ''certificate step is not Cert'')
      else
        res_bind (claimsToAuthenticate (aeHashes E) c e) (\<lambda>_.
        res_bind (bundle_verify E l c) (\<lambda>_. Ok ())))"

section \<open>Proposals and seeds\<close>

definition proposal_value :: "agree_env \<Rightarrow> unauthenticatedProposal \<Rightarrow> proposalValue" where
  "proposal_value E p =
     \<lparr>pvOriginalPeriod = upOriginalPeriod p, pvOriginalProposer = upOriginalProposer p,
      BlockDigest = Block_Digest (aeHashes E) (upBlock p), EncodingDigest = aePayloadHash E p\<rparr>"

definition makeProposal :: "ValidatedBlock \<Rightarrow> VrfProof \<Rightarrow> period \<Rightarrow> Address \<Rightarrow> proposal" where
  "makeProposal vb pf origPer origProp =
     \<lparr>prUnauthenticated = \<lparr>upBlock = vbBlk vb, SeedProof = pf, upOriginalPeriod = origPer, upOriginalProposer = origProp\<rparr>,
      ve = Some vb\<rparr>"

text \<open>The part of the seed computation that proposer and verifier share: mixing in an old digest.\<close>

definition seed_history :: "LedgerReader \<Rightarrow> ConsensusParams \<Rightarrow> Round \<Rightarrow> (goerror, Digest) result" where
  "seed_history l cparams rnd =
     (let span = SeedLookback cparams * SeedRefreshInterval cparams in
      if span = 0 then Panic (Errorf ''integer divide by zero'')
      else if rnd mod span < SeedLookback cparams then lrLookupDigest l (SubSaturate rnd span)
      else Ok 0)"

definition vrf_panic :: goerror where
  "vrf_panic = Errorf ''VrfProof.Hash() failed on a proof we ourselves generated''"

text \<open>
  When the consensus parameters cannot be read, the error is assigned to a variable that is not the
  returned one: the call succeeds with a zero seed and proof.
\<close>

definition deriveNewSeed ::
    "agree_env \<Rightarrow> LedgerReader \<Rightarrow> participant \<Rightarrow> Address \<Rightarrow> Round \<Rightarrow> period \<Rightarrow> (goerror, Seed \<times> VrfProof) result" where
  "deriveNewSeed E l vrf address rnd per =
     (case lrConsensusParams l (ParamsRound rnd) of
        Err e \<Rightarrow> Ok (0, 0)
      | Panic e \<Rightarrow> Panic e
      | Ok cparams \<Rightarrow>
          res_bind (lrSeed l (seedRound rnd cparams)) (\<lambda>prevSeed.
          res_bind
            (if per = 0 then
               (case ptProveSeed vrf prevSeed of
                  None \<Rightarrow> Err (Errorf ''could not make seed proof'')
                | Some pf \<Rightarrow>
                    (case aeProofHash E pf of
                       None \<Rightarrow> Panic vrf_panic
                     | Some out \<Rightarrow> Ok (pf, aeProposerSeedHash E address out)))
             else Ok (0, aeSeedHash E prevSeed)) (\<lambda>(pf, alpha).
          res_bind (seed_history l cparams rnd) (\<lambda>history.
          Ok (aeSeedInputHash E alpha history, pf)))))"

definition verifyNewSeed :: "agree_env \<Rightarrow> LedgerReader \<Rightarrow> unauthenticatedProposal \<Rightarrow> (goerror, unit) result" where
  "verifyNewSeed E l p =
     (let val = proposal_value E p; rnd = Block_Round (upBlock p) in
      res_bind (lrConsensusParams l (ParamsRound rnd)) (\<lambda>cparams.
      res_bind (lrBalanceRecord l (balanceRound rnd cparams) (pvOriginalProposer val)) (\<lambda>proposerRecord.
      res_bind (lrSeed l (seedRound rnd cparams)) (\<lambda>prevSeed.
      res_bind
        (if pvOriginalPeriod val = 0 then
           (if \<not> fst (aeVerifySeed E (SelectionID (brData proposerRecord)) (SeedProof p) prevSeed) then
              Err (Errorf ''payload seed proof malformed'')
            else
              case aeProofHash E (SeedProof p) of
                None \<Rightarrow> Panic vrf_panic
              | Some out \<Rightarrow> Ok (aeProposerSeedHash E (brAddr proposerRecord) out))
         else Ok (aeSeedHash E prevSeed)) (\<lambda>alpha.
      res_bind (seed_history l cparams rnd) (\<lambda>history.
      if Seed (blkHeader (upBlock p)) \<noteq> aeSeedInputHash E alpha history then Err (Errorf ''payload seed malformed'')
      else Ok ()))))))"

definition proposalForBlock ::
    "agree_env \<Rightarrow> LedgerReader \<Rightarrow> participant \<Rightarrow> Address \<Rightarrow> ValidatedBlock \<Rightarrow> period \<Rightarrow> (goerror, proposal \<times> proposalValue) result" where
  "proposalForBlock E l vrf address vb per =
     res_bind (deriveNewSeed E l vrf address (Block_Round (vbBlk vb)) per) (\<lambda>(newSeed, seedProof).
     let p = makeProposal (ValidatedBlock_WithSeed vb newSeed) seedProof per address in
     Ok (p, \<lparr>pvOriginalPeriod = per, pvOriginalProposer = address,
            BlockDigest = Block_Digest (aeHashes E) (upBlock (prUnauthenticated p)),
            EncodingDigest = aePayloadHash E (prUnauthenticated p)\<rparr>))"

definition proposal_validate ::
    "agree_env \<Rightarrow> LedgerReader \<Rightarrow> (Block \<Rightarrow> (goerror, ValidatedBlock) result) \<Rightarrow> Round \<Rightarrow> unauthenticatedProposal
     \<Rightarrow> (goerror, proposal) result" where
  "proposal_validate E l validator current p =
     (if Block_Round (upBlock p) \<noteq> current then Err (Errorf ''proposed entry from wrong round'')
      else
        res_bind (verifyNewSeed E l p) (\<lambda>_.
        res_bind (validator (upBlock p)) (\<lambda>vb.
        Ok (makeProposal vb (SeedProof p) (upOriginalPeriod p) (upOriginalProposer p)))))"

section \<open>Events\<close>

datatype eventType = none
  | votePresent | payloadPresent | bundlePresent | voteVerified | payloadVerified | bundleVerified
  | roundInterruption | timeout | fastTimeout
  | softThreshold | certThreshold | nextThreshold
  | proposalCommittable | proposalAccepted
  | voteFiltered | voteMalformed | bundleFiltered | bundleMalformed
  | payloadRejected | payloadMalformed | payloadPipelined | payloadAccepted
  | proposalFrozen | voteAccepted | newRound | newPeriod | readStaging | readPinned
  | voteFilterRequest | voteFilteredStep | nextThresholdStatusRequest | nextThresholdStatus
  | freshestBundleRequest | freshestBundle | dumpVotesRequest | dumpVotes | wrappedAction | checkpointReached

type_synonym serializableError = "string option"

record ConsensusVersionView =
  cvErr :: serializableError
  cvVersion :: ConsensusVersion

record compoundMessage =
  cmVote :: unauthenticatedVote
  cmProposal :: unauthenticatedProposal

text \<open>Handles are opaque; \<open>0\<close> is the handle of a message without a source.\<close>

record message =
  MessageHandle :: nat
  msgTag :: string
  msgVote :: vote
  msgProposal :: proposal
  msgBundle :: Bundle
  UnauthenticatedVote :: unauthenticatedVote
  UnauthenticatedProposal :: unauthenticatedProposal
  UnauthenticatedBundle :: unauthenticatedBundle
  CompoundMessage :: compoundMessage

datatype messageEvent = MessageEvent
  (meT: eventType) (meInput: message) (meErr: serializableError) (meTaskIndex: int)
  (meTail: "messageEvent option") (meCancelled: bool) (meProto: ConsensusVersionView)

record freshnessData =
  PlayerRound :: Round
  PlayerPeriod :: period
  PlayerStep :: step
  PlayerLastConcluding :: step

record thresholdEvent =
  thT :: eventType
  thRound :: Round
  thPeriod :: period
  thStep :: step
  thProposal :: proposalValue
  thBundle :: unauthenticatedBundle

record proposalAcceptedEvent =
  paRound :: Round
  paPeriod :: period
  paProposal :: proposalValue
  paPayload :: proposal
  paPayloadOk :: bool

record payloadProcessedEvent =
  ppT :: eventType
  ppRound :: Round
  ppPeriod :: period
  ppPinned :: bool
  ppProposal :: proposalValue
  ppUnauthenticatedPayload :: unauthenticatedProposal
  ppVote :: vote
  ppErr :: serializableError

record stagingValueEvent =
  svRound :: Round
  svPeriod :: period
  svProposal :: proposalValue
  svPayload :: proposal
  svCommittable :: bool

record pinnedValueEvent =
  pnRound :: Round
  pnProposal :: proposalValue
  pnPayload :: proposal
  pnPayloadOK :: bool

datatype event = EmptyEvent
  | MessageE messageEvent
  | FilterableE messageEvent freshnessData
  | RoundInterruptionE Round ConsensusVersionView
  | TimeoutE eventType u64 Round ConsensusVersionView
  | NewRoundE
  | NewPeriodE period proposalValue
  | VoteAcceptedE vote ConsensusVersion
  | ProposalAcceptedE proposalAcceptedEvent
  | ProposalFrozenE proposalValue
  | CommittableE proposalValue vote
  | PayloadProcessedE payloadProcessedEvent
  | FilteredE eventType serializableError
  | StagingValueE stagingValueEvent
  | PinnedValueE pinnedValueEvent
  | ThresholdE thresholdEvent
  | VoteFilterRequestE rawVote
  | FilteredStepE eventType
  | NextThresholdStatusRequestE
  | NextThresholdStatusE bool proposalValue
  | FreshestBundleRequestE
  | FreshestBundleE bool thresholdEvent
  | DumpVotesRequestE
  | DumpVotesE "unauthenticatedVote list"
  | CheckpointE Round period step serializableError

fun event_t :: "event \<Rightarrow> eventType" where
  "event_t EmptyEvent = none"
| "event_t (MessageE e) = meT e"
| "event_t (FilterableE e f) = meT e"
| "event_t (RoundInterruptionE r v) = roundInterruption"
| "event_t (TimeoutE T n r v) = T"
| "event_t NewRoundE = newRound"
| "event_t (NewPeriodE p v) = newPeriod"
| "event_t (VoteAcceptedE v c) = voteAccepted"
| "event_t (ProposalAcceptedE e) = proposalAccepted"
| "event_t (ProposalFrozenE v) = proposalFrozen"
| "event_t (CommittableE v a) = proposalCommittable"
| "event_t (PayloadProcessedE e) = ppT e"
| "event_t (FilteredE T err) = T"
| "event_t (StagingValueE e) = readStaging"
| "event_t (PinnedValueE e) = readPinned"
| "event_t (ThresholdE e) = thT e"
| "event_t (VoteFilterRequestE v) = voteFilterRequest"
| "event_t (FilteredStepE T) = T"
| "event_t NextThresholdStatusRequestE = nextThresholdStatusRequest"
| "event_t (NextThresholdStatusE b v) = nextThresholdStatus"
| "event_t FreshestBundleRequestE = freshestBundleRequest"
| "event_t (FreshestBundleE b e) = freshestBundle"
| "event_t DumpVotesRequestE = dumpVotesRequest"
| "event_t (DumpVotesE vs) = dumpVotes"
| "event_t (CheckpointE r p s e) = checkpointReached"

subsection \<open>Zero values\<close>

definition unauthenticatedBundle_zero :: unauthenticatedBundle where
  "unauthenticatedBundle_zero =
     \<lparr>ubRound = 0, ubPeriod = 0, ubStep = 0, ubProposal = bottom, ubVotes = [], ubEquivocationVotes = []\<rparr>"

definition thresholdEvent_zero :: thresholdEvent where
  "thresholdEvent_zero = \<lparr>thT = none, thRound = 0, thPeriod = 0, thStep = 0, thProposal = bottom, thBundle = unauthenticatedBundle_zero\<rparr>"

definition Block_zero :: Block where
  "Block_zero = \<lparr>blkHeader = BlockHeader_zero, blkPayset = [], blkPayProxySet = []\<rparr>"

definition unauthenticatedProposal_zero :: unauthenticatedProposal where
  "unauthenticatedProposal_zero = \<lparr>upBlock = Block_zero, SeedProof = 0, upOriginalPeriod = 0, upOriginalProposer = 0\<rparr>"

definition proposal_zero :: proposal where
  "proposal_zero = \<lparr>prUnauthenticated = unauthenticatedProposal_zero, ve = None\<rparr>"

definition payloadProcessedEvent_zero :: payloadProcessedEvent where
  "payloadProcessedEvent_zero = \<lparr>ppT = none, ppRound = 0, ppPeriod = 0, ppPinned = False, ppProposal = bottom,
     ppUnauthenticatedPayload = unauthenticatedProposal_zero, ppVote = vote_zero, ppErr = None\<rparr>"

subsection \<open>Freshness of bundles\<close>

definition threshold_type :: "eventType \<Rightarrow> bool" where
  "threshold_type T \<longleftrightarrow> T \<in> {softThreshold, certThreshold, nextThreshold}"

definition fresherThan :: "thresholdEvent \<Rightarrow> thresholdEvent \<Rightarrow> (goerror, bool) result" where
  "fresherThan e e' =
     (if thT e = none \<and> thT e' = none then Ok True
      else if thT e = none then Ok False
      else if thT e' = none then Ok True
      else if thRound e \<noteq> thRound e' then Panic (Errorf ''round mismatch'')
      else if \<not> threshold_type (thT e') then Panic (Errorf ''bad event'')
      else if \<not> threshold_type (thT e) then Panic (Errorf ''bad event'')
      else if thT e' = certThreshold then Ok False
      else if thT e = softThreshold then Ok (thPeriod e > thPeriod e')
      else if thT e = certThreshold then Ok True
      else if thPeriod e > thPeriod e' then Ok True
      else if thPeriod e < thPeriod e' then Ok False
      else if thT e' = softThreshold then Ok True
      else Ok (thProposal e = bottom \<and> thProposal e' \<noteq> bottom))"

section \<open>Actions\<close>

datatype action = Noop
  | Ignore serializableError nat
  | Disconnect serializableError nat
  | BroadcastBundle unauthenticatedBundle
  | BroadcastPayload compoundMessage
  | BroadcastVotes "unauthenticatedVote list"
  | RelayVote nat unauthenticatedVote
  | RelayBundle nat unauthenticatedBundle
  | RelayPayload nat compoundMessage
  | VerifyVote message Round period int
  | VerifyPayload message Round period bool
  | VerifyBundle message Round period
  | Ensure proposal bool unauthenticatedBundle
  | Rezero Round
  | Attest Round period step proposalValue
  | Assemble Round period
  | Repropose Round period proposalValue
  | Checkpoint Round period step serializableError

fun persistent :: "action \<Rightarrow> bool" where
  "persistent (Attest r p s v) = True"
| "persistent _ = False"

definition ignoreAction :: "messageEvent \<Rightarrow> serializableError \<Rightarrow> action" where
  "ignoreAction e err = Ignore err (MessageHandle (meInput e))"

definition disconnectAction :: "messageEvent \<Rightarrow> serializableError \<Rightarrow> action" where
  "disconnectAction e err = Disconnect err (MessageHandle (meInput e))"

definition verifyVoteAction :: "messageEvent \<Rightarrow> Round \<Rightarrow> period \<Rightarrow> int \<Rightarrow> action" where
  "verifyVoteAction e r p taskIndex = VerifyVote (meInput e) r p taskIndex"

definition verifyPayloadAction :: "messageEvent \<Rightarrow> Round \<Rightarrow> period \<Rightarrow> bool \<Rightarrow> action" where
  "verifyPayloadAction e r p pinned = VerifyPayload (meInput e) r p pinned"

definition verifyBundleAction :: "messageEvent \<Rightarrow> Round \<Rightarrow> period \<Rightarrow> action" where
  "verifyBundleAction e r p = VerifyBundle (meInput e) r p"

end
