(* ===== verification/Vote_Machine.thy ===== *)
theory Vote_Machine
  imports Agreement
begin

text \<open>
  The machine that counts the votes of one step (\<open>agreement/voteTracker.go\<close>): it holds the votes seen,
  the weight behind each proposal-value and the senders that voted twice, and reports the first
  value to reach the quorum together with a bundle of votes that proves it.
\<close>

section \<open>Counting votes\<close>

record proposalVoteCounter =
  pcCount :: u64
  pcVotes :: "(Address, vote) fmap"

record voteTracker =
  Voters :: "(Address, vote) fmap"
  Counts :: "(proposalValue, proposalVoteCounter) fmap"
  Equivocators :: "(Address, equivocationVote) fmap"
  EquivocatorsCount :: u64

definition voteTracker_zero :: voteTracker where
  "voteTracker_zero = \<lparr>Voters = fmempty, Counts = fmempty, Equivocators = fmempty, EquivocatorsCount = 0\<rparr>"

definition counter_of :: "voteTracker \<Rightarrow> proposalValue \<Rightarrow> proposalVoteCounter" where
  "counter_of tracker pv = (case fmlookup (Counts tracker) pv of None \<Rightarrow> \<lparr>pcCount = 0, pcVotes = fmempty\<rparr> | Some c \<Rightarrow> c)"

definition vote_count :: "voteTracker \<Rightarrow> proposalValue \<Rightarrow> u64" where
  "vote_count tracker pv = pcCount (counter_of tracker pv) + EquivocatorsCount tracker"

text \<open>The proposal-values over the threshold; the code panics when it meets a second one.\<close>

definition overThreshold :: "ConsensusParams \<Rightarrow> step \<Rightarrow> voteTracker \<Rightarrow> (goerror, proposalValue option) result" where
  "overThreshold proto s tracker =
     (case filter (\<lambda>pv. reachesQuorum s proto (vote_count tracker pv)) (sorted_list_of_fset (fmdom (Counts tracker))) of
        [] \<Rightarrow> Ok None
      | [pv] \<Rightarrow> Ok (Some pv)
      | _ \<Rightarrow> Panic (Errorf ''voteTracker: more than value reached a threhsold in a given step''))"

fun cut_at_quorum :: "step \<Rightarrow> ConsensusParams \<Rightarrow> ('a \<Rightarrow> u64) \<Rightarrow> u64 \<Rightarrow> 'a list \<Rightarrow> 'a list \<times> u64" where
  "cut_at_quorum s proto w weight [] = ([], weight)"
| "cut_at_quorum s proto w weight (x # xs) =
     (if reachesQuorum s proto weight then ([], weight)
      else let (ys, weight') = cut_at_quorum s proto w (weight + w x) xs in (x # ys, weight'))"

text \<open>The values of a map in the order of its keys: Go visits them in any order.\<close>

definition map_values :: "('k::linorder, 'v) fmap \<Rightarrow> 'v list" where
  "map_values m = map (\<lambda>k. the (fmlookup m k)) (sorted_list_of_fset (fmdom m))"

text \<open>Votes in descending order of weight, then of sender.\<close>

definition votes_sorted :: "(Address, vote) fmap \<Rightarrow> vote list" where
  "votes_sorted m = rev (sort_key (\<lambda>v. (Weight (vCred v), rvSender (vR v))) (map_values m))"

definition equivocations_sorted :: "(Address, equivocationVote) fmap \<Rightarrow> equivocationVote list" where
  "equivocations_sorted m = rev (sort_key (\<lambda>v. (Weight (evCred v), evSender v)) (map_values m))"

definition genBundle ::
    "ConsensusParams \<Rightarrow> voteTracker \<Rightarrow> proposalVoteCounter \<Rightarrow> (goerror, unauthenticatedBundle) result" where
  "genBundle proto tracker proposalVotes =
     (case votes_sorted (pcVotes proposalVotes) of
        [] \<Rightarrow> Panic (Errorf ''index out of range'')
      | v0 # vs \<Rightarrow>
          let (votes, weight) = cut_at_quorum (rvStep (vR v0)) proto (\<lambda>v. Weight (vCred v)) 0 (v0 # vs) in
          (case votes of
             [] \<Rightarrow> Panic (Errorf ''index out of range'')
           | v1 # _ \<Rightarrow>
               let (equiPairs, _) = cut_at_quorum (rvStep (vR v1)) proto (\<lambda>v. Weight (evCred v)) weight
                                      (equivocations_sorted (Equivocators tracker)) in
               makeBundle proto (rvProposal (vR v1)) votes equiPairs))"

definition threshold_event_type :: "step \<Rightarrow> eventType" where
  "threshold_event_type s = (if s = soft then softThreshold else if s = cert then certThreshold else nextThreshold)"

text \<open>What follows a change of the counts: a threshold event if a value has just passed the threshold.\<close>

definition emit_threshold ::
    "ConsensusParams \<Rightarrow> vote \<Rightarrow> proposalValue option \<Rightarrow> voteTracker \<Rightarrow> (goerror, thresholdEvent) result" where
  "emit_threshold proto v overBefore tracker =
     (let rv = vR v in
      res_bind (overThreshold proto (rvStep rv) tracker) (\<lambda>overAfter.
      case overAfter of
        None \<Rightarrow> Ok thresholdEvent_zero
      | Some prop \<Rightarrow>
          if overBefore \<noteq> None then Ok thresholdEvent_zero
          else
            res_bind (genBundle proto tracker (counter_of tracker prop)) (\<lambda>b.
            Ok \<lparr>thT = threshold_event_type (rvStep rv), thRound = rvRound rv, thPeriod = rvPeriod rv, thStep = rvStep rv,
                thProposal = prop, thBundle = b\<rparr>)))"

definition add_vote :: "vote \<Rightarrow> voteTracker \<Rightarrow> voteTracker" where
  "add_vote v tracker =
     (let who = rvSender (vR v); pv = rvProposal (vR v); c = counter_of tracker pv in
      tracker\<lparr>Voters := fmupd who v (Voters tracker),
              Counts := fmupd pv \<lparr>pcCount = pcCount c + Weight (vCred v), pcVotes = fmupd who v (pcVotes c)\<rparr> (Counts tracker)\<rparr>)"

definition drop_counted :: "vote \<Rightarrow> voteTracker \<Rightarrow> voteTracker" where
  "drop_counted oldVote tracker =
     (let pv = rvProposal (vR oldVote); c = counter_of tracker pv in
      if pcCount c \<le> Weight (vCred oldVote) then tracker\<lparr>Counts := fmdrop pv (Counts tracker)\<rparr>
      else tracker\<lparr>Counts := fmupd pv
             \<lparr>pcCount = pcCount c - Weight (vCred oldVote), pcVotes = fmdrop (rvSender (vR oldVote)) (pcVotes c)\<rparr> (Counts tracker)\<rparr>)"

definition mark_equivocator :: "vote \<Rightarrow> vote \<Rightarrow> voteTracker \<Rightarrow> voteTracker" where
  "mark_equivocator oldVote v tracker =
     (let rv = vR oldVote; who = rvSender (vR v) in
      tracker\<lparr>Equivocators := fmupd who
                \<lparr>evSender = rvSender rv, evRound = rvRound rv, evPeriod = rvPeriod rv, evStep = rvStep rv, evCred = vCred oldVote,
                 evProposals = (rvProposal rv, rvProposal (vR v)), evSigs = (vSig oldVote, vSig v)\<rparr> (Equivocators tracker),
              Voters := fmdrop who (Voters tracker)\<rparr>)"

definition accept_vote :: "vote \<Rightarrow> ConsensusVersion \<Rightarrow> (voteTracker, goerror, thresholdEvent) act" where
  "accept_vote v ver tracker =
     (let proto = Consensus_or_zero ver; rv = vR v; who = rvSender rv in
      if fmlookup (Equivocators tracker) who \<noteq> None then (Ok thresholdEvent_zero, tracker)
      else
        case overThreshold proto (rvStep rv) tracker of
          Err e \<Rightarrow> (Err e, tracker)
        | Panic e \<Rightarrow> (Panic e, tracker)
        | Ok overBefore \<Rightarrow>
            (case fmlookup (Voters tracker) who of
               None \<Rightarrow> let tracker' = add_vote v tracker in (emit_threshold proto v overBefore tracker', tracker')
             | Some oldVote \<Rightarrow>
                 if rvProposal (vR oldVote) = rvProposal rv then (Ok thresholdEvent_zero, tracker)
                 else
                   let tracker1 = tracker\<lparr>EquivocatorsCount := EquivocatorsCount tracker + Weight (vCred v)\<rparr> in
                   if reachesQuorum (rvStep rv) proto (EquivocatorsCount tracker1) then
                     (Panic (Errorf ''too many equivocators for step''), tracker1)
                   else
                     let tracker' = mark_equivocator oldVote v (drop_counted oldVote tracker1) in
                     if fmdom (Voters tracker') = {||} then (Ok thresholdEvent_zero, tracker')
                     else (emit_threshold proto v overBefore tracker', tracker')))"

definition filter_vote :: "rawVote \<Rightarrow> voteTracker \<Rightarrow> event" where
  "filter_vote rv tracker =
     (if fmlookup (Equivocators tracker) (rvSender rv) \<noteq> None then FilteredStepE voteFilteredStep
      else
        case fmlookup (Voters tracker) (rvSender rv) of
          Some v \<Rightarrow> if rvProposal rv = rvProposal (vR v) then FilteredStepE voteFilteredStep else EmptyEvent
        | None \<Rightarrow> EmptyEvent)"

definition dump_votes :: "voteTracker \<Rightarrow> unauthenticatedVote list" where
  "dump_votes tracker =
     map vote_u (map_values (Voters tracker)) @
     concat (map (\<lambda>ev. [vote_u (eq_v0 ev), vote_u (eq_v1 ev)]) (map_values (Equivocators tracker)))"

definition bad_event :: goerror where
  "bad_event = Errorf ''bad event type''"

definition voteTracker_handle :: "event \<Rightarrow> (voteTracker, goerror, event) act" where
  "voteTracker_handle e =
     (case e of
        VoteAcceptedE v ver \<Rightarrow> act_bind (accept_vote v ver) (\<lambda>te. act_return (ThresholdE te))
      | VoteFilterRequestE rv \<Rightarrow> act_read (filter_vote rv)
      | DumpVotesRequestE \<Rightarrow> act_bind (act_read dump_votes) (\<lambda>vs. act_return (DumpVotesE vs))
      | _ \<Rightarrow> act_panic bad_event)"

end
