(* ===== verification/Vote_Counting.thy ===== *)
theory Vote_Counting
  imports Vote_Machine
begin

text \<open>
  What the vote tracker (\<open>agreement/voteTracker.go\<close>) counts.  A history is the list of the votes of one
  step in the order they arrived.  Of it, an address supports the value of its first vote until it
  votes for a second one; from then on it is an equivocator and supports every value, as the
  paper-and-pencil definition of a quorum has it.  The tracker, which moves weights between counters,
  tallies exactly this, and the value it finds over the threshold is the one with a quorum.
\<close>

section \<open>What a history of votes supports\<close>

abbreviation vote_by :: "Address \<Rightarrow> vote \<Rightarrow> bool" where
  "vote_by who v \<equiv> rvSender (vR v) = who"

abbreviation vote_value :: "vote \<Rightarrow> proposalValue" where
  "vote_value v \<equiv> rvProposal (vR v)"

definition first_vote :: "vote list \<Rightarrow> Address \<Rightarrow> vote option" where
  "first_vote H who = List.find (vote_by who) H"

text \<open>The first vote of a sender for another value than its first.\<close>

definition clash :: "vote list \<Rightarrow> Address \<Rightarrow> vote option" where
  "clash H who =
     (case first_vote H who of
        None \<Rightarrow> None
      | Some v0 \<Rightarrow> List.find (\<lambda>v. vote_by who v \<and> vote_value v \<noteq> vote_value v0) H)"

definition live :: "vote list \<Rightarrow> proposalValue \<Rightarrow> Address set" where
  "live H pv = {who. clash H who = None \<and> (\<exists>v. first_vote H who = Some v \<and> vote_value v = pv)}"

definition equivs :: "vote list \<Rightarrow> Address set" where
  "equivs H = {who. clash H who \<noteq> None}"

definition voters_of :: "vote list \<Rightarrow> Address set" where
  "voters_of H = (\<lambda>v. rvSender (vR v)) ` set H"

definition weigh :: "(Address \<Rightarrow> u64) \<Rightarrow> Address set \<Rightarrow> nat" where
  "weigh w A = (\<Sum>who\<in>A. unat (w who))"

text \<open>The weight behind a value: its voters, and everybody who voted for two values.\<close>

definition support :: "(Address \<Rightarrow> u64) \<Rightarrow> vote list \<Rightarrow> proposalValue \<Rightarrow> nat" where
  "support w H pv = weigh w (live H pv \<union> equivs H)"

lemma find_snoc: "List.find P (xs @ [x]) = (case List.find P xs of Some y \<Rightarrow> Some y | None \<Rightarrow> if P x then Some x else None)"
  by (induction xs) auto

lemma first_vote_snoc:
  "first_vote (H @ [v]) who = (case first_vote H who of Some u \<Rightarrow> Some u | None \<Rightarrow> if vote_by who v then Some v else None)"
  by (simp add: first_vote_def find_snoc)

lemma first_vote_Some: "first_vote H who = Some v \<Longrightarrow> v \<in> set H \<and> vote_by who v"
  unfolding first_vote_def by (auto simp: find_Some_iff)

lemma clash_Some: "clash H who = Some v \<Longrightarrow>
    v \<in> set H \<and> vote_by who v \<and> (\<exists>v0. first_vote H who = Some v0 \<and> vote_value v \<noteq> vote_value v0)"
  unfolding clash_def by (auto simp: find_Some_iff split: option.splits)

lemma first_vote_None: "first_vote H who = None \<longleftrightarrow> who \<notin> voters_of H"
  unfolding first_vote_def voters_of_def by (auto simp: find_None_iff)

lemma clash_snoc:
  "clash (H @ [v]) who =
     (case clash H who of
        Some u \<Rightarrow> Some u
      | None \<Rightarrow>
          (case first_vote H who of
             None \<Rightarrow> None
           | Some v0 \<Rightarrow> if vote_by who v \<and> vote_value v \<noteq> vote_value v0 then Some v else None))"
proof (cases "first_vote H who")
  case None
  then have "\<forall>u\<in>set H. \<not> vote_by who u"
    by (auto simp: first_vote_None voters_of_def)
  then have "List.find (\<lambda>u. vote_by who u \<and> vote_value u \<noteq> vote_value v) H = None"
    by (auto simp: find_None_iff)
  then show ?thesis
    using None by (simp add: clash_def first_vote_snoc find_snoc)
next
  case (Some v0)
  then show ?thesis
    by (simp add: clash_def first_vote_snoc find_snoc split: option.splits)
qed

lemma first_vote_Nil [simp]: "first_vote [] who = None"
  by (simp add: first_vote_def)

lemma clash_Nil [simp]: "clash [] who = None"
  by (simp add: clash_def)

lemma live_Nil [simp]: "live [] pv = {}"
  by (simp add: live_def)

lemma equivs_Nil [simp]: "equivs [] = {}"
  by (simp add: equivs_def)

lemma voters_finite [simp]: "finite (voters_of H)"
  by (simp add: voters_of_def)

lemma equivs_voters: "equivs H \<subseteq> voters_of H"
  by (auto simp: equivs_def voters_of_def dest: clash_Some)

lemma live_voters: "live H pv \<subseteq> voters_of H"
  by (auto simp: live_def voters_of_def dest!: first_vote_Some)

lemma live_finite [simp]: "finite (live H pv)"
  by (rule finite_subset[OF live_voters voters_finite])

lemma equivs_finite [simp]: "finite (equivs H)"
  by (rule finite_subset[OF equivs_voters voters_finite])

lemma live_equivs: "live H pv \<inter> equivs H = {}"
  by (auto simp: live_def equivs_def)

lemma live_disjoint: "pv \<noteq> pv' \<Longrightarrow> live H pv \<inter> live H pv' = {}"
  by (auto simp: live_def)

lemma weigh_Un: "finite A \<Longrightarrow> finite B \<Longrightarrow> A \<inter> B = {} \<Longrightarrow> weigh w (A \<union> B) = weigh w A + weigh w B"
  by (simp add: weigh_def sum.union_disjoint)

lemma weigh_mono: "finite B \<Longrightarrow> A \<subseteq> B \<Longrightarrow> weigh w A \<le> weigh w B"
  by (simp add: weigh_def sum_mono2)

lemma weigh_insert: "finite A \<Longrightarrow> who \<notin> A \<Longrightarrow> weigh w (insert who A) = unat (w who) + weigh w A"
  by (simp add: weigh_def)

lemma weigh_empty [simp]: "weigh w {} = 0"
  by (simp add: weigh_def)

lemma support_split: "support w H pv = weigh w (live H pv) + weigh w (equivs H)"
  by (simp add: support_def weigh_Un live_equivs)

lemma support_le: "support w H pv \<le> weigh w (voters_of H)"
  unfolding support_def by (intro weigh_mono) (use live_voters equivs_voters in auto)

lemma two_supports:
  assumes "pv \<noteq> pv'"
  shows "support w H pv + support w H pv' \<le> weigh w (voters_of H) + weigh w (equivs H)"
proof -
  have "live H pv \<inter> (live H pv' \<union> equivs H) = {}"
    using live_equivs[of H pv] live_disjoint[OF assms, of H] by blast
  then have "weigh w (live H pv) + (weigh w (live H pv') + weigh w (equivs H)) = weigh w (live H pv \<union> (live H pv' \<union> equivs H))"
    by (simp add: weigh_Un live_equivs)
  also have "\<dots> \<le> weigh w (voters_of H)"
    by (intro weigh_mono) (use live_voters equivs_voters in auto)
  finally show ?thesis
    by (simp add: support_split)
qed

section \<open>One more vote\<close>

lemma equivs_grow: "equivs H \<subseteq> equivs (H @ [v])"
  by (auto simp: equivs_def clash_snoc)

lemma backers_grow: "live H pv \<union> equivs H \<subseteq> live (H @ [v]) pv \<union> equivs (H @ [v])"
proof
  fix who assume "who \<in> live H pv \<union> equivs H"
  then consider u where "first_vote H who = Some u" "clash H who = None" "vote_value u = pv" | "who \<in> equivs H"
    by (auto simp: live_def)
  then show "who \<in> live (H @ [v]) pv \<union> equivs (H @ [v])"
  proof cases
    case 1
    then show ?thesis
      by (cases "clash (H @ [v]) who") (auto simp: equivs_def live_def first_vote_snoc)
  qed (use equivs_grow in blast)
qed

lemma support_grows: "support w H pv \<le> support w (H @ [v]) pv"
  unfolding support_def by (intro weigh_mono backers_grow) auto

lemma equiv_weight_grows: "weigh w (equivs H) \<le> weigh w (equivs (H @ [v]))"
  by (intro weigh_mono equivs_grow) auto

lemma support_grows_append: "support w H pv \<le> support w (H @ vs) pv"
proof (induction vs arbitrary: H)
  case (Cons v vs)
  have "support w H pv \<le> support w (H @ [v]) pv"
    by (rule support_grows)
  also have "\<dots> \<le> support w ((H @ [v]) @ vs) pv"
    by (rule Cons)
  finally show ?case
    by simp
qed simp

lemma equiv_weight_grows_append: "weigh w (equivs H) \<le> weigh w (equivs (H @ vs))"
proof (induction vs arbitrary: H)
  case (Cons v vs)
  have "weigh w (equivs H) \<le> weigh w (equivs (H @ [v]))"
    by (rule equiv_weight_grows)
  also have "\<dots> \<le> weigh w (equivs ((H @ [v]) @ vs))"
    by (rule Cons)
  finally show ?case
    by simp
qed simp

text \<open>The four ways a vote can change the picture.\<close>

lemma ignored_vote:
  assumes "clash H who \<noteq> None \<or> (\<exists>u. first_vote H who = Some u \<and> vote_value u = vote_value v)" and "vote_by who v"
  shows "first_vote (H @ [v]) = first_vote H \<and> clash (H @ [v]) = clash H"
proof -
  obtain u where u: "first_vote H who = Some u"
    using assms(1) by (auto dest: clash_Some)
  have "first_vote (H @ [v]) who' = first_vote H who'" for who'
    using u assms(2) by (cases "who' = who") (auto simp: first_vote_snoc split: option.splits)
  moreover have "clash (H @ [v]) who' = clash H who'" for who'
    using u assms by (cases "who' = who") (auto simp: clash_snoc split: option.splits)
  ultimately show ?thesis
    by (intro conjI ext)
qed

lemma new_voter:
  assumes "first_vote H who = None" "vote_by who v"
  shows "first_vote (H @ [v]) = (first_vote H)(who := Some v)" "clash (H @ [v]) = clash H"
    "live (H @ [v]) pv = (if vote_value v = pv then insert who (live H pv) else live H pv)" "who \<notin> live H pv"
proof -
  have c: "clash H who = None"
    using assms by (simp add: clash_def)
  show f: "first_vote (H @ [v]) = (first_vote H)(who := Some v)"
  proof
    show "first_vote (H @ [v]) x = ((first_vote H)(who := Some v)) x" for x
      using assms by (cases "x = who") (auto simp: first_vote_snoc split: option.splits)
  qed
  show k: "clash (H @ [v]) = clash H"
  proof
    show "clash (H @ [v]) x = clash H x" for x
      using assms c by (cases "x = who") (auto simp: clash_snoc split: option.splits)
  qed
  show "live (H @ [v]) pv = (if vote_value v = pv then insert who (live H pv) else live H pv)"
    using assms c by (auto simp: live_def f k)
  show "who \<notin> live H pv"
    using assms by (auto simp: live_def)
qed

lemma second_vote:
  assumes "clash H who = None" "first_vote H who = Some u" "vote_value u \<noteq> vote_value v" "vote_by who v"
  shows "first_vote (H @ [v]) = first_vote H" "clash (H @ [v]) = (clash H)(who := Some v)"
    "live (H @ [v]) pv = live H pv - {who}" "who \<in> live H pv \<longleftrightarrow> vote_value u = pv"
    "equivs (H @ [v]) = insert who (equivs H)" "who \<notin> equivs H"
proof -
  show f: "first_vote (H @ [v]) = first_vote H"
  proof
    show "first_vote (H @ [v]) x = first_vote H x" for x
      using assms by (cases "x = who") (auto simp: first_vote_snoc split: option.splits)
  qed
  show k: "clash (H @ [v]) = (clash H)(who := Some v)"
  proof
    show "clash (H @ [v]) x = ((clash H)(who := Some v)) x" for x
      using assms by (cases "x = who") (auto simp: clash_snoc split: option.splits)
  qed
  show "live (H @ [v]) pv = live H pv - {who}"
    using assms by (auto simp: live_def f k)
  show "who \<in> live H pv \<longleftrightarrow> vote_value u = pv"
    using assms by (auto simp: live_def)
  show "equivs (H @ [v]) = insert who (equivs H)" "who \<notin> equivs H"
    using assms by (auto simp: equivs_def k)
qed

section \<open>What the tracker holds\<close>

definition equivocation_of :: "vote \<Rightarrow> vote \<Rightarrow> equivocationVote" where
  "equivocation_of v0 v1 =
     \<lparr>evSender = rvSender (vR v0), evRound = rvRound (vR v0), evPeriod = rvPeriod (vR v0), evStep = rvStep (vR v0),
      evCred = vCred v0, evProposals = (vote_value v0, vote_value v1), evSigs = (vSig v0, vSig v1)\<rparr>"

definition tallies :: "(Address \<Rightarrow> u64) \<Rightarrow> vote list \<Rightarrow> voteTracker \<Rightarrow> bool" where
  "tallies w H t \<longleftrightarrow>
     (\<forall>who. fmlookup (Voters t) who = (if clash H who = None then first_vote H who else None)) \<and>
     (\<forall>who. fmlookup (Equivocators t) who =
        (case clash H who of None \<Rightarrow> None | Some v1 \<Rightarrow> map_option (\<lambda>v0. equivocation_of v0 v1) (first_vote H who))) \<and>
     (\<forall>pv. fmlookup (Counts t) pv = None \<longleftrightarrow> live H pv = {}) \<and>
     (\<forall>pv who. fmlookup (pcVotes (counter_of t pv)) who = (if who \<in> live H pv then first_vote H who else None)) \<and>
     (\<forall>pv. unat (pcCount (counter_of t pv)) = weigh w (live H pv)) \<and>
     unat (EquivocatorsCount t) = weigh w (equivs H)"

text \<open>Votes of one step whose weights depend on the sender only, as credentials do, and fit 64 bits together.\<close>

definition voting_ok :: "(Address \<Rightarrow> u64) \<Rightarrow> Round \<Rightarrow> period \<Rightarrow> step \<Rightarrow> vote list \<Rightarrow> bool" where
  "voting_ok w r per s H \<longleftrightarrow>
     list_all (\<lambda>v. rvRound (vR v) = r \<and> rvPeriod (vR v) = per \<and> rvStep (vR v) = s \<and>
                   Weight (vCred v) = w (rvSender (vR v)) \<and> w (rvSender (vR v)) \<noteq> 0) H \<and>
     weigh w (voters_of H) < 2 ^ 64"

lemma voting_okD:
  assumes "voting_ok w r per s H" "v \<in> set H"
  shows "rvRound (vR v) = r" "rvPeriod (vR v) = per" "rvStep (vR v) = s" "Weight (vCred v) = w (rvSender (vR v))"
    "w (rvSender (vR v)) \<noteq> 0"
  using assms by (auto simp: voting_ok_def list_all_iff)

lemma voting_ok_bound:
  assumes "voting_ok w r per s H" "A \<subseteq> voters_of H"
  shows "weigh w A < 2 ^ 64"
  using assms weigh_mono[of "voters_of H" A w] by (auto simp: voting_ok_def)

lemma voting_ok_prefix: "voting_ok w r per s (H @ vs) \<Longrightarrow> voting_ok w r per s H"
proof -
  assume ok: "voting_ok w r per s (H @ vs)"
  have "weigh w (voters_of H) < 2 ^ 64"
    by (rule voting_ok_bound[OF ok]) (auto simp: voters_of_def)
  then show "voting_ok w r per s H"
    using ok by (simp add: voting_ok_def)
qed

lemma unat_add_bounded: "unat x + unat y < 2 ^ 64 \<Longrightarrow> unat (x + y) = unat x + unat y" for x y :: u64
  by (simp add: unat_word_ariths)

lemma tallies_Nil: "tallies w [] voteTracker_zero"
  by (simp add: tallies_def voteTracker_zero_def counter_of_def)

lemma tallies_ignored:
  assumes "tallies w H t" and "first_vote (H @ [v]) = first_vote H \<and> clash (H @ [v]) = clash H"
  shows "tallies w (H @ [v]) t"
proof -
  have "live (H @ [v]) = live H" "equivs (H @ [v]) = equivs H"
    using assms(2) by (simp_all add: live_def equivs_def fun_eq_iff)
  then show ?thesis
    using assms by (simp add: tallies_def split: option.splits)
qed

lemma counter_of_add:
  "counter_of (add_vote v t) pv =
     (if pv = vote_value v
      then \<lparr>pcCount = pcCount (counter_of t pv) + Weight (vCred v), pcVotes = fmupd (rvSender (vR v)) v (pcVotes (counter_of t pv))\<rparr>
      else counter_of t pv)"
  by (simp add: counter_of_def add_vote_def Let_def)

lemma tallies_add:
  assumes t: "tallies w H t" and ok: "voting_ok w r per s (H @ [v])" and n: "first_vote H (rvSender (vR v)) = None"
  shows "tallies w (H @ [v]) (add_vote v t)"
proof -
  let ?who = "rvSender (vR v)"
  note nv = new_voter[OF n refl]
  have wt: "Weight (vCred v) = w ?who"
    using voting_okD[OF ok] by simp
  have e: "equivs (H @ [v]) = equivs H"
    by (simp add: equivs_def nv(2))
  have c: "clash H ?who = None"
    using n by (simp add: clash_def)
  have "weigh w (live (H @ [v]) (vote_value v)) < 2 ^ 64"
    by (rule voting_ok_bound[OF ok live_voters])
  then have small: "unat (w ?who) + weigh w (live H (vote_value v)) < 2 ^ 64"
    by (simp add: nv(3) weigh_insert nv(4))
  have cnt: "unat (pcCount (counter_of t (vote_value v)) + w ?who) = weigh w (live (H @ [v]) (vote_value v))"
    using t small by (subst unat_add_bounded) (auto simp: tallies_def nv(3) weigh_insert nv(4))
  have vs: "fmlookup (Voters (add_vote v t)) who = (if clash (H @ [v]) who = None then first_vote (H @ [v]) who else None)" for who
    using t c by (auto simp: tallies_def add_vote_def Let_def nv(1,2))
  have es: "fmlookup (Equivocators (add_vote v t)) who = (case clash (H @ [v]) who of None \<Rightarrow> None
      | Some v1 \<Rightarrow> map_option (\<lambda>v0. equivocation_of v0 v1) (first_vote (H @ [v]) who))" for who
    using t c by (cases "who = ?who") (auto simp: tallies_def add_vote_def Let_def nv(1,2) split: option.splits)
  have ks: "fmlookup (Counts (add_vote v t)) pv = None \<longleftrightarrow> live (H @ [v]) pv = {}" for pv
    using t by (auto simp: tallies_def add_vote_def Let_def nv(3))
  have ms: "fmlookup (pcVotes (counter_of (add_vote v t) pv)) who = (if who \<in> live (H @ [v]) pv then first_vote (H @ [v]) who else None)"
    for pv who
    using t n nv(4) by (auto simp: tallies_def counter_of_add nv(1,3))
  have ns: "unat (pcCount (counter_of (add_vote v t) pv)) = weigh w (live (H @ [v]) pv)" for pv
    using t cnt by (cases "pv = vote_value v") (simp_all add: tallies_def counter_of_add wt, simp add: nv(3))
  have "unat (EquivocatorsCount (add_vote v t)) = weigh w (equivs (H @ [v]))"
    using t by (simp add: tallies_def add_vote_def Let_def e)
  then show ?thesis
    unfolding tallies_def using vs es ks ms ns by blast
qed

section \<open>An equivocation\<close>

definition equivocate :: "vote \<Rightarrow> vote \<Rightarrow> voteTracker \<Rightarrow> voteTracker" where
  "equivocate u v t = mark_equivocator u v (drop_counted u (t\<lparr>EquivocatorsCount := EquivocatorsCount t + Weight (vCred v)\<rparr>))"

lemma drop_counted_frame [simp]:
  "Voters (drop_counted u t) = Voters t" "Equivocators (drop_counted u t) = Equivocators t"
  "EquivocatorsCount (drop_counted u t) = EquivocatorsCount t"
  by (simp_all add: drop_counted_def Let_def)

lemma mark_equivocator_frame [simp]:
  "Counts (mark_equivocator u v t) = Counts t" "EquivocatorsCount (mark_equivocator u v t) = EquivocatorsCount t"
  by (simp_all add: mark_equivocator_def Let_def)

lemma counter_of_cong: "Counts t = Counts t' \<Longrightarrow> counter_of t = counter_of t'"
  by (simp add: counter_of_def fun_eq_iff)

lemma counter_of_drop:
  "counter_of (drop_counted u t) pv =
     (if pv = vote_value u then
        (if pcCount (counter_of t pv) \<le> Weight (vCred u) then \<lparr>pcCount = 0, pcVotes = fmempty\<rparr>
         else \<lparr>pcCount = pcCount (counter_of t pv) - Weight (vCred u),
               pcVotes = fmdrop (rvSender (vR u)) (pcVotes (counter_of t pv))\<rparr>)
      else counter_of t pv)"
  by (simp add: counter_of_def drop_counted_def Let_def)

lemma Counts_drop:
  "fmlookup (Counts (drop_counted u t)) pv =
     (if pv = vote_value u then
        (if pcCount (counter_of t pv) \<le> Weight (vCred u) then None
         else Some \<lparr>pcCount = pcCount (counter_of t pv) - Weight (vCred u),
               pcVotes = fmdrop (rvSender (vR u)) (pcVotes (counter_of t pv))\<rparr>)
      else fmlookup (Counts t) pv)"
  by (simp add: counter_of_def drop_counted_def Let_def)

lemma weigh_remove: "finite A \<Longrightarrow> who \<in> A \<Longrightarrow> weigh w A = unat (w who) + weigh w (A - {who})"
  by (simp add: weigh_def sum.remove)

lemma weigh_zero: "finite A \<Longrightarrow> (\<And>who. who \<in> A \<Longrightarrow> w who \<noteq> 0) \<Longrightarrow> weigh w A = 0 \<longleftrightarrow> A = {}"
  by (auto simp: weigh_def unat_eq_0)

lemma equivocate_counts:
  assumes t: "tallies w H t" and ok: "voting_ok w r per s (H @ [v])"
    and c: "clash H (rvSender (vR v)) = None" and f: "first_vote H (rvSender (vR v)) = Some u"
    and d: "vote_value u \<noteq> vote_value v"
  shows "counter_of (equivocate u v t) pv = (if pv = vote_value u then
       (if live (H @ [v]) pv = {} then \<lparr>pcCount = 0, pcVotes = fmempty\<rparr>
        else \<lparr>pcCount = pcCount (counter_of t pv) - w (rvSender (vR v)),
              pcVotes = fmdrop (rvSender (vR v)) (pcVotes (counter_of t pv))\<rparr>)
     else counter_of t pv)"
    "fmlookup (Counts (equivocate u v t)) pv = None \<longleftrightarrow> live (H @ [v]) pv = {}"
    "unat (pcCount (counter_of t (vote_value u))) = unat (w (rvSender (vR v))) + weigh w (live (H @ [v]) (vote_value u))"
proof -
  let ?who = "rvSender (vR v)" and ?pv = "vote_value u"
  let ?t = "t\<lparr>EquivocatorsCount := EquivocatorsCount t + Weight (vCred v)\<rparr>"
  note sv = second_vote[OF c f d refl]
  have u: "u \<in> set H" "rvSender (vR u) = ?who"
    using first_vote_Some[OF f] by simp_all
  have wu: "Weight (vCred u) = w ?who"
    using voting_okD[OF ok, of u] u by simp
  show cnt: "unat (pcCount (counter_of t ?pv)) = unat (w ?who) + weigh w (live (H @ [v]) ?pv)"
    using t by (simp add: tallies_def weigh_remove sv(3,4))
  have "weigh w (live (H @ [v]) ?pv) = 0 \<longleftrightarrow> live (H @ [v]) ?pv = {}"
  proof (rule weigh_zero)
    show "w who \<noteq> 0" if "who \<in> live (H @ [v]) ?pv" for who
      using that live_voters[of "H @ [v]" ?pv] voting_okD(5)[OF ok] by (auto simp: voters_of_def)
  qed simp
  then have last_one: "pcCount (counter_of t ?pv) \<le> w ?who \<longleftrightarrow> live (H @ [v]) ?pv = {}"
    by (simp add: word_le_nat_alt cnt)
  have eq: "counter_of ?t = counter_of t"
    by (rule counter_of_cong) simp
  have "counter_of (equivocate u v t) pv = counter_of (drop_counted u ?t) pv"
    unfolding equivocate_def by (rule fun_cong[OF counter_of_cong]) simp
  then show "counter_of (equivocate u v t) pv = (if pv = ?pv then
       (if live (H @ [v]) pv = {} then \<lparr>pcCount = 0, pcVotes = fmempty\<rparr>
        else \<lparr>pcCount = pcCount (counter_of t pv) - w ?who, pcVotes = fmdrop ?who (pcVotes (counter_of t pv))\<rparr>)
     else counter_of t pv)"
    using last_one by (simp add: counter_of_drop eq wu u(2))
  show "fmlookup (Counts (equivocate u v t)) pv = None \<longleftrightarrow> live (H @ [v]) pv = {}"
    using t last_one by (auto simp: equivocate_def Counts_drop eq wu tallies_def sv(3,4))
qed

lemma tallies_equivocate:
  assumes t: "tallies w H t" and ok: "voting_ok w r per s (H @ [v])"
    and c: "clash H (rvSender (vR v)) = None" and f: "first_vote H (rvSender (vR v)) = Some u"
    and d: "vote_value u \<noteq> vote_value v"
  shows "tallies w (H @ [v]) (equivocate u v t)"
proof -
  let ?who = "rvSender (vR v)" and ?t = "equivocate u v t"
  note sv = second_vote[OF c f d refl] and ec = equivocate_counts[OF t ok c f d]
  have vs: "fmlookup (Voters ?t) who = (if clash (H @ [v]) who = None then first_vote (H @ [v]) who else None)" for who
    using t by (auto simp: tallies_def equivocate_def mark_equivocator_def Let_def sv(1,2))
  have es: "fmlookup (Equivocators ?t) who = (case clash (H @ [v]) who of None \<Rightarrow> None
      | Some v1 \<Rightarrow> map_option (\<lambda>v0. equivocation_of v0 v1) (first_vote (H @ [v]) who))" for who
    using t f by (cases "who = ?who")
      (auto simp: tallies_def equivocate_def mark_equivocator_def Let_def sv(1,2) equivocation_of_def split: option.splits)
  have ms: "fmlookup (pcVotes (counter_of ?t pv)) who = (if who \<in> live (H @ [v]) pv then first_vote (H @ [v]) who else None)" for pv who
    using t by (auto simp: ec(1) tallies_def sv(1,3,4))
  have ns: "unat (pcCount (counter_of ?t pv)) = weigh w (live (H @ [v]) pv)" for pv
  proof (cases "pv = vote_value u")
    case True
    have "w ?who \<le> pcCount (counter_of t pv)"
      using ec(3) True by (simp add: word_le_nat_alt)
    then show ?thesis
      using ec(3) True by (simp add: ec(1) unat_sub)
  next
    case False
    then show ?thesis
      using t sv(4)[of pv] by (simp add: ec(1) tallies_def sv(3))
  qed
  have "Weight (vCred v) = w ?who"
    using voting_okD[OF ok] by simp
  moreover have "unat (w ?who) + weigh w (equivs H) < 2 ^ 64"
    using voting_ok_bound[OF ok equivs_voters] by (simp add: sv(5,6) weigh_insert)
  ultimately have "unat (EquivocatorsCount ?t) = weigh w (equivs (H @ [v]))"
    using t by (simp add: tallies_def equivocate_def sv(5,6) weigh_insert unat_add_bounded)
  then show ?thesis
    unfolding tallies_def using vs es ms ns ec(2) by blast
qed

section \<open>Passing the threshold\<close>

definition quorum_of :: "step \<Rightarrow> ConsensusParams \<Rightarrow> nat" where
  "quorum_of s proto = unat (threshold s proto)"

lemma reachesQuorum_iff: "s \<noteq> propose \<Longrightarrow> reachesQuorum s proto x \<longleftrightarrow> quorum_of s proto \<le> unat x"
  by (simp add: reachesQuorum_def threshold_def quorum_of_def word_le_nat_alt)

lemma vote_count_support:
  assumes "tallies w H t" "voting_ok w r per s H"
  shows "unat (vote_count t pv) = support w H pv"
proof -
  have "weigh w (live H pv \<union> equivs H) < 2 ^ 64"
    by (rule voting_ok_bound[OF assms(2)]) (use live_voters equivs_voters in blast)
  then show ?thesis
    using assms(1) by (simp add: vote_count_def tallies_def unat_add_bounded support_split weigh_Un live_equivs)
qed

lemma filter_single:
  assumes "distinct xs" "x \<in> set xs" "P x" "\<And>y. y \<in> set xs \<Longrightarrow> P y \<Longrightarrow> y = x"
  shows "filter P xs = [x]"
proof -
  obtain ys zs where xs: "xs = ys @ x # zs"
    using assms(2) by (auto simp: in_set_conv_decomp)
  have "\<not> P y" if "y \<in> set ys \<union> set zs" for y
    using assms(1) assms(4)[of y] that xs by auto
  then show ?thesis
    using assms(3) by (simp add: xs filter_empty_conv)
qed

text \<open>Equivocators alone do not make a quorum, and no two values have one.\<close>

definition quorums_ok :: "(Address \<Rightarrow> u64) \<Rightarrow> nat \<Rightarrow> vote list \<Rightarrow> bool" where
  "quorums_ok w T H \<longleftrightarrow> weigh w (equivs H) < T \<and> weigh w (voters_of H) + weigh w (equivs H) < 2 * T"

lemma quorum_unique: "quorums_ok w T H \<Longrightarrow> T \<le> support w H pv \<Longrightarrow> T \<le> support w H pv' \<Longrightarrow> pv' = pv"
  using two_supports[of pv pv' w H] unfolding quorums_ok_def by (cases "pv = pv'") auto

lemma quorum_live: "quorums_ok w T H \<Longrightarrow> T \<le> support w H pv \<Longrightarrow> live H pv \<noteq> {}"
  by (auto simp: quorums_ok_def support_split)

lemma quorums_ok_prefix: "quorums_ok w T (H @ vs) \<Longrightarrow> quorums_ok w T H"
proof -
  assume q: "quorums_ok w T (H @ vs)"
  have "weigh w (voters_of H) \<le> weigh w (voters_of (H @ vs))"
    by (rule weigh_mono) (auto simp: voters_of_def)
  then show "quorums_ok w T H"
    using q equiv_weight_grows_append[of w H vs] unfolding quorums_ok_def by linarith
qed


lemma Counts_dom: "tallies w H t \<Longrightarrow> pv |\<in>| fmdom (Counts t) \<longleftrightarrow> live H pv \<noteq> {}"
  by (simp add: tallies_def fmlookup_dom_iff) (metis option.exhaust option.distinct(1))

lemma overThreshold_Some:
  assumes "tallies w H t" "voting_ok w r per s H" "s \<noteq> propose" "quorums_ok w (quorum_of s proto) H"
    and "quorum_of s proto \<le> support w H pv"
  shows "overThreshold proto s t = Ok (Some pv)"
proof -
  have "filter (\<lambda>pv. reachesQuorum s proto (vote_count t pv)) (sorted_list_of_fset (fmdom (Counts t))) = [pv]"
  proof (rule filter_single)
    show "reachesQuorum s proto (vote_count t pv)"
      using assms by (simp add: reachesQuorum_iff vote_count_support)
    show "pv \<in> set (sorted_list_of_fset (fmdom (Counts t)))"
      using assms quorum_live by (simp add: Counts_dom)
    show "pv' = pv" if "reachesQuorum s proto (vote_count t pv')" for pv'
      using that quorum_unique[OF assms(4,5)] assms by (simp add: reachesQuorum_iff vote_count_support)
  qed (simp add: sorted_list_of_fset.rep_eq)
  then show ?thesis
    by (simp add: overThreshold_def)
qed

lemma overThreshold_None:
  assumes "tallies w H t" "voting_ok w r per s H" "s \<noteq> propose"
    and "\<And>pv. support w H pv < quorum_of s proto"
  shows "overThreshold proto s t = Ok None"
proof -
  have "filter (\<lambda>pv. reachesQuorum s proto (vote_count t pv)) (sorted_list_of_fset (fmdom (Counts t))) = []"
    using assms by (simp add: filter_empty_conv reachesQuorum_iff vote_count_support not_le)
  then show ?thesis
    by (simp add: overThreshold_def)
qed

section \<open>Cutting a list of votes at the quorum\<close>

definition total_weight :: "('a \<Rightarrow> u64) \<Rightarrow> 'a list \<Rightarrow> nat" where
  "total_weight f xs = sum_list (map (\<lambda>x. unat (f x)) xs)"

lemma total_weight_simps [simp]:
  "total_weight f [] = 0" "total_weight f (x # xs) = unat (f x) + total_weight f xs"
  "total_weight f (xs @ ys) = total_weight f xs + total_weight f ys"
  by (simp_all add: total_weight_def)

lemma cut_Cons:
  "cut_at_quorum s proto f x0 (x # xs) =
     (if reachesQuorum s proto x0 then ([], x0)
      else (x # fst (cut_at_quorum s proto f (x0 + f x) xs), snd (cut_at_quorum s proto f (x0 + f x) xs)))"
  by (simp add: Let_def split: prod.splits)

declare cut_at_quorum.simps(2) [simp del] cut_Cons [simp]

lemma cut_prefix: "\<exists>zs. xs = fst (cut_at_quorum s proto f x0 xs) @ zs"
proof (induction xs arbitrary: x0)
  case (Cons x xs)
  then show ?case
    using Cons.IH[of "x0 + f x"] by auto
qed simp

lemma cut_weight:
  assumes "unat x0 + total_weight f xs < 2 ^ 64"
  shows "unat (snd (cut_at_quorum s proto f x0 xs)) = unat x0 + total_weight f (fst (cut_at_quorum s proto f x0 xs))"
  using assms
proof (induction xs arbitrary: x0)
  case (Cons x xs)
  then have "unat (x0 + f x) = unat x0 + unat (f x)"
    by (simp add: unat_add_bounded)
  then show ?case
    using Cons.IH[of "x0 + f x"] Cons.prems by simp
qed simp

lemma cut_enough:
  assumes "s \<noteq> propose" "unat x0 + total_weight f xs < 2 ^ 64" "quorum_of s proto \<le> unat x0 + total_weight f xs"
  shows "quorum_of s proto \<le> unat (snd (cut_at_quorum s proto f x0 xs))"
  using assms(2,3)
proof (induction xs arbitrary: x0)
  case (Cons x xs)
  then have "unat (x0 + f x) = unat x0 + unat (f x)"
    by (simp add: unat_add_bounded)
  then show ?case
    using Cons.IH[of "x0 + f x"] Cons.prems assms(1) by (simp add: reachesQuorum_iff)
qed simp

lemma cut_all:
  assumes "s \<noteq> propose" "unat x0 + total_weight f xs < 2 ^ 64" "unat x0 + total_weight f xs < quorum_of s proto"
  shows "fst (cut_at_quorum s proto f x0 xs) = xs"
  using assms(2,3)
proof (induction xs arbitrary: x0)
  case (Cons x xs)
  then have "unat (x0 + f x) = unat x0 + unat (f x)"
    by (simp add: unat_add_bounded)
  then show ?case
    using Cons.IH[of "x0 + f x"] Cons.prems assms(1) by (simp add: reachesQuorum_iff)
qed simp

lemma cut_again: "cut_at_quorum s proto f x0 (fst (cut_at_quorum s proto f x0 xs)) = cut_at_quorum s proto f x0 xs"
  by (induction xs arbitrary: x0) auto

lemma cut_length:
  assumes "s \<noteq> propose" "unat x0 + total_weight f xs < 2 ^ 64" "\<And>x. x \<in> set xs \<Longrightarrow> f x \<noteq> 0" "unat x0 \<le> quorum_of s proto"
  shows "unat x0 + length (fst (cut_at_quorum s proto f x0 xs)) \<le> quorum_of s proto"
  using assms(2-4)
proof (induction xs arbitrary: x0)
  case (Cons x xs)
  have add: "unat (x0 + f x) = unat x0 + unat (f x)"
    using Cons.prems by (simp add: unat_add_bounded)
  have pos: "1 \<le> unat (f x)"
    using Cons.prems(2)[of x] by (simp add: Suc_le_eq unat_gt_0)
  show ?case
  proof (cases "unat (x0 + f x) \<le> quorum_of s proto")
    case True
    then show ?thesis
      using Cons.IH[of "x0 + f x"] Cons.prems add pos assms(1) by simp
  next
    case False
    then have "fst (cut_at_quorum s proto f (x0 + f x) xs) = []"
      using assms(1) by (cases xs) (simp_all add: reachesQuorum_iff)
    then show ?thesis
      using Cons.prems assms(1) by (simp add: reachesQuorum_iff)
  qed
qed simp

end
