(* ===== verification/Vote_Bundles.thy ===== *)
theory Vote_Bundles
  imports Vote_Counting "HOL-Library.Multiset"
begin

text \<open>
  The threshold events of the vote tracker and the bundles they carry: the tracker tells of a quorum
  once, with the vote that completes it, and the bundle it packs for the event passes the verification
  of bundles (\<open>agreement/bundle.go\<close>).
\<close>

section \<open>The bundle of a quorum\<close>

definition vote_auth :: "vote \<Rightarrow> voteAuthenticator" where
  "vote_auth v = \<lparr>vaSender = rvSender (vR v), vaCred = crUnauthenticated (vCred v), vaSig = vSig v\<rparr>"

definition eq_auth :: "equivocationVote \<Rightarrow> equivocationVoteAuthenticator" where
  "eq_auth ev = \<lparr>eaSender = evSender ev, eaCred = crUnauthenticated (evCred ev), eaSigs = evSigs ev, eaProposals = evProposals ev\<rparr>"

abbreviation vote_weight :: "vote \<Rightarrow> u64" where "vote_weight v \<equiv> Weight (vCred v)"
abbreviation eq_weight :: "equivocationVote \<Rightarrow> u64" where "eq_weight v \<equiv> Weight (evCred v)"

lemma pack_votes_cut:
  "pack_votes s proto x0 vs = map_prod (map vote_auth) id (cut_at_quorum s proto vote_weight x0 vs)"
  by (induction vs arbitrary: x0) (simp_all add: vote_auth_def map_prod_def split_beta)

lemma pack_equivocations_cut:
  "pack_equivocations s proto x0 evs = map_prod (map eq_auth) id (cut_at_quorum s proto eq_weight x0 evs)"
  by (induction evs arbitrary: x0) (simp_all add: eq_auth_def map_prod_def split_beta)

lemma total_weight_mset: "mset xs = mset ys \<Longrightarrow> total_weight f xs = total_weight f ys"
  unfolding total_weight_def by (metis mset_map sum_mset_sum_list)

lemma map_values_set: "set (map_values m) = {v. \<exists>k. fmlookup m k = Some v}"
  by (force simp: map_values_def fmlookup_dom_iff)

lemma map_values_weight: "total_weight f (map_values m) = (\<Sum>k\<in>fset (fmdom m). unat (f (the (fmlookup m k))))"
  by (simp add: total_weight_def map_values_def comp_def sum_list_distinct_conv_sum_set sorted_list_of_fset.rep_eq)

lemma map_values_keys: "(\<And>k v. fmlookup m k = Some v \<Longrightarrow> key v = k) \<Longrightarrow> map key (map_values m) = sorted_list_of_fset (fmdom m)"
  by (auto simp: map_values_def fmlookup_dom_iff intro!: map_idI)

lemma votes_sorted_mset [simp]: "mset (votes_sorted m) = mset (map_values m)"
  by (simp add: votes_sorted_def)

lemma equivocations_sorted_mset [simp]: "mset (equivocations_sorted m) = mset (map_values m)"
  by (simp add: equivocations_sorted_def)

lemma sorted_keys:
  assumes "mset xs = mset (map_values m)" "\<And>k v. fmlookup m k = Some v \<Longrightarrow> key v = k"
  shows "distinct (map key xs)" "set (map key xs) = fset (fmdom m)"
proof -
  have "map key (map_values m) = sorted_list_of_fset (fmdom m)"
    using assms(2) by (rule map_values_keys)
  then have eq: "mset (map key xs) = mset (sorted_list_of_fset (fmdom m))"
    using assms(1) by (metis mset_map)
  show "distinct (map key xs)"
    using mset_eq_imp_distinct_iff[OF eq] by (simp add: sorted_list_of_fset.rep_eq)
  show "set (map key xs) = fset (fmdom m)"
    using mset_eq_setD[OF eq] by simp
qed

text \<open>The votes and equivocations the tracker holds.\<close>

lemma live_votes:
  assumes "tallies w H t" "voting_ok w r per s H"
  shows "set (votes_sorted (pcVotes (counter_of t pv))) = {v. \<exists>who\<in>live H pv. first_vote H who = Some v}" (is ?S)
    and "total_weight vote_weight (votes_sorted (pcVotes (counter_of t pv))) = weigh w (live H pv)" (is ?W)
    and "distinct (map (\<lambda>v. rvSender (vR v)) (votes_sorted (pcVotes (counter_of t pv))))" (is ?D)
    and "set (map (\<lambda>v. rvSender (vR v)) (votes_sorted (pcVotes (counter_of t pv)))) = live H pv" (is ?K)
proof -
  let ?m = "pcVotes (counter_of t pv)"
  have l: "fmlookup ?m who = (if who \<in> live H pv then first_vote H who else None)" for who
    using assms(1) by (simp add: tallies_def)
  have dom: "fset (fmdom ?m) = live H pv"
  proof -
    have none: "fmlookup ?m who = None \<longleftrightarrow> who \<notin> live H pv" for who
      by (auto simp: l live_def)
    have "who \<in> fset (fmdom ?m) \<longleftrightarrow> who \<in> live H pv" for who
      using none[of who] by (cases "fmlookup ?m who") (auto simp: fmlookup_dom_iff)
    then show ?thesis
      by blast
  qed
  have key: "rvSender (vR v) = who" if "fmlookup ?m who = Some v" for who v
    using that first_vote_Some by (auto simp: l split: if_splits)
  have "set (votes_sorted ?m) = set (map_values ?m)"
    by (rule mset_eq_setD) simp
  then show ?S
    by (auto simp: map_values_set l split: if_splits)
  have "unat (Weight (vCred (the (fmlookup ?m who)))) = unat (w who)" if who: "who \<in> live H pv" for who
  proof -
    obtain v where v: "first_vote H who = Some v"
      using who by (auto simp: live_def)
    then show ?thesis
      using who voting_okD(4)[OF assms(2), of v] first_vote_Some[OF v] by (simp add: l)
  qed
  moreover have "total_weight vote_weight (votes_sorted ?m) = total_weight vote_weight (map_values ?m)"
    by (rule total_weight_mset) simp
  ultimately show ?W
    by (simp add: map_values_weight dom weigh_def)
  show ?D
    using votes_sorted_mset key by (rule sorted_keys(1))
  show ?K
    using sorted_keys(2)[OF votes_sorted_mset key] by (simp add: dom)
qed

lemma equivocations:
  assumes "tallies w H t" "voting_ok w r per s H"
  shows "set (equivocations_sorted (Equivocators t)) =
       {ev. \<exists>who v0 v1. first_vote H who = Some v0 \<and> clash H who = Some v1 \<and> ev = equivocation_of v0 v1}" (is ?S)
    and "total_weight eq_weight (equivocations_sorted (Equivocators t)) = weigh w (equivs H)" (is ?W)
    and "distinct (map evSender (equivocations_sorted (Equivocators t)))" (is ?D)
    and "set (map evSender (equivocations_sorted (Equivocators t))) = equivs H" (is ?K)
proof -
  let ?m = "Equivocators t"
  have l: "fmlookup ?m who = (case clash H who of None \<Rightarrow> None
      | Some v1 \<Rightarrow> map_option (\<lambda>v0. equivocation_of v0 v1) (first_vote H who))" for who
    using assms(1) by (simp add: tallies_def)
  have some: "\<exists>v0. first_vote H who = Some v0" if "clash H who = Some v1" for who v1
    using clash_Some[OF that] by auto
  have dom: "fset (fmdom ?m) = equivs H"
  proof -
    have none: "fmlookup ?m who = None \<longleftrightarrow> who \<notin> equivs H" for who
      using some[of who] by (auto simp: l equivs_def split: option.splits)
    have "who \<in> fset (fmdom ?m) \<longleftrightarrow> who \<in> equivs H" for who
      using none[of who] by (cases "fmlookup ?m who") (auto simp: fmlookup_dom_iff)
    then show ?thesis
      by blast
  qed
  have key: "evSender v = who" if "fmlookup ?m who = Some v" for who v
    using that by (auto simp: l equivocation_of_def split: option.splits dest!: first_vote_Some)
  have "set (equivocations_sorted ?m) = set (map_values ?m)"
    by (rule mset_eq_setD) simp
  then show ?S
    by (force simp: map_values_set l split: option.splits)
  have "unat (Weight (evCred (the (fmlookup ?m who)))) = unat (w who)" if who: "who \<in> equivs H" for who
  proof -
    obtain v1 where v1: "clash H who = Some v1"
      using who by (auto simp: equivs_def)
    obtain v0 where v0: "first_vote H who = Some v0"
      using some[OF v1] by blast
    note v = v1 v0
    show ?thesis
      using v voting_okD(4)[OF assms(2), of v0] first_vote_Some[OF v(2)] by (simp add: l equivocation_of_def)
  qed
  moreover have "total_weight eq_weight (equivocations_sorted ?m) = total_weight eq_weight (map_values ?m)"
    by (rule total_weight_mset) simp
  ultimately show ?W
    by (simp add: map_values_weight dom weigh_def)
  show ?D
    using equivocations_sorted_mset key by (rule sorted_keys(1))
  show ?K
    using sorted_keys(2)[OF equivocations_sorted_mset key] by (simp add: dom)
qed

text \<open>A value that reached the quorum gets a bundle that proves it, no larger than the quorum.\<close>

definition proves :: "(Address \<Rightarrow> u64) \<Rightarrow> nat \<Rightarrow> vote list \<Rightarrow> proposalValue \<Rightarrow> vote list \<Rightarrow> equivocationVote list \<Rightarrow> bool" where
  "proves w T H pv vs es \<longleftrightarrow>
     vs \<noteq> [] \<and>
     (\<forall>v\<in>set vs. v \<in> set H \<and> vote_value v = pv) \<and>
     (\<forall>ev\<in>set es. \<exists>v0\<in>set H. \<exists>v1\<in>set H. rvSender (vR v1) = rvSender (vR v0) \<and> vote_value v1 \<noteq> vote_value v0 \<and> ev = equivocation_of v0 v1) \<and>
     distinct (map (\<lambda>v. rvSender (vR v)) vs @ map evSender es) \<and>
     T \<le> total_weight vote_weight vs + total_weight eq_weight es \<and>
     total_weight vote_weight vs + total_weight eq_weight es < 2 ^ 64 \<and>
     length vs + length es \<le> T"

lemma total_weight_length: "(\<And>x. x \<in> set xs \<Longrightarrow> f x \<noteq> 0) \<Longrightarrow> length xs \<le> total_weight f xs"
proof (induction xs)
  case (Cons x xs)
  have "1 \<le> unat (f x)"
    using Cons.prems[of x] by (simp add: Suc_le_eq unat_gt_0)
  then show ?case
    using Cons.IH Cons.prems by simp
qed simp

lemma two_cuts:
  fixes s proto f g L M
  defines "vs \<equiv> fst (cut_at_quorum s proto f 0 L)" and "k \<equiv> snd (cut_at_quorum s proto f 0 L)"
  defines "es \<equiv> fst (cut_at_quorum s proto g k M)" and "k' \<equiv> snd (cut_at_quorum s proto g k M)"
  assumes np: "s \<noteq> propose" and small: "total_weight f L + total_weight g M < 2 ^ 64"
    and T: "quorum_of s proto \<le> total_weight f L + total_weight g M"
    and pos: "\<And>x. x \<in> set L \<Longrightarrow> f x \<noteq> 0" "\<And>x. x \<in> set M \<Longrightarrow> g x \<noteq> 0"
  shows "unat k' = total_weight f vs + total_weight g es" (is ?W) and "quorum_of s proto \<le> unat k'" (is ?Q)
    and "length vs + length es \<le> quorum_of s proto" (is ?L)
    and "total_weight f vs + total_weight g es < 2 ^ 64" (is ?S)
proof -
  obtain xs ys where L: "L = vs @ xs" and M: "M = es @ ys"
    using cut_prefix[of L s proto f 0] cut_prefix[of M s proto g k] by (auto simp: vs_def es_def)
  have k: "unat k = total_weight f vs"
    using cut_weight[of 0 f L s proto] small by (simp add: vs_def k_def)
  have bound: "unat k + total_weight g M < 2 ^ 64"
    using small k L by simp
  show w: ?W
    using cut_weight[OF bound, of s proto] k by (simp add: es_def k'_def)
  show ?S
    using bound k M by simp
  have enough: "quorum_of s proto \<le> unat k + total_weight g M"
  proof (cases "total_weight f L < quorum_of s proto")
    case True
    then show ?thesis
      using cut_all[of s 0 f L proto] np small T k by (simp add: vs_def)
  next
    case False
    then show ?thesis
      using cut_enough[of s 0 f L proto] np small by (simp add: k_def)
  qed
  show ?Q
    using cut_enough[OF np bound enough] by (simp add: k'_def)
  have "length vs \<le> unat k"
    using total_weight_length[of vs f] pos(1) k L by auto
  moreover have "length vs \<le> quorum_of s proto"
    using cut_length[of s 0 f L proto] np small pos(1) by (simp add: vs_def)
  moreover have "unat k + length es \<le> quorum_of s proto" if "unat k \<le> quorum_of s proto"
    using cut_length[OF np bound pos(2)] that by (simp add: es_def)
  moreover have "es = []" if "\<not> unat k \<le> quorum_of s proto"
    using that np by (cases M) (simp_all add: es_def reachesQuorum_iff)
  ultimately show ?L
    by (cases "unat k \<le> quorum_of s proto") auto
qed

lemma held_vote:
  assumes "tallies w H t" "voting_ok w r per s H" "v \<in> set (votes_sorted (pcVotes (counter_of t pv)))"
  shows "v \<in> set H" "vote_value v = pv" "rvRound (vR v) = r" "rvPeriod (vR v) = per" "rvStep (vR v) = s" "vote_weight v \<noteq> 0"
proof -
  obtain who where "who \<in> live H pv" "first_vote H who = Some v"
    using assms by (auto simp: live_votes(1)[OF assms(1,2)])
  then show "v \<in> set H" "vote_value v = pv"
    using first_vote_Some by (auto simp: live_def)
  then show "rvRound (vR v) = r" "rvPeriod (vR v) = per" "rvStep (vR v) = s" "vote_weight v \<noteq> 0"
    using voting_okD[OF assms(2), of v] by auto
qed

lemma held_equivocation:
  assumes "tallies w H t" "voting_ok w r per s H" "ev \<in> set (equivocations_sorted (Equivocators t))"
  shows "\<exists>v0\<in>set H. \<exists>v1\<in>set H. rvSender (vR v1) = rvSender (vR v0) \<and> vote_value v1 \<noteq> vote_value v0 \<and> ev = equivocation_of v0 v1"
    "eq_weight ev \<noteq> 0"
proof -
  obtain who v0 v1 where v: "first_vote H who = Some v0" "clash H who = Some v1" "ev = equivocation_of v0 v1"
    using assms(3) equivocations(1)[OF assms(1,2)] by blast
  then show "\<exists>v0\<in>set H. \<exists>v1\<in>set H. rvSender (vR v1) = rvSender (vR v0) \<and> vote_value v1 \<noteq> vote_value v0 \<and> ev = equivocation_of v0 v1"
    using first_vote_Some[of H who v0] clash_Some[of H who v1] by auto
  show "eq_weight ev \<noteq> 0"
    using first_vote_Some[OF v(1)] voting_okD[OF assms(2), of v0] v(3) by (simp add: equivocation_of_def)
qed

lemma genBundle_cut:
  fixes s proto t c
  defines "L \<equiv> votes_sorted (pcVotes c)" and "M \<equiv> equivocations_sorted (Equivocators t)"
  defines "vs \<equiv> fst (cut_at_quorum s proto vote_weight 0 L)" and "k \<equiv> snd (cut_at_quorum s proto vote_weight 0 L)"
  assumes same: "\<And>v. v \<in> set L \<Longrightarrow> vote_value v = pv \<and> rvRound (vR v) = r \<and> rvPeriod (vR v) = per \<and> rvStep (vR v) = s"
    and ne: "vs \<noteq> []" and q: "reachesQuorum s proto (snd (cut_at_quorum s proto eq_weight k M))"
  shows "genBundle proto t c =
      Ok \<lparr>ubRound = r, ubPeriod = per, ubStep = s, ubProposal = pv, ubVotes = map vote_auth vs,
          ubEquivocationVotes = map eq_auth (fst (cut_at_quorum s proto eq_weight k M))\<rparr>"
proof -
  obtain v0 L' where L: "L = v0 # L'"
    using ne by (cases L) (auto simp: vs_def)
  then obtain vs' where vs: "vs = v0 # vs'"
    using ne by (auto simp: vs_def split: if_splits)
  obtain xs where "L = vs @ xs"
    using cut_prefix[of L s proto vote_weight 0] by (auto simp: vs_def)
  then have same': "vote_value v = pv \<and> rvRound (vR v) = r \<and> rvPeriod (vR v) = per \<and> rvStep (vR v) = s" if "v \<in> set vs" for v
    using same that by auto
  have cut: "cut_at_quorum s proto vote_weight 0 L = (vs, k)"
    by (simp add: vs_def k_def)
  have "pack_votes s proto 0 vs = (map vote_auth vs, k)"
    using cut_again[of s proto vote_weight 0 L] cut by (simp add: pack_votes_cut)
  moreover have "pack_equivocations s proto k (fst (cut_at_quorum s proto eq_weight k M)) =
      (map eq_auth (fst (cut_at_quorum s proto eq_weight k M)), snd (cut_at_quorum s proto eq_weight k M))"
    by (simp add: pack_equivocations_cut cut_again map_prod_def split_beta)
  ultimately have "makeBundle proto pv vs (fst (cut_at_quorum s proto eq_weight k M)) =
      Ok \<lparr>ubRound = r, ubPeriod = per, ubStep = s, ubProposal = pv, ubVotes = map vote_auth vs,
          ubEquivocationVotes = map eq_auth (fst (cut_at_quorum s proto eq_weight k M))\<rparr>"
    using same' q by (auto simp: makeBundle_def vs Let_def list_ex_iff)
  then show ?thesis
    using same' same cut L by (simp add: genBundle_def L_def[symmetric] M_def[symmetric] vs Let_def split_beta)
qed

lemma genBundle_ok:
  assumes t: "tallies w H t" and ok: "voting_ok w r per s H" and np: "s \<noteq> propose"
    and q: "quorums_ok w (quorum_of s proto) H" and T: "quorum_of s proto \<le> support w H pv"
  shows "\<exists>vs es. proves w (quorum_of s proto) H pv vs es \<and>
    genBundle proto t (counter_of t pv) =
      Ok \<lparr>ubRound = r, ubPeriod = per, ubStep = s, ubProposal = pv, ubVotes = map vote_auth vs, ubEquivocationVotes = map eq_auth es\<rparr>"
proof -
  define L where "L = votes_sorted (pcVotes (counter_of t pv))"
  define M where "M = equivocations_sorted (Equivocators t)"
  define vs where "vs = fst (cut_at_quorum s proto vote_weight 0 L)"
  define k where "k = snd (cut_at_quorum s proto vote_weight 0 L)"
  define es where "es = fst (cut_at_quorum s proto eq_weight k M)"
  note lv = live_votes[OF t ok, of pv, folded L_def] and eqs = equivocations[OF t ok, folded M_def]
  note hv = held_vote[OF t ok, of _ pv, folded L_def] and he = held_equivocation[OF t ok, folded M_def]
  have sum: "total_weight vote_weight L + total_weight eq_weight M = support w H pv"
    by (simp add: lv(2) eqs(2) support_split)
  have small: "support w H pv < 2 ^ 64"
    using support_le[of w H pv] ok by (simp add: voting_ok_def)
  note cuts = two_cuts[where f = vote_weight and g = eq_weight and L = L and M = M and proto = proto, OF np _ _ hv(6) he(2),
      unfolded sum, OF small T, folded vs_def k_def, folded es_def]
  obtain xs ys where LM: "L = vs @ xs" "M = es @ ys"
    using cut_prefix[of L s proto vote_weight 0] cut_prefix[of M s proto eq_weight k] by (auto simp: vs_def es_def)
  have "0 < quorum_of s proto"
    using q by (simp add: quorums_ok_def)
  moreover have "L \<noteq> []"
    using quorum_live[OF q T] lv(4) by auto
  ultimately have ne: "vs \<noteq> []"
    using np by (cases L) (simp_all add: vs_def reachesQuorum_iff)
  have "distinct (map (\<lambda>v. rvSender (vR v)) vs @ map evSender es)"
    using lv(3,4) eqs(3,4) live_equivs[of H pv] by (auto simp: LM)
  then have "proves w (quorum_of s proto) H pv vs es"
    unfolding proves_def using ne hv(1,2) he(1) cuts by (auto simp: LM)
  moreover have "genBundle proto t (counter_of t pv) =
      Ok \<lparr>ubRound = r, ubPeriod = per, ubStep = s, ubProposal = pv, ubVotes = map vote_auth vs, ubEquivocationVotes = map eq_auth es\<rparr>"
    unfolding vs_def es_def k_def L_def M_def
    by (rule genBundle_cut) (use ne hv cuts(2) np in \<open>auto simp: vs_def k_def L_def M_def es_def reachesQuorum_iff\<close>)
  ultimately show ?thesis
    by blast
qed

section \<open>Accepting votes\<close>

definition passes :: "(Address \<Rightarrow> u64) \<Rightarrow> nat \<Rightarrow> vote list \<Rightarrow> bool" where
  "passes w T H \<longleftrightarrow> (\<exists>pv. T \<le> support w H pv)"

definition quorum_event :: "Round \<Rightarrow> period \<Rightarrow> step \<Rightarrow> proposalValue \<Rightarrow> vote list \<Rightarrow> equivocationVote list \<Rightarrow> thresholdEvent" where
  "quorum_event r per s pv vs es =
     \<lparr>thT = threshold_event_type s, thRound = r, thPeriod = per, thStep = s, thProposal = pv,
      thBundle = \<lparr>ubRound = r, ubPeriod = per, ubStep = s, ubProposal = pv, ubVotes = map vote_auth vs,
                  ubEquivocationVotes = map eq_auth es\<rparr>\<rparr>"

text \<open>The event that tells of the first quorum, if the history \<open>H\<close> has one and \<open>H0\<close> before it had none.\<close>

definition tells :: "(Address \<Rightarrow> u64) \<Rightarrow> Round \<Rightarrow> period \<Rightarrow> step \<Rightarrow> nat \<Rightarrow> vote list \<Rightarrow> vote list \<Rightarrow> thresholdEvent \<Rightarrow> bool" where
  "tells w r per s T H0 H te \<longleftrightarrow>
     (if passes w T H \<and> \<not> passes w T H0
      then \<exists>pv vs es. T \<le> support w H pv \<and> proves w T H pv vs es \<and> te = quorum_event r per s pv vs es
      else te = thresholdEvent_zero)"

lemma overThreshold_passes:
  assumes "tallies w H t" "voting_ok w r per s H" "s \<noteq> propose" "quorums_ok w (quorum_of s proto) H"
  shows "\<exists>ob. overThreshold proto s t = Ok ob \<and> (ob \<noteq> None \<longleftrightarrow> passes w (quorum_of s proto) H)"
proof (cases "passes w (quorum_of s proto) H")
  case True
  then show ?thesis
    using overThreshold_Some[OF assms] by (auto simp: passes_def)
next
  case False
  then show ?thesis
    using overThreshold_None[OF assms(1-3)] by (auto simp: passes_def not_le)
qed

lemma emit_threshold_tells:
  assumes "tallies w H t" "voting_ok w r per s H" "s \<noteq> propose" "quorums_ok w (quorum_of s proto) H" "v \<in> set H"
    and ob: "ob \<noteq> None \<longleftrightarrow> passes w (quorum_of s proto) H0"
  shows "\<exists>te. emit_threshold proto v ob t = Ok te \<and> tells w r per s (quorum_of s proto) H0 H te"
proof (cases "passes w (quorum_of s proto) H")
  case True
  then obtain pv where pv: "quorum_of s proto \<le> support w H pv"
    by (auto simp: passes_def)
  have over: "overThreshold proto s t = Ok (Some pv)"
    by (rule overThreshold_Some[OF assms(1-4) pv])
  obtain vs es where "proves w (quorum_of s proto) H pv vs es" and gen: "genBundle proto t (counter_of t pv) =
      Ok \<lparr>ubRound = r, ubPeriod = per, ubStep = s, ubProposal = pv, ubVotes = map vote_auth vs, ubEquivocationVotes = map eq_auth es\<rparr>"
    using genBundle_ok[OF assms(1-4) pv] by blast
  then have "tells w r per s (quorum_of s proto) H0 H
      (if passes w (quorum_of s proto) H0 then thresholdEvent_zero else quorum_event r per s pv vs es)"
    using True pv by (auto simp: tells_def)
  then show ?thesis
    using voting_okD[OF assms(2,5)] over gen ob by (auto simp: emit_threshold_def Let_def quorum_event_def res_bind_def split: if_splits)
next
  case False
  have "overThreshold proto s t = Ok None"
    by (rule overThreshold_None[OF assms(1-3)]) (use False in \<open>simp add: passes_def not_le\<close>)
  then show ?thesis
    using voting_okD(3)[OF assms(2,5)] False by (simp add: emit_threshold_def Let_def tells_def res_bind_def)
qed

lemma accept_vote_equivocation:
  assumes "fmlookup (Equivocators t) (rvSender (vR v)) = None" "fmlookup (Voters t) (rvSender (vR v)) = Some u"
    "vote_value u \<noteq> vote_value v" "overThreshold (Consensus_or_zero ver) (rvStep (vR v)) t = Ok ob"
  shows "accept_vote v ver t =
     (let t1 = t\<lparr>EquivocatorsCount := EquivocatorsCount t + Weight (vCred v)\<rparr> in
      if reachesQuorum (rvStep (vR v)) (Consensus_or_zero ver) (EquivocatorsCount t1) then
        (Panic (Errorf ''too many equivocators for step''), t1)
      else if fmdom (Voters (equivocate u v t)) = {||} then (Ok thresholdEvent_zero, equivocate u v t)
      else (emit_threshold (Consensus_or_zero ver) v ob (equivocate u v t), equivocate u v t))"
  using assms by (simp add: accept_vote_def Let_def equivocate_def)

lemma no_voters_no_quorum:
  assumes "tallies w H t" "quorums_ok w T H" "fmdom (Voters t) = {||}"
  shows "\<not> passes w T H"
proof
  assume "passes w T H"
  then obtain pv where "live H pv \<noteq> {}"
    using quorum_live[OF assms(2)] unfolding passes_def by blast
  then obtain who where "who \<in> live H pv"
    by blast
  then have "fmlookup (Voters t) who \<noteq> None"
    using assms(1) by (auto simp: tallies_def live_def)
  then show False
    using assms(3) by (auto simp: fmdom_notI dest: fmdomI)
qed

lemma tallies_Voters: "tallies w H t \<Longrightarrow> fmlookup (Voters t) who = (if clash H who = None then first_vote H who else None)"
  by (simp add: tallies_def)

lemma tallies_Equivocators: "tallies w H t \<Longrightarrow> fmlookup (Equivocators t) who = None \<longleftrightarrow> clash H who = None"
  using clash_Some[of H who] by (cases "clash H who") (auto simp: tallies_def)

lemma unchanged_tells:
  assumes "first_vote (H @ [v]) = first_vote H \<and> clash (H @ [v]) = clash H"
  shows "tells w r per s T H (H @ [v]) thresholdEvent_zero"
proof -
  have "support w (H @ [v]) = support w H"
    using assms by (simp add: support_def live_def equivs_def fun_eq_iff)
  then have "passes w T (H @ [v]) = passes w T H"
    by (simp add: passes_def)
  then show ?thesis
    by (simp add: tells_def)
qed

lemma accept_second_vote:
  assumes t: "tallies w H t" and ok: "voting_ok w r per s (H @ [v])" and np: "s \<noteq> propose"
    and q: "quorums_ok w (quorum_of s (Consensus_or_zero ver)) (H @ [v])"
    and ob: "overThreshold (Consensus_or_zero ver) s t = Ok ob"
    and c: "clash H (rvSender (vR v)) = None" "first_vote H (rvSender (vR v)) = Some u" "vote_value u \<noteq> vote_value v"
  shows "accept_vote v ver t =
        (if fmdom (Voters (equivocate u v t)) = {||} then Ok thresholdEvent_zero
         else emit_threshold (Consensus_or_zero ver) v ob (equivocate u v t), equivocate u v t)"
proof -
  have "EquivocatorsCount (equivocate u v t) = EquivocatorsCount t + Weight (vCred v)"
    by (simp add: equivocate_def)
  then have "\<not> reachesQuorum s (Consensus_or_zero ver) (EquivocatorsCount t + Weight (vCred v))"
    using tallies_equivocate[OF t ok c] q np by (simp add: reachesQuorum_iff tallies_def quorums_ok_def)
  moreover have "rvStep (vR v) = s"
    using voting_okD[OF ok, of v] by simp
  ultimately show ?thesis
    using accept_vote_equivocation[of t v u ver ob] ob c by (simp add: Let_def tallies_Voters[OF t] tallies_Equivocators[OF t])
qed

lemma accept_vote_step:
  fixes ver s
  defines "T \<equiv> quorum_of s (Consensus_or_zero ver)"
  assumes t: "tallies w H t" and ok: "voting_ok w r per s (H @ [v])" and np: "s \<noteq> propose" and q: "quorums_ok w T (H @ [v])"
  shows "\<exists>te t'. accept_vote v ver t = (Ok te, t') \<and> tallies w (H @ [v]) t' \<and> tells w r per s T H (H @ [v]) te"
proof -
  let ?who = "rvSender (vR v)"
  have s: "rvStep (vR v) = s"
    using voting_okD[OF ok, of v] by simp
  obtain ob where ob: "overThreshold (Consensus_or_zero ver) s t = Ok ob" and obp: "ob \<noteq> None \<longleftrightarrow> passes w T H"
    using overThreshold_passes[OF t voting_ok_prefix[OF ok] np quorums_ok_prefix[OF q[unfolded T_def]]] by (auto simp: T_def)
  have tells: "\<exists>te. emit_threshold (Consensus_or_zero ver) v ob t' = Ok te \<and> tells w r per s T H (H @ [v]) te"
    if "tallies w (H @ [v]) t'" for t'
    unfolding T_def by (rule emit_threshold_tells[OF that ok np q[unfolded T_def]]) (use obp in \<open>auto simp: T_def\<close>)
  consider (old) "clash H ?who \<noteq> None \<or> (\<exists>u. first_vote H ?who = Some u \<and> vote_value u = vote_value v)"
    | (fresh) "clash H ?who = None" "first_vote H ?who = None"
    | (second) u where "clash H ?who = None" "first_vote H ?who = Some u" "vote_value u \<noteq> vote_value v"
    by (cases "first_vote H ?who") auto
  then show ?thesis
  proof cases
    case old
    have "accept_vote v ver t = (Ok thresholdEvent_zero, t)"
      using old ob s by (cases "clash H ?who") (auto simp: accept_vote_def Let_def tallies_Voters[OF t] tallies_Equivocators[OF t])
    then show ?thesis
      using unchanged_tells tallies_ignored[OF t] ignored_vote[OF old refl] by blast
  next
    case fresh
    note tr = tallies_add[OF t ok fresh(2)]
    have "accept_vote v ver t = (emit_threshold (Consensus_or_zero ver) v ob (add_vote v t), add_vote v t)"
      using fresh ob s by (simp add: accept_vote_def Let_def tallies_Voters[OF t] tallies_Equivocators[OF t])
    then show ?thesis
      using tells[OF tr] tr by auto
  next
    case second
    note tr = tallies_equivocate[OF t ok second] and eq = accept_second_vote[OF t ok np q[unfolded T_def] ob second]
    show ?thesis
    proof (cases "fmdom (Voters (equivocate u v t)) = {||}")
      case True
      then show ?thesis
        using eq tr no_voters_no_quorum[OF tr q] by (simp add: tells_def)
    next
      case False
      then show ?thesis
        using eq tr tells[OF tr] by auto
    qed
  qed
qed

section \<open>Counting a sequence of votes\<close>

fun accept_votes :: "ConsensusVersion \<Rightarrow> vote list \<Rightarrow> (voteTracker, goerror, thresholdEvent list) act" where
  "accept_votes ver [] = act_return []"
| "accept_votes ver (v # vs) =
     act_bind (accept_vote v ver) (\<lambda>te. act_bind (accept_votes ver vs) (\<lambda>tes. act_return (te # tes)))"

lemma passes_grows: "passes w T H \<Longrightarrow> passes w T (H @ vs)"
  unfolding passes_def using support_grows_append order_trans by blast

text \<open>The events told while \<open>vs\<close> follow the history \<open>H\<close>: one if a value first reaches the quorum there, and none otherwise.\<close>

definition tells_all :: "(Address \<Rightarrow> u64) \<Rightarrow> Round \<Rightarrow> period \<Rightarrow> step \<Rightarrow> nat \<Rightarrow> vote list \<Rightarrow> vote list \<Rightarrow> thresholdEvent list \<Rightarrow> bool" where
  "tells_all w r per s T H0 H tes \<longleftrightarrow>
     (if passes w T H \<and> \<not> passes w T H0
      then \<exists>pv vs es. T \<le> support w H pv \<and> proves w T H pv vs es \<and> filter (\<lambda>te. thT te \<noteq> none) tes = [quorum_event r per s pv vs es]
      else filter (\<lambda>te. thT te \<noteq> none) tes = [])"

lemma quorum_event_emits [simp]: "thT (quorum_event r per s pv vs es) \<noteq> none" "thT thresholdEvent_zero = none"
  by (simp_all add: quorum_event_def threshold_event_type_def thresholdEvent_zero_def)

lemma proves_more: "proves w T H pv vs es \<Longrightarrow> proves w T (H @ us) pv vs es"
  unfolding proves_def by (simp, blast)

lemma tells_all_Cons:
  assumes "tells w r per s T H (H @ [v]) te" "tells_all w r per s T (H @ [v]) (H @ v # vs) tes"
  shows "tells_all w r per s T H (H @ v # vs) (te # tes)"
proof (cases "passes w T (H @ [v])")
  case True
  then have "passes w T (H @ v # vs)"
    using passes_grows[of w T "H @ [v]" vs] by simp
  then show ?thesis
    using assms True proves_more[of w T "H @ [v]" _ _ _ vs] support_grows_append[of w "H @ [v]" _ vs]
    by (fastforce simp: tells_def tells_all_def intro: order_trans split: if_splits)
next
  case False
  moreover have "\<not> passes w T H"
    using False passes_grows by blast
  ultimately show ?thesis
    using assms by (auto simp: tells_def tells_all_def)
qed

lemma accept_votes_tells:
  assumes "tallies w H t" "voting_ok w r per s (H @ vs)" "s \<noteq> propose" "quorums_ok w (quorum_of s (Consensus_or_zero ver)) (H @ vs)"
  shows "\<exists>tes t'. accept_votes ver vs t = (Ok tes, t') \<and> tallies w (H @ vs) t' \<and>
     tells_all w r per s (quorum_of s (Consensus_or_zero ver)) H (H @ vs) tes"
  using assms
proof (induction vs arbitrary: H t)
  case Nil
  then show ?case
    by (auto simp: act_return_def tells_all_def)
next
  case (Cons v vs)
  have ok: "voting_ok w r per s (H @ [v])" and q: "quorums_ok w (quorum_of s (Consensus_or_zero ver)) (H @ [v])"
    using voting_ok_prefix[of w r per s "H @ [v]" vs] quorums_ok_prefix[of w _ "H @ [v]" vs] Cons.prems by simp_all
  obtain te t1 where 1: "accept_vote v ver t = (Ok te, t1)" "tallies w (H @ [v]) t1"
    "tells w r per s (quorum_of s (Consensus_or_zero ver)) H (H @ [v]) te"
    using accept_vote_step[OF Cons.prems(1) ok Cons.prems(3) q] by blast
  obtain tes t2 where 2: "accept_votes ver vs t1 = (Ok tes, t2)" "tallies w (H @ v # vs) t2"
    "tells_all w r per s (quorum_of s (Consensus_or_zero ver)) (H @ [v]) (H @ v # vs) tes"
    using Cons.IH[OF 1(2)] Cons.prems by auto
  show ?case
    using 1(1) 2(1,2) tells_all_Cons[OF 1(3) 2(3)] by (simp add: act_bind_def act_return_def)
qed

section \<open>The bundle of a quorum verifies\<close>

lemma auth_vote_auth:
  assumes "rvRound (vR v) = ubRound b" "rvPeriod (vR v) = ubPeriod b" "rvStep (vR v) = ubStep b" "vote_value v = ubProposal b"
  shows "auth_vote b (vote_auth v) = vote_u v"
  using assms by (simp add: auth_vote_def vote_auth_def vote_u_def)

lemma verify_all_Ok: "(\<And>x. x \<in> set xs \<Longrightarrow> f (g x) = Ok x) \<Longrightarrow> verify_all f (map g xs) = Ok xs"
  by (induction xs) (simp_all add: res_bind_def)

text \<open>The credential of a vote does not depend on what the vote is for.\<close>

lemma vote_verify_swap:
  assumes "vote_verify E l (vote_u v0) = Ok v0" "vote_verify E l (vote_u v1) = Ok v1"
    and "rvSender (vR v1) = rvSender (vR v0)" "rvRound (vR v1) = rvRound (vR v0)" "rvPeriod (vR v1) = rvPeriod (vR v0)"
      "rvStep (vR v1) = rvStep (vR v0)"
  shows "vote_verify E l \<lparr>uvR = vR v1, uvCred = crUnauthenticated (vCred v0), uvSig = vSig v1\<rparr> = Ok (v1\<lparr>vCred := vCred v0\<rparr>)"
  using assms by (cases v0; cases v1) (auto simp: vote_verify_def vote_u_def Let_def act_simps split: if_splits)

lemma eq_verify_equivocation:
  assumes v: "vote_verify E l (vote_u v0) = Ok v0" "vote_verify E l (vote_u v1) = Ok v1"
    and s: "rvSender (vR v1) = rvSender (vR v0)" "rvRound (vR v1) = rvRound (vR v0)" "rvPeriod (vR v1) = rvPeriod (vR v0)"
      "rvStep (vR v1) = rvStep (vR v0)" and d: "vote_value v1 \<noteq> vote_value v0"
    and b: "rvRound (vR v0) = ubRound b" "rvPeriod (vR v0) = ubPeriod b" "rvStep (vR v0) = ubStep b"
  shows "eq_verify E l (auth_equivocation b (eq_auth (equivocation_of v0 v1))) = Ok (equivocation_of v0 v1)"
proof -
  have r0: "\<lparr>rvSender = rvSender (vR v0), rvRound = ubRound b, rvPeriod = ubPeriod b, rvStep = ubStep b, rvProposal = vote_value v0\<rparr> = vR v0"
    and r1: "\<lparr>rvSender = rvSender (vR v0), rvRound = ubRound b, rvPeriod = ubPeriod b, rvStep = ubStep b, rvProposal = vote_value v1\<rparr> = vR v1"
    using b s by (simp_all add: rawVote.equality)
  show ?thesis
    using v(1) vote_verify_swap[OF v s] d b
    by (simp add: eq_verify_def auth_equivocation_def eq_auth_def equivocation_of_def Let_def r0 r1 res_bind_def vote_u_def)
qed

lemma unat_sum_list: "total_weight f xs < 2 ^ 64 \<Longrightarrow> unat (sum_list (map f xs)) = total_weight f xs"
  by (induction xs) (simp_all add: unat_add_bounded)

lemma bundle_members_verify:
  assumes p: "proves w T H (ubProposal b) vs es" and ok: "voting_ok w (ubRound b) (ubPeriod b) (ubStep b) H"
    and v: "\<And>v. v \<in> set H \<Longrightarrow> vote_verify E l (vote_u v) = Ok v"
  shows "verify_all (vote_verify E l) (map (auth_vote b) (map vote_auth vs)) = Ok vs"
    "verify_all (eq_verify E l) (map (auth_equivocation b) (map eq_auth es)) = Ok es"
proof -
  have "vote_verify E l (auth_vote b (vote_auth x)) = Ok x" if "x \<in> set vs" for x
  proof -
    have "x \<in> set H" "vote_value x = ubProposal b"
      using that p by (auto simp: proves_def)
    then show ?thesis
      using v voting_okD[OF ok, of x] by (simp add: auth_vote_auth)
  qed
  then show "verify_all (vote_verify E l) (map (auth_vote b) (map vote_auth vs)) = Ok vs"
    using verify_all_Ok[of vs "vote_verify E l" "auth_vote b \<circ> vote_auth"] by (simp add: comp_def)
  have "eq_verify E l (auth_equivocation b (eq_auth x)) = Ok x" if x: "x \<in> set es" for x
  proof -
    obtain v0 v1 where v01: "v0 \<in> set H" "v1 \<in> set H" "rvSender (vR v1) = rvSender (vR v0)" "vote_value v1 \<noteq> vote_value v0"
      "x = equivocation_of v0 v1"
      using x p unfolding proves_def by blast
    then show ?thesis
      using v voting_okD[OF ok, of v0] voting_okD[OF ok, of v1] by (simp add: eq_verify_equivocation)
  qed
  then show "verify_all (eq_verify E l) (map (auth_equivocation b) (map eq_auth es)) = Ok es"
    using verify_all_Ok[of es "eq_verify E l" "auth_equivocation b \<circ> eq_auth"] by (simp add: comp_def)
qed

lemma quorum_bundle_verifies:
  assumes p: "proves w (quorum_of s proto) H pv vs es" and ok: "voting_ok w r per s H" and np: "s \<noteq> propose"
    and v: "\<And>v. v \<in> set H \<Longrightarrow> vote_verify E l (vote_u v) = Ok v" and l: "lrConsensusParams l (ParamsRound r) = Ok proto"
  shows "bundle_verify E l (thBundle (quorum_event r per s pv vs es)) =
    Ok \<lparr>bU = thBundle (quorum_event r per s pv vs es), bVotes = vs, bEquivocationVotes = es\<rparr>"
proof -
  define b where "b = thBundle (quorum_event r per s pv vs es)"
  have b: "ubRound b = r" "ubPeriod b = per" "ubStep b = s" "ubProposal b = pv" "ubVotes b = map vote_auth vs"
    "ubEquivocationVotes b = map eq_auth es"
    by (simp_all add: b_def quorum_event_def)
  have mem: "verify_all (vote_verify E l) (map (auth_vote b) (ubVotes b)) = Ok vs"
    "verify_all (eq_verify E l) (map (auth_equivocation b) (ubEquivocationVotes b)) = Ok es"
    using bundle_members_verify[of w _ H b vs es E l] p ok v unfolding b by simp_all
  have len: "length vs + length es \<le> unat (threshold s proto)"
    using p by (simp add: proves_def quorum_of_def)
  also have "\<dots> < 2 ^ 64"
    using unsigned_less[of "threshold s proto", where 'a = nat] by simp
  finally have small: "length vs + length es < 2 ^ 64" .
  have size: "\<not> (threshold s proto < of_nat (length vs) \<or> threshold s proto < of_nat (length es)
      \<or> threshold s proto < of_nat (length vs) + of_nat (length es))"
    using len small by (simp add: word_less_nat_alt unat_of_nat flip: of_nat_add)
  have "unat (sum_list (map vote_weight vs) + sum_list (map eq_weight es)) = total_weight vote_weight vs + total_weight eq_weight es"
    using p by (simp add: proves_def unat_add_bounded unat_sum_list)
  then have q: "reachesQuorum s proto (sum_list (map vote_weight vs) + sum_list (map eq_weight es))"
    using p np by (simp add: proves_def reachesQuorum_iff)
  have d: "distinct (map vaSender (ubVotes b) @ map eaSender (ubEquivocationVotes b))"
    using p by (simp add: b proves_def vote_auth_def eq_auth_def comp_def)
  show ?thesis
    using size mem d q l np unfolding bundle_verify_def b_def[symmetric] b(1-3) by (simp add: Let_def res_bind_def b(5,6))
qed

end
