(* ===== verification/Agreement_Properties.thy ===== *)
theory Agreement_Properties
  imports Vote_Bundles
begin

text \<open>
  Properties of the vote tracker of the agreement protocol: the quorums it finds and the bundles that prove
  them, with four concrete votes of a step, one voter voting twice, as the example.
\<close>

section \<open>Four votes\<close>

definition sample_value :: "Digest \<Rightarrow> proposalValue" where
  "sample_value d = \<lparr>pvOriginalPeriod = 0, pvOriginalProposer = 1, BlockDigest = d, EncodingDigest = d\<rparr>"

definition sample_weight :: "Address \<Rightarrow> u64" where
  "sample_weight who = (if who = 1 then 700 else if who = 2 then 500 else if who = 3 then 100 else 0)"

definition sample_agreement :: agree_env where
  "sample_agreement = \<lparr>aeHashes = \<lparr>txnHash = (\<lambda>_. 0), hdrHash = (\<lambda>_. 0), paysetHash = (\<lambda>_. 0), proxySetHash = (\<lambda>_. 0),
       groupHash = (\<lambda>_. 0), bytesHash = (\<lambda>_. 0), sha256 = (\<lambda>bs. bs)\<rparr>,
     aePayloadHash = (\<lambda>_. 0), aeCredentialHash = Member, aeHash = (\<lambda>_. 0), aeProposerSeedHash = (\<lambda>_ _. 0),
     aeSeedHash = (\<lambda>_. 0), aeSeedInputHash = (\<lambda>_ _. 0), aeVerifySelector = (\<lambda>_ _ _. (True, 0)),
     aeVerifySeed = (\<lambda>_ _ _. (True, 0)), aeProofHash = (\<lambda>_. Some 0), aeVerifyVote = (\<lambda>_ _ _ s. otSig s = 5),
     aeSelect = (\<lambda>stake _ _ _. stake)\<rparr>"

definition sample_reader :: LedgerReader where
  "sample_reader = \<lparr>lrConsensusParams = (\<lambda>_. Ok (Consensus_or_zero ConsensusV19)),
     lrBalanceRecord = (\<lambda>_ who. Ok \<lparr>brAddr = who, brData = MakeAccountData Online (sample_weight who)\<rparr>),
     lrCirculation = (\<lambda>_. Ok 1000000), lrSeed = (\<lambda>_. Ok 0), lrLookupDigest = (\<lambda>_. Ok 0)\<rparr>"

definition sample_vote :: "Address \<Rightarrow> Digest \<Rightarrow> vote" where
  "sample_vote who d =
     (case vote_verify sample_agreement sample_reader
        \<lparr>uvR = \<lparr>rvSender = who, rvRound = 4, rvPeriod = 0, rvStep = cert, rvProposal = sample_value d\<rparr>,
         uvCred = \<lparr>Proof = 0\<rparr>, uvSig = OneTimeSignature_zero\<lparr>otSig := 5\<rparr>\<rparr> of Ok v \<Rightarrow> v | _ \<Rightarrow> vote_zero)"

text \<open>The third voter votes twice.\<close>

definition sample_votes :: "vote list" where
  "sample_votes = [sample_vote 1 10, sample_vote 3 20, sample_vote 3 10, sample_vote 2 10]"

lemma sample_votes_verify: "list_all (\<lambda>v. vote_verify sample_agreement sample_reader (vote_u v) = Ok v) sample_votes"
  by code_simp

lemma sample_vote_parts: "vR (sample_vote who d) = \<lparr>rvSender = who, rvRound = 4, rvPeriod = 0, rvStep = cert, rvProposal = sample_value d\<rparr>"
  "Weight (vCred (sample_vote who d)) = sample_weight who" if "who \<in> {1, 2, 3}"
  using that by (auto, code_simp+)

lemma sample_quorum: "quorum_of cert (Consensus_or_zero ConsensusV19) = 1112"
  by code_simp

lemma sample_voters: "voters_of sample_votes = {1, 2, 3}"
  by (auto simp: voters_of_def sample_votes_def sample_vote_parts)

lemma sample_values: "sample_value 10 \<noteq> sample_value 20"
  by (simp add: sample_value_def)

lemma sample_firsts:
  "first_vote sample_votes 1 = Some (sample_vote 1 10)" "first_vote sample_votes 2 = Some (sample_vote 2 10)"
  "first_vote sample_votes 3 = Some (sample_vote 3 20)"
  by (simp_all add: first_vote_def sample_votes_def sample_vote_parts)

lemma sample_clashes:
  "clash sample_votes 1 = None" "clash sample_votes 2 = None" "clash sample_votes 3 = Some (sample_vote 3 10)"
  unfolding clash_def sample_firsts by (simp_all add: sample_votes_def sample_vote_parts sample_values)

lemma sample_equivs: "equivs sample_votes = {3}"
  using equivs_voters [of sample_votes] sample_clashes unfolding sample_voters by (auto simp: equivs_def)


lemma sample_voting: "voting_ok sample_weight 4 0 cert sample_votes" "quorums_ok sample_weight 1112 sample_votes"
  by (simp_all add: voting_ok_def quorums_ok_def sample_voters sample_equivs weigh_def sample_weight_def)
    (simp_all add: sample_votes_def sample_vote_parts sample_weight_def)


lemma sample_step: "cert \<noteq> propose"
  by (simp add: cert_def propose_def)

section \<open>Quorums\<close>



text \<open>
  C34: The bundle of votes and equivocations a threshold event carries passes the verification of bundles
  on every node, when the votes were verified against its ledger: it names no voter twice, is not larger than the threshold, and
  reaches it.
\<close>

theorem told_quorum_is_proved:
  assumes "voting_ok w r per s H" and "s \<noteq> propose" and "quorums_ok w (quorum_of s (Consensus_or_zero ver)) H"
    and "accept_votes ver H voteTracker_zero = (Ok tes, t)" and "te \<in> set tes" and "thT te \<noteq> none"
    and "list_all (\<lambda>v. vote_verify E l (vote_u v) = Ok v) H" and "lrConsensusParams l (ParamsRound r) = Ok (Consensus_or_zero ver)"
  shows "\<exists>b. bundle_verify E l (thBundle te) = Ok b \<and> bU b = thBundle te \<and> ubProposal (bU b) = thProposal te \<and>
    ubRound (bU b) = r \<and> ubPeriod (bU b) = per \<and> ubStep (bU b) = s"
proof -
  let ?T = "quorum_of s (Consensus_or_zero ver)"
  have te: "tells_all w r per s ?T [] H tes"
    using accept_votes_tells [OF tallies_Nil, of w r per s H ver] assms(1-4) by auto
  have "filter (\<lambda>te. thT te \<noteq> none) tes \<noteq> []"
    using assms(5,6) by (auto simp: filter_empty_conv)
  then obtain pv vs es where p: "proves w ?T H pv vs es" "filter (\<lambda>te. thT te \<noteq> none) tes = [quorum_event r per s pv vs es]"
    using te by (auto simp: tells_all_def split: if_splits)
  have "te \<in> set (filter (\<lambda>te. thT te \<noteq> none) tes)"
    using assms(5,6) by simp
  then have "te = quorum_event r per s pv vs es"
    unfolding p(2) by simp
  moreover have "bundle_verify E l (thBundle (quorum_event r per s pv vs es)) =
      Ok \<lparr>bU = thBundle (quorum_event r per s pv vs es), bVotes = vs, bEquivocationVotes = es\<rparr>"
    by (rule quorum_bundle_verifies [OF p(1) assms(1,2) _ assms(8)]) (use assms(7) in \<open>simp add: list_all_iff\<close>)
  ultimately show ?thesis
    by (simp add: quorum_event_def)
qed

theorem told_quorum_is_proved_witness:
  "\<exists>tes t te. accept_votes ConsensusV19 sample_votes voteTracker_zero = (Ok tes, t) \<and> te \<in> set tes \<and> thProposal te = sample_value 10 \<and>
     (\<exists>b. bundle_verify sample_agreement sample_reader (thBundle te) = Ok b \<and> bU b = thBundle te)"
proof -
  have T: "quorums_ok sample_weight (quorum_of cert (Consensus_or_zero ConsensusV19)) sample_votes"
    unfolding sample_quorum by (rule sample_voting)
  have run: "case accept_votes ConsensusV19 sample_votes voteTracker_zero of
      (Ok tes, _) \<Rightarrow> list_ex (\<lambda>te. thT te \<noteq> none \<and> thProposal te = sample_value 10) tes | _ \<Rightarrow> False"
    by code_simp
  then obtain tes t te where te: "accept_votes ConsensusV19 sample_votes voteTracker_zero = (Ok tes, t)" "te \<in> set tes"
    "thT te \<noteq> none" "thProposal te = sample_value 10"
    by (auto simp: list_ex_iff split: prod.splits result.splits)
  have "lrConsensusParams sample_reader (ParamsRound 4) = Ok (Consensus_or_zero ConsensusV19)"
    by (simp add: sample_reader_def)
  from told_quorum_is_proved [OF sample_voting(1) sample_step T te(1-3) sample_votes_verify this] te show ?thesis
    by blast
qed

end
