(* ===== verification/Proposal_Machine.thy ===== *)
theory Proposal_Machine
  imports Vote_Machine
begin

text \<open>
  The player's state (\<open>player.go\<close>, \<open>proposalTable.go\<close>), the contracts of the machines (\<open>listener.go\<close>,
  \<open>voteTrackerContract.go\<close>, \<open>proposalTrackerContract.go\<close>) and the machine that tracks the proposals of one
  period (\<open>proposalTracker.go\<close>): the lowest credential seen, and the value a soft quorum staged.
\<close>

section \<open>The player's state\<close>

record proposalTable =
  Pending :: "(int, messageEvent option) fmap"
  PendingNext :: int

definition push :: "messageEvent option \<Rightarrow> proposalTable \<Rightarrow> int \<times> proposalTable" where
  "push e tbl =
     (let n = PendingNext tbl + 1 in (n, \<lparr>Pending = fmupd n e (Pending tbl), PendingNext = n\<rparr>))"

definition pop :: "int \<Rightarrow> proposalTable \<Rightarrow> messageEvent option \<times> proposalTable" where
  "pop taskIndex tbl =
     ((case fmlookup (Pending tbl) taskIndex of None \<Rightarrow> None | Some e \<Rightarrow> e),
      tbl\<lparr>Pending := fmdrop taskIndex (Pending tbl)\<rparr>)"

record player =
  plRound :: Round
  plPeriod :: period
  plStep :: step
  LastConcluding :: step
  Deadline :: Duration
  Napping :: bool
  FastRecoveryDeadline :: Duration
  plPending :: proposalTable

section \<open>Contracts\<close>

text \<open>
  Every state machine but the player is wrapped in a check of its contract; a violated pre- or
  postcondition panics.  A check yields whether the condition is violated and the next
  state of the contract.
\<close>

definition contract_violation :: goerror where
  "contract_violation = Errorf ''contract violated''"

definition checked ::
    "('c \<Rightarrow> bool \<times> 'c) \<Rightarrow> (event \<Rightarrow> 'c \<Rightarrow> bool \<times> 'c) \<Rightarrow> ('s, goerror, event) act \<Rightarrow> ('s \<times> 'c, goerror, event) act" where
  "checked pre post m =
     (\<lambda>(s, c). let (bad, c1) = pre c in
        if bad then (Panic contract_violation, (s, c1))
        else
          case m s of
            (Ok out, s1) \<Rightarrow> (let (bad, c2) = post out c1 in (if bad then Panic contract_violation else Ok out, (s1, c2)))
          | (Err e, s1) \<Rightarrow> (Err e, (s1, c1))
          | (Panic e, s1) \<Rightarrow> (Panic e, (s1, c1)))"

record voteTrackerContract =
  vcStep :: step
  vcStepOk :: bool
  Emitted :: bool

definition voteTracker_pre :: "event \<Rightarrow> voteTrackerContract \<Rightarrow> bool \<times> voteTrackerContract" where
  "voteTracker_pre e c =
     (case e of
        VoteAcceptedE v ver \<Rightarrow>
          let s = rvStep (vR v) in
          (s = propose \<or> vcStepOk c \<and> vcStep c \<noteq> s, if vcStepOk c then c else c\<lparr>vcStepOk := True, vcStep := s\<rparr>)
      | VoteFilterRequestE rv \<Rightarrow> (False, c)
      | DumpVotesRequestE \<Rightarrow> (False, c)
      | _ \<Rightarrow> (True, c))"

definition mismatched_threshold :: "step \<Rightarrow> eventType \<Rightarrow> bool" where
  "mismatched_threshold s T \<longleftrightarrow>
     (if T = none then False
      else if T = softThreshold then s \<noteq> soft
      else if T = certThreshold then s \<noteq> cert
      else if T = nextThreshold then s \<le> cert
      else True)"

definition voteTracker_post :: "event \<Rightarrow> event \<Rightarrow> voteTrackerContract \<Rightarrow> bool \<times> voteTrackerContract" where
  "voteTracker_post e out c =
     (case e of
        VoteAcceptedE v ver \<Rightarrow>
          (case out of
             ThresholdE te \<Rightarrow>
               let T = thT te; emits = threshold_type T in
               (mismatched_threshold (rvStep (vR v)) T \<or> emits \<and> Emitted c \<or>
                T \<in> {softThreshold, certThreshold} \<and> thProposal te = bottom \<or>
                (T = none) \<noteq> (ubVotes (thBundle te) = []) \<or>
                T \<noteq> none \<and> thProposal te = bottom \<and> thStep te < next_step,
                if emits then c\<lparr>Emitted := True\<rparr> else c)
           | _ \<Rightarrow> (True, c))
      | VoteFilterRequestE rv \<Rightarrow> (event_t out \<notin> {none, voteFilteredStep}, c)
      | _ \<Rightarrow> (False, c))"

section \<open>Proposals of a period\<close>

record proposalSeeker =
  Lowest :: vote
  skFilled :: bool
  Frozen :: bool

record proposalTracker =
  Duplicate :: "(Address, bool) fmap"
  Freezer :: proposalSeeker
  Staging :: proposalValue

definition proposalTracker_zero :: proposalTracker where
  "proposalTracker_zero = \<lparr>Duplicate = fmempty, Freezer = \<lparr>Lowest = vote_zero, skFilled = False, Frozen = False\<rparr>, Staging = bottom\<rparr>"

definition seeker_accept :: "agree_env \<Rightarrow> vote \<Rightarrow> proposalSeeker \<Rightarrow> (string, proposalSeeker) result" where
  "seeker_accept E v s =
     (if Frozen s then Err ''proposalSeeker.accept: seeker is already frozen''
      else if skFilled s \<and> \<not> Less E (vCred v) (vCred (Lowest s)) then Err ''proposalSeeker.accept: credential is not less''
      else Ok (s\<lparr>Lowest := v, skFilled := True\<rparr>))"

definition freeze :: "proposalSeeker \<Rightarrow> proposalSeeker" where
  "freeze s = s\<lparr>Frozen := True\<rparr>"

definition is_duplicate :: "proposalTracker \<Rightarrow> Address \<Rightarrow> bool" where
  "is_duplicate tr who = (fmlookup (Duplicate tr) who = Some True)"

definition filtered_vote :: "string \<Rightarrow> event" where
  "filtered_vote msg = FilteredE voteFiltered (Some msg)"

definition track_proposal :: "agree_env \<Rightarrow> vote \<Rightarrow> proposalTracker \<Rightarrow> event \<times> proposalTracker" where
  "track_proposal E v tr =
     (let rv = vR v in
      if is_duplicate tr (rvSender rv) then (filtered_vote ''proposalTracker: sender had already sent a vote'', tr)
      else
        let tr1 = tr\<lparr>Duplicate := fmupd (rvSender rv) True (Duplicate tr)\<rparr> in
        if Staging tr \<noteq> bottom then (filtered_vote ''proposalTracker: value already staged'', tr1)
        else
          case seeker_accept E v (Freezer tr1) of
            Ok s \<Rightarrow>
              (ProposalAcceptedE \<lparr>paRound = rvRound rv, paPeriod = rvPeriod rv, paProposal = rvProposal rv,
                 paPayload = proposal_zero, paPayloadOk = False\<rparr>, tr1\<lparr>Freezer := s\<rparr>)
          | Err msg \<Rightarrow> (filtered_vote msg, tr1)
          | Panic msg \<Rightarrow> (filtered_vote msg, tr1))"

definition proposalTracker_handle :: "agree_env \<Rightarrow> event \<Rightarrow> (proposalTracker, goerror, event) act" where
  "proposalTracker_handle E e tr =
     (case e of
        VoteFilterRequestE rv \<Rightarrow>
          (Ok (if is_duplicate tr (rvSender rv) then filtered_vote ''proposalTracker: sender had already sent a vote'' else EmptyEvent), tr)
      | MessageE me \<Rightarrow>
          if meT me = voteVerified then (let (out, tr') = track_proposal E (msgVote (meInput me)) tr in (Ok out, tr'))
          else (Panic bad_event, tr)
      | ProposalFrozenE pv \<Rightarrow>
          (Ok (ProposalFrozenE (rvProposal (vR (Lowest (Freezer tr))))), tr\<lparr>Freezer := freeze (Freezer tr)\<rparr>)
      | ThresholdE te \<Rightarrow>
          if thT te = softThreshold then
            (Ok (ProposalAcceptedE \<lparr>paRound = thRound te, paPeriod = thPeriod te, paProposal = thProposal te,
                   paPayload = proposal_zero, paPayloadOk = False\<rparr>), tr\<lparr>Staging := thProposal te\<rparr>)
          else (Panic bad_event, tr)
      | StagingValueE se \<Rightarrow> (Ok (StagingValueE (se\<lparr>svProposal := Staging tr\<rparr>)), tr)
      | _ \<Rightarrow> (Panic bad_event, tr))"

record proposalTrackerContract =
  SawOneVote :: bool
  Froze :: bool
  SawSoftThreshold :: bool
  Expected :: proposalValue

definition proposalTracker_pre :: "event \<Rightarrow> proposalTrackerContract \<Rightarrow> bool \<times> proposalTrackerContract" where
  "proposalTracker_pre e c =
     (event_t e \<notin> {voteVerified, proposalFrozen, softThreshold, voteFilterRequest, readStaging} \<or>
      event_t e = proposalFrozen \<and> Froze c \<or>
      event_t e = softThreshold \<and> (SawSoftThreshold c \<or> (case e of ThresholdE te \<Rightarrow> thProposal te = bottom | _ \<Rightarrow> True)), c)"

definition first_vote_refused :: "event \<Rightarrow> event \<Rightarrow> bool" where
  "first_vote_refused e out \<longleftrightarrow>
     (case (e, out) of
        (MessageE me, ProposalAcceptedE pa) \<Rightarrow> paProposal pa \<noteq> rvProposal (vR (msgVote (meInput me)))
      | _ \<Rightarrow> True)"

definition proposalTracker_post :: "event \<Rightarrow> event \<Rightarrow> proposalTrackerContract \<Rightarrow> bool \<times> proposalTrackerContract" where
  "proposalTracker_post e out c =
     (if event_t e = voteVerified then
        (if event_t out \<notin> {proposalAccepted, voteFiltered} then (True, c)
         else
           (\<not> SawOneVote c \<and> \<not> Froze c \<and> \<not> SawSoftThreshold c \<and> first_vote_refused e out \<or>
            (Froze c \<or> SawSoftThreshold c) \<and> event_t out \<noteq> voteFiltered, c\<lparr>SawOneVote := True\<rparr>))
      else if event_t e = proposalFrozen then
        (case out of
           ProposalFrozenE pv \<Rightarrow> (\<not> SawOneVote c \<and> pv \<noteq> bottom, c\<lparr>Froze := True, Expected := pv\<rparr>)
         | _ \<Rightarrow> (True, c))
      else if event_t e = softThreshold then
        (case (e, out) of
           (ThresholdE te, ProposalAcceptedE pa) \<Rightarrow>
             (paProposal pa \<noteq> thProposal te, c\<lparr>SawSoftThreshold := True, Expected := paProposal pa\<rparr>)
         | _ \<Rightarrow> (True, c))
      else (False, c))"

end
