(* ===== verification/Router.thy ===== *)
theory Router
  imports Proposal_Machine
begin

text \<open>
  The tree of machines (\<open>agreement/router.go\<close>): the routers of steps, periods and rounds, the store of block
  payloads (\<open>proposalStore.go\<close>), the machines of a round (\<open>voteAuxiliary.go\<close>), and the
  vote aggregator and the proposal manager at the top (\<open>voteAggregator.go\<close>, \<open>proposalManager.go\<close>).
  A router creates the child an event is for and drops the children the player has left behind.
\<close>

section \<open>Routers of a step and a period\<close>

datatype stateMachineTag = demultiplexer | playerMachine
  | voteMachine | voteMachineRound | voteMachinePeriod | voteMachineStep
  | proposalMachine | proposalMachineRound | proposalMachinePeriod

record stepRouter =
  VoteTracker :: voteTracker
  VoteTrackerContract :: voteTrackerContract

definition stepRouter_zero :: stepRouter where
  "stepRouter_zero = \<lparr>VoteTracker = voteTracker_zero, VoteTrackerContract = \<lparr>vcStep = 0, vcStepOk = False, Emitted = False\<rparr>\<rparr>"

definition stepRouter_dispatch :: "event \<Rightarrow> stateMachineTag \<Rightarrow> (stepRouter, goerror, event) act" where
  "stepRouter_dispatch e dest sr =
     (if dest \<noteq> voteMachineStep then (Panic (Errorf ''bad dispatch''), sr)
      else
        let (r, (tr, c)) = checked (voteTracker_pre e) (voteTracker_post e) (voteTracker_handle e)
                             (VoteTracker sr, VoteTrackerContract sr) in
        (r, \<lparr>VoteTracker = tr, VoteTrackerContract = c\<rparr>))"

record periodRouter =
  ProposalTracker :: proposalTracker
  ProposalTrackerContract :: proposalTrackerContract
  CachedBottom :: bool
  CachedProposal :: proposalValue
  pdChildren :: "(step, stepRouter) fmap"

definition periodRouter_zero :: periodRouter where
  "periodRouter_zero =
     \<lparr>ProposalTracker = proposalTracker_zero,
      ProposalTrackerContract = \<lparr>SawOneVote = False, Froze = False, SawSoftThreshold = False, Expected = bottom\<rparr>,
      CachedBottom = False, CachedProposal = bottom, pdChildren = fmempty\<rparr>"

definition nil_child :: goerror where
  "nil_child = Errorf ''invalid memory address or nil pointer dereference''"

text \<open>Running a call on a child that a map holds by pointer.\<close>

definition on_entry ::
    "('s \<Rightarrow> ('k, 'c) fmap) \<Rightarrow> (('k, 'c) fmap \<Rightarrow> 's \<Rightarrow> 's) \<Rightarrow> 'k \<Rightarrow> ('c, goerror, 'a) act \<Rightarrow> ('s, goerror, 'a) act" where
  "on_entry get upd k m s =
     (case fmlookup (get s) k of
        None \<Rightarrow> (Panic nil_child, s)
      | Some c \<Rightarrow> (let (r, c') = m c in (r, upd (fmupd k c' (get s)) s)))"

definition periodRouter_update :: "step \<Rightarrow> periodRouter \<Rightarrow> periodRouter" where
  "periodRouter_update s pr =
     (if fmlookup (pdChildren pr) s = None then pr\<lparr>pdChildren := fmupd s stepRouter_zero (pdChildren pr)\<rparr> else pr)"

definition at_step :: "step \<Rightarrow> (stepRouter, goerror, 'a) act \<Rightarrow> (periodRouter, goerror, 'a) act" where
  "at_step s = on_entry pdChildren (\<lambda>m. pdChildren_update (\<lambda>_. m)) s"

definition proposalTracker_checked :: "agree_env \<Rightarrow> event \<Rightarrow> (periodRouter, goerror, event) act" where
  "proposalTracker_checked E e pr =
     (let (r, (tr, c)) = checked (proposalTracker_pre e) (proposalTracker_post e) (proposalTracker_handle E e)
                           (ProposalTracker pr, ProposalTrackerContract pr) in
      (r, pr\<lparr>ProposalTracker := tr, ProposalTrackerContract := c\<rparr>))"

text \<open>The machine of a period forwards votes and remembers the next-thresholds seen.\<close>

definition cache_next :: "event \<Rightarrow> (periodRouter, goerror, event) act" where
  "cache_next e pr =
     (case e of
        ThresholdE te \<Rightarrow>
          if thT te \<noteq> nextThreshold then (Panic bad_event, pr)
          else (Ok EmptyEvent, if thProposal te = bottom then pr\<lparr>CachedBottom := True\<rparr> else pr\<lparr>CachedProposal := thProposal te\<rparr>)
      | _ \<Rightarrow> (Panic bad_event, pr))"

definition voteTrackerPeriod_handle :: "event \<Rightarrow> (periodRouter, goerror, event) act" where
  "voteTrackerPeriod_handle e =
     (case e of
        VoteAcceptedE v ver \<Rightarrow>
          act_bind (\<lambda>pr. at_step (rvStep (vR v)) (stepRouter_dispatch e voteMachineStep) (periodRouter_update (rvStep (vR v)) pr)) (\<lambda>out.
          case out of
            ThresholdE te \<Rightarrow>
              if thT te \<noteq> none \<and> thStep te \<ge> next_step
              then act_bind (\<lambda>pr. cache_next out (periodRouter_update 0 pr)) (\<lambda>_. act_return out)
              else act_return out
          | _ \<Rightarrow> act_return out)
      | ThresholdE te \<Rightarrow> cache_next e
      | NextThresholdStatusRequestE \<Rightarrow> act_read (\<lambda>pr. NextThresholdStatusE (CachedBottom pr) (CachedProposal pr))
      | _ \<Rightarrow> act_panic bad_event)"

definition periodRouter_dispatch :: "agree_env \<Rightarrow> event \<Rightarrow> stateMachineTag \<Rightarrow> step \<Rightarrow> (periodRouter, goerror, event) act" where
  "periodRouter_dispatch E e dest s pr =
     (let pr1 = periodRouter_update s pr in
      if dest = proposalMachinePeriod then proposalTracker_checked E e pr1
      else if dest = voteMachinePeriod then voteTrackerPeriod_handle e pr1
      else at_step s (stepRouter_dispatch e dest) pr1)"

section \<open>Payloads of a round\<close>

record blockAssembler =
  Pipeline :: unauthenticatedProposal
  baFilled :: bool
  Payload :: proposal
  Assembled :: bool
  Authenticators :: "vote list"

definition blockAssembler_zero :: blockAssembler where
  "blockAssembler_zero = \<lparr>Pipeline = unauthenticatedProposal_zero, baFilled = False, Payload = proposal_zero, Assembled = False,
     Authenticators = []\<rparr>"

definition pipeline :: "unauthenticatedProposal \<Rightarrow> blockAssembler \<Rightarrow> (string, blockAssembler) result" where
  "pipeline p a =
     (if Assembled a then Err ''blockAssembler.pipeline: already assembled''
      else if baFilled a then Err ''blockAssembler.pipeline: already filled''
      else Ok (a\<lparr>Pipeline := p, baFilled := True\<rparr>))"

definition bind_payload :: "proposal \<Rightarrow> blockAssembler \<Rightarrow> (string, blockAssembler) result" where
  "bind_payload p a =
     (if Assembled a then Err ''blockAssembler.pipeline: already assembled''
      else Ok (a\<lparr>Payload := p, Assembled := True\<rparr>))"

definition authenticator :: "period \<Rightarrow> blockAssembler \<Rightarrow> vote" where
  "authenticator p a = (case filter (\<lambda>v. rvPeriod (vR v) = p) (Authenticators a) of [] \<Rightarrow> vote_zero | v # _ \<Rightarrow> v)"

definition assembler_trim :: "period \<Rightarrow> blockAssembler \<Rightarrow> blockAssembler" where
  "assembler_trim p a = a\<lparr>Authenticators := filter (\<lambda>v. rvPeriod (vR v) \<ge> p) (Authenticators a)\<rparr>"

record proposalStore =
  Relevant :: "(period, proposalValue) fmap"
  Pinned :: proposalValue
  Assemblers :: "(proposalValue, blockAssembler) fmap"

definition proposalStore_zero :: proposalStore where
  "proposalStore_zero = \<lparr>Relevant = fmempty, Pinned = bottom, Assemblers = fmempty\<rparr>"

definition assembler_of :: "proposalStore \<Rightarrow> proposalValue \<Rightarrow> blockAssembler" where
  "assembler_of store pv = (case fmlookup (Assemblers store) pv of None \<Rightarrow> blockAssembler_zero | Some a \<Rightarrow> a)"

definition store_trim :: "period \<Rightarrow> proposalStore \<Rightarrow> proposalStore" where
  "store_trim p store =
     (let keep = Pinned store # map_values (Relevant store) in
      store\<lparr>Assemblers :=
        fmdrop bottom (fold (\<lambda>pv. fmupd pv (assembler_trim p (assembler_of store pv))) keep fmempty)\<rparr>)"

text \<open>The greatest relevant period; the loop does not look at the values the periods find relevant.\<close>

definition lastRelevant :: "proposalValue \<Rightarrow> proposalStore \<Rightarrow> period \<times> bool" where
  "lastRelevant pv store =
     (if Pinned store = pv then (0, True)
      else (fold max (sorted_list_of_fset (fmdom (Relevant store))) 0, False))"

section \<open>The router of a round\<close>

record roundRouter =
  ProposalStore :: proposalStore
  Freshest :: thresholdEvent
  FreshestOk :: bool
  rdChildren :: "(period, periodRouter) fmap"

definition roundRouter_zero :: roundRouter where
  "roundRouter_zero = \<lparr>ProposalStore = proposalStore_zero, Freshest = thresholdEvent_zero, FreshestOk = False, rdChildren = fmempty\<rparr>"

definition roundRouter_update :: "player \<Rightarrow> period \<Rightarrow> roundRouter \<Rightarrow> roundRouter" where
  "roundRouter_update p per rr =
     (let cs = (if fmlookup (rdChildren rr) per = None then fmupd per periodRouter_zero (rdChildren rr) else rdChildren rr) in
      rr\<lparr>rdChildren := fmfilter (\<lambda>k. k + 1 \<ge> plPeriod p \<or> k \<le> 1) cs\<rparr>)"

definition at_period :: "period \<Rightarrow> (periodRouter, goerror, 'a) act \<Rightarrow> (roundRouter, goerror, 'a) act" where
  "at_period per = on_entry rdChildren (\<lambda>m. rdChildren_update (\<lambda>_. m)) per"

text \<open>Dispatching from a machine of the round to a machine below it.\<close>

definition round_below ::
    "agree_env \<Rightarrow> player \<Rightarrow> event \<Rightarrow> stateMachineTag \<Rightarrow> period \<Rightarrow> step \<Rightarrow> (roundRouter, goerror, event) act" where
  "round_below E p e dest per s rr = at_period per (periodRouter_dispatch E e dest s) (roundRouter_update p per rr)"

definition on_store :: "(proposalStore \<Rightarrow> proposalStore) \<Rightarrow> roundRouter \<Rightarrow> roundRouter" where
  "on_store f rr = rr\<lparr>ProposalStore := f (ProposalStore rr)\<rparr>"

definition read_staging :: "agree_env \<Rightarrow> player \<Rightarrow> stagingValueEvent \<Rightarrow> (roundRouter, goerror, stagingValueEvent) act" where
  "read_staging E p se =
     act_bind (round_below E p (StagingValueE se) proposalMachinePeriod (svPeriod se) 0) (\<lambda>out.
     case out of
       StagingValueE se' \<Rightarrow>
         act_read (\<lambda>rr. let ea = assembler_of (ProposalStore rr) (svProposal se') in
                     se'\<lparr>svCommittable := Assembled ea, svPayload := Payload ea\<rparr>)
     | _ \<Rightarrow> act_panic bad_event)"

definition staging_query :: "Round \<Rightarrow> period \<Rightarrow> stagingValueEvent" where
  "staging_query r per = \<lparr>svRound = r, svPeriod = per, svProposal = bottom, svPayload = proposal_zero, svCommittable = False\<rparr>"

text \<open>The store asks for its own staged value through its router.\<close>

definition store_staged :: "agree_env \<Rightarrow> player \<Rightarrow> Round \<Rightarrow> period \<Rightarrow> (roundRouter, goerror, stagingValueEvent) act" where
  "store_staged E p r per rr = read_staging E p (staging_query r per) (roundRouter_update p per rr)"

definition rejected :: "string \<Rightarrow> event" where
  "rejected msg = PayloadProcessedE (payloadProcessedEvent_zero\<lparr>ppT := payloadRejected, ppErr := Some msg\<rparr>)"

definition store_vote :: "agree_env \<Rightarrow> player \<Rightarrow> messageEvent \<Rightarrow> (roundRouter, goerror, event) act" where
  "store_vote E p me =
     (let v = msgVote (meInput me) in
      act_bind (round_below E p (MessageE me) proposalMachinePeriod (rvPeriod (vR v)) 0) (\<lambda>ev.
      case ev of
        ProposalAcceptedE pa \<Rightarrow>
          (\<lambda>rr. let st = ProposalStore rr; ea = assembler_of st (paProposal pa);
                    ea = ea\<lparr>Authenticators := Authenticators ea @ [v]\<rparr>;
                    st = st\<lparr>Assemblers := fmupd (paProposal pa) ea (Assemblers st),
                            Relevant := fmupd (rvPeriod (vR v)) (paProposal pa) (Relevant st)\<rparr> in
                (Ok (ProposalAcceptedE (pa\<lparr>paPayload := Payload ea, paPayloadOk := Assembled ea\<rparr>)),
                 rr\<lparr>ProposalStore := store_trim (plPeriod p) st\<rparr>))
      | _ \<Rightarrow> act_return ev))"

definition pipelined :: "player \<Rightarrow> proposalStore \<Rightarrow> proposalValue \<Rightarrow> blockAssembler \<Rightarrow> unauthenticatedProposal \<Rightarrow> event" where
  "pipelined p st pv ea up =
     (let (relevantPeriod, pinned) = lastRelevant pv st in
      PayloadProcessedE (payloadProcessedEvent_zero\<lparr>ppT := payloadPipelined, ppVote := authenticator (plPeriod p) ea,
        ppPeriod := relevantPeriod, ppPinned := pinned, ppProposal := pv, ppUnauthenticatedPayload := up\<rparr>))"

definition store_present :: "agree_env \<Rightarrow> player \<Rightarrow> unauthenticatedProposal \<Rightarrow> (roundRouter, goerror, event) act" where
  "store_present E p up rr =
     (let st = ProposalStore rr; pv = proposal_value E up in
      case fmlookup (Assemblers st) pv of
        None \<Rightarrow> (Ok (rejected ''proposalStore: no accepting blockAssembler found on payloadPresent''), rr)
      | Some ea \<Rightarrow>
          (case pipeline up ea of
             Ok ea' \<Rightarrow> (let st' = st\<lparr>Assemblers := fmupd pv ea' (Assemblers st)\<rparr> in
                       (Ok (pipelined p st' pv ea up), rr\<lparr>ProposalStore := st'\<rparr>))
           | Err msg \<Rightarrow> (Ok (rejected msg), rr)
           | Panic msg \<Rightarrow> (Ok (rejected msg), rr)))"

definition store_verified :: "agree_env \<Rightarrow> player \<Rightarrow> proposal \<Rightarrow> (roundRouter, goerror, event) act" where
  "store_verified E p pp rr =
     (let st = ProposalStore rr; pv = proposal_value E (prUnauthenticated pp) in
      case fmlookup (Assemblers st) pv of
        None \<Rightarrow> (Ok (rejected ''proposalStore: no accepting blockAssembler found on payloadVerified''), rr)
      | Some ea \<Rightarrow>
          (case bind_payload pp ea of
             Ok ea' \<Rightarrow>
               act_bind (store_staged E p (plRound p) (plPeriod p)) (\<lambda>a.
               act_return (if svProposal a = pv then CommittableE pv (authenticator (plPeriod p) ea)
                           else PayloadProcessedE (payloadProcessedEvent_zero\<lparr>ppT := payloadAccepted,
                                  ppVote := authenticator (plPeriod p) ea, ppProposal := pv\<rparr>)))
               (rr\<lparr>ProposalStore := st\<lparr>Assemblers := fmupd pv ea' (Assemblers st)\<rparr>\<rparr>)
           | Err msg \<Rightarrow> (Ok (rejected msg), rr)
           | Panic msg \<Rightarrow> (Ok (rejected msg), rr)))"

definition store_new_period :: "agree_env \<Rightarrow> player \<Rightarrow> period \<Rightarrow> proposalValue \<Rightarrow> (roundRouter, goerror, event) act" where
  "store_new_period E p per starting =
     act_bind (store_staged E p (plRound p) (plPeriod p)) (\<lambda>a.
     act_bind (act_modify (on_store (\<lambda>st.
       let st = (if starting \<noteq> bottom then st\<lparr>Pinned := starting\<rparr>
                 else if svProposal a \<noteq> bottom then st\<lparr>Pinned := svProposal a\<rparr> else st);
           st = st\<lparr>Relevant := fmfilter (\<lambda>k. \<not> k + 1 < per) (Relevant st)\<rparr> in
       store_trim (plPeriod p) st))) (\<lambda>_. act_return EmptyEvent))"

definition store_new_round :: "player \<Rightarrow> proposalStore \<Rightarrow> (goerror, event) result" where
  "store_new_round p st =
     (case sorted_list_of_fset (fmdom (Assemblers st)) of
        [] \<Rightarrow> Ok EmptyEvent
      | [pv] \<Rightarrow> let ea = assembler_of st pv in Ok (if baFilled ea then pipelined p st pv ea (Pipeline ea) else EmptyEvent)
      | _ \<Rightarrow> Panic (Errorf ''too many assemblers''))"

definition store_soft :: "agree_env \<Rightarrow> player \<Rightarrow> thresholdEvent \<Rightarrow> (roundRouter, goerror, event) act" where
  "store_soft E p te =
     act_bind (round_below E p (ThresholdE te) proposalMachinePeriod (thPeriod te) 0) (\<lambda>out.
     case out of
       ProposalAcceptedE pa \<Rightarrow>
         (\<lambda>rr. let st = ProposalStore rr; ea = assembler_of st (paProposal pa) in
            if Assembled ea then (Ok (CommittableE (paProposal pa) (authenticator (plPeriod p) ea)), rr)
            else
              let st' = st\<lparr>Assemblers := fmupd (paProposal pa) ea (Assemblers st),
                           Relevant := fmupd (thPeriod te) (paProposal pa) (Relevant st)\<rparr> in
              (Ok (ProposalAcceptedE (pa\<lparr>paPayload := Payload ea, paPayloadOk := Assembled ea\<rparr>)),
               rr\<lparr>ProposalStore := store_trim (plPeriod p) st'\<rparr>))
     | _ \<Rightarrow> act_panic bad_event)"

definition proposalStore_handle :: "agree_env \<Rightarrow> player \<Rightarrow> event \<Rightarrow> (roundRouter, goerror, event) act" where
  "proposalStore_handle E p e =
     (case e of
        MessageE me \<Rightarrow>
          if meT me = voteVerified then store_vote E p me
          else if meT me = payloadPresent then store_present E p (UnauthenticatedProposal (meInput me))
          else if meT me = payloadVerified then store_verified E p (msgProposal (meInput me))
          else act_panic bad_event
      | NewPeriodE per starting \<Rightarrow> store_new_period E p per starting
      | NewRoundE \<Rightarrow> (\<lambda>rr. (store_new_round p (ProposalStore rr), rr))
      | ThresholdE te \<Rightarrow> if thT te = softThreshold then store_soft E p te else act_panic bad_event
      | StagingValueE se \<Rightarrow> act_bind (read_staging E p se) (\<lambda>se'. act_return (StagingValueE se'))
      | PinnedValueE se \<Rightarrow>
          act_read (\<lambda>rr. let st = ProposalStore rr; ea = assembler_of st (Pinned st) in
                      PinnedValueE (se\<lparr>pnProposal := Pinned st, pnPayloadOK := Assembled ea, pnPayload := Payload ea\<rparr>))
      | _ \<Rightarrow> act_panic bad_event)"

text \<open>The freshest bundle of a round.\<close>

definition keep_freshest :: "thresholdEvent \<Rightarrow> (roundRouter, goerror, event) act" where
  "keep_freshest te rr =
     (case fresherThan te (Freshest rr) of
        Ok fresher \<Rightarrow> if fresher then (Ok (ThresholdE te), rr\<lparr>Freshest := te, FreshestOk := True\<rparr>) else (Ok EmptyEvent, rr)
      | Err e \<Rightarrow> (Err e, rr)
      | Panic e \<Rightarrow> (Panic e, rr))"

definition voteTrackerRound_handle :: "agree_env \<Rightarrow> player \<Rightarrow> event \<Rightarrow> (roundRouter, goerror, event) act" where
  "voteTrackerRound_handle E p e =
     (case e of
        VoteAcceptedE v ver \<Rightarrow>
          act_bind (round_below E p e voteMachinePeriod (rvPeriod (vR v)) 0) (\<lambda>out.
          case out of
            ThresholdE te \<Rightarrow>
              if thT te = none then act_return EmptyEvent
              else if threshold_type (thT te) then (\<lambda>rr. keep_freshest te (roundRouter_update p 0 rr))
              else act_panic bad_event
          | _ \<Rightarrow> if event_t out = none then act_return EmptyEvent else act_panic bad_event)
      | ThresholdE te \<Rightarrow> if threshold_type (thT te) then keep_freshest te else act_panic bad_event
      | FreshestBundleRequestE \<Rightarrow> act_read (\<lambda>rr. FreshestBundleE (FreshestOk rr) (Freshest rr))
      | _ \<Rightarrow> act_panic bad_event)"

definition roundRouter_dispatch ::
    "agree_env \<Rightarrow> player \<Rightarrow> event \<Rightarrow> stateMachineTag \<Rightarrow> period \<Rightarrow> step \<Rightarrow> (roundRouter, goerror, event) act" where
  "roundRouter_dispatch E p e dest per s rr =
     (let rr1 = roundRouter_update p per rr in
      if dest = proposalMachineRound then proposalStore_handle E p e rr1
      else if dest = voteMachineRound then voteTrackerRound_handle E p e rr1
      else at_period per (periodRouter_dispatch E e dest s) rr1)"

section \<open>The root router\<close>

record rootRouter =
  rtChildren :: "(Round, roundRouter) fmap"

definition rootRouter_update :: "player \<Rightarrow> Round \<Rightarrow> rootRouter \<Rightarrow> rootRouter" where
  "rootRouter_update p r rt =
     (let cs = (if fmlookup (rtChildren rt) r = None then fmupd r roundRouter_zero (rtChildren rt) else rtChildren rt) in
      rt\<lparr>rtChildren := fmfilter (\<lambda>k. k \<ge> plRound p) cs\<rparr>)"

definition at_round :: "Round \<Rightarrow> (roundRouter, goerror, 'a) act \<Rightarrow> (rootRouter, goerror, 'a) act" where
  "at_round r = on_entry rtChildren (\<lambda>m. rtChildren_update (\<lambda>_. m)) r"

definition root_below ::
    "agree_env \<Rightarrow> player \<Rightarrow> event \<Rightarrow> stateMachineTag \<Rightarrow> Round \<Rightarrow> period \<Rightarrow> step \<Rightarrow> (rootRouter, goerror, event) act" where
  "root_below E p e dest r per s rt = at_round r (roundRouter_dispatch E p e dest per s) (rootRouter_update p r rt)"

section \<open>Relay rules for votes and bundles\<close>

definition voteStepFresh :: "ConsensusVersion \<Rightarrow> step \<Rightarrow> step \<Rightarrow> (string, unit) result" where
  "voteStepFresh proto mine vs =
     (if vs \<le> next_step then Ok ()
      else if FastPartitionRecovery (Consensus_or_zero proto) \<and> vs \<ge> late then Ok ()
      else if mine \<noteq> 0 \<and> mine - 1 > vs then Err ''filtered stale vote''
      else if mine + 1 < vs then Err ''filtered premature vote''
      else Ok ())"

definition voteFresh :: "ConsensusVersion \<Rightarrow> freshnessData \<Rightarrow> rawVote \<Rightarrow> (string, unit) result" where
  "voteFresh proto f rv =
     (if PlayerRound f \<noteq> rvRound rv \<and> PlayerRound f + 1 \<noteq> rvRound rv then Err ''filtered vote from bad round''
      else if PlayerRound f + 1 = rvRound rv then
        (if rvPeriod rv > 0 then Err ''filtered future vote from bad period'' else voteStepFresh proto 0 (rvStep rv))
      else if rvPeriod rv = PlayerPeriod f - 1 then
        (if PlayerPeriod f \<noteq> 0 then voteStepFresh proto (PlayerLastConcluding f) (rvStep rv)
         else Err ''filtered vote from bad period'')
      else if rvPeriod rv = PlayerPeriod f then voteStepFresh proto (PlayerStep f) (rvStep rv)
      else if rvPeriod rv = PlayerPeriod f + 1 then voteStepFresh proto soft (rvStep rv)
      else Err ''filtered vote from bad period'')"

definition bundleFresh :: "freshnessData \<Rightarrow> unauthenticatedBundle \<Rightarrow> (string, unit) result" where
  "bundleFresh f b =
     (if PlayerRound f \<noteq> ubRound b then Err ''filtered bundle from different round''
      else if PlayerPeriod f \<noteq> 0 \<and> PlayerPeriod f - 1 > ubPeriod b then Err ''filtered stale bundle''
      else Ok ())"

text \<open>The filter of a vote: \<open>None\<close> lets it pass, \<open>Some\<close> is the reason for dropping it.\<close>

definition filterVote ::
    "agree_env \<Rightarrow> ConsensusVersion \<Rightarrow> player \<Rightarrow> rawVote \<Rightarrow> freshnessData \<Rightarrow> (rootRouter, goerror, string option) act" where
  "filterVote E proto p rv f =
     (case voteFresh proto f rv of
        Err msg \<Rightarrow> act_return (Some (''voteAggregator: rejected vote due to age: '' @ msg))
      | Panic msg \<Rightarrow> act_return (Some msg)
      | Ok _ \<Rightarrow>
          act_bind (root_below E p (VoteFilterRequestE rv) voteMachineStep (rvRound rv) (rvPeriod rv) (rvStep rv)) (\<lambda>out.
          if event_t out = voteFilteredStep then act_return (Some ''voteAggregator: rejected vote: sender had already sent a vote'')
          else if event_t out = none then act_return None
          else act_panic bad_event))"

definition filtered :: "eventType \<Rightarrow> serializableError \<Rightarrow> event" where
  "filtered T err = FilteredE T err"

definition deliver_vote :: "agree_env \<Rightarrow> player \<Rightarrow> ConsensusVersion \<Rightarrow> vote \<Rightarrow> (rootRouter, goerror, event) act" where
  "deliver_vote E p ver v =
     root_below E p (VoteAcceptedE v ver) voteMachineRound (rvRound (vR v)) (rvPeriod (vR v)) (rvStep (vR v))"

definition aggregate_vote :: "agree_env \<Rightarrow> player \<Rightarrow> messageEvent \<Rightarrow> freshnessData \<Rightarrow> (rootRouter, goerror, event) act" where
  "aggregate_vote E p me f =
     (let v = msgVote (meInput me); ver = cvVersion (meProto me) in
      if meCancelled me then act_return (filtered voteFiltered (meErr me))
      else if cvErr (meProto me) \<noteq> None then act_return (filtered voteFiltered (meErr me))
      else if meErr me \<noteq> None then act_return (filtered voteMalformed (meErr me))
      else
        act_bind (filterVote E ver p (vR v) f) (\<lambda>reason.
        case reason of
          Some msg \<Rightarrow> act_return (filtered voteFiltered (Some msg))
        | None \<Rightarrow>
            act_bind (deliver_vote E p ver v) (\<lambda>tE.
            if event_t tE = none then act_return tE
            else
              case tE of
                ThresholdE te \<Rightarrow>
                  if thRound te = PlayerRound f then act_return tE
                  else if thRound te = PlayerRound f + 1 then act_return EmptyEvent
                  else act_panic (Errorf ''bad round'')
              | _ \<Rightarrow> act_panic bad_event)))"

definition bundle_votes :: "Bundle \<Rightarrow> vote list" where
  "bundle_votes b = bVotes b @ concat (map (\<lambda>pair. [eq_v0 pair, eq_v1 pair]) (bEquivocationVotes b))"

text \<open>Every vote of a bundle is delivered; the last threshold event is kept.\<close>

fun deliver_votes ::
    "agree_env \<Rightarrow> player \<Rightarrow> ConsensusVersion \<Rightarrow> vote list \<Rightarrow> event option \<Rightarrow> (rootRouter, goerror, event option) act" where
  "deliver_votes E p ver [] threshEvent = act_return threshEvent"
| "deliver_votes E p ver (v # vs) threshEvent =
     act_bind (deliver_vote E p ver v) (\<lambda>out.
     deliver_votes E p ver vs (if threshold_type (event_t out) then Some out else threshEvent))"

definition aggregate_bundle :: "agree_env \<Rightarrow> player \<Rightarrow> messageEvent \<Rightarrow> freshnessData \<Rightarrow> (rootRouter, goerror, event) act" where
  "aggregate_bundle E p me f =
     (let b = msgBundle (meInput me) in
      if meCancelled me then act_return (filtered bundleFiltered (meErr me))
      else if cvErr (meProto me) \<noteq> None then act_return (filtered bundleFiltered (meErr me))
      else if meErr me \<noteq> None then act_return (filtered bundleMalformed (meErr me))
      else
        case bundleFresh f (bU b) of
          Err msg \<Rightarrow> act_return (filtered bundleFiltered (Some msg))
        | Panic msg \<Rightarrow> act_return (filtered bundleFiltered (Some msg))
        | Ok _ \<Rightarrow>
            act_bind (deliver_votes E p (cvVersion (meProto me)) (bundle_votes b) None) (\<lambda>threshEvent.
            case threshEvent of
              Some e \<Rightarrow> act_return e
            | None \<Rightarrow> act_return (filtered bundleFiltered (Some ''bundle failed to cause a significant state change''))))"

text \<open>The contract of the aggregator: which results may follow which requests.\<close>

definition voteAggregator_bad :: "eventType \<Rightarrow> event \<Rightarrow> bool" where
  "voteAggregator_bad T out \<longleftrightarrow>
     event_t out = voteFiltered \<and> T \<notin> {votePresent, voteVerified} \<or>
     event_t out = voteMalformed \<and> T \<noteq> voteVerified \<or>
     threshold_type (event_t out) \<and> T \<notin> {voteVerified, bundleVerified}"

definition voteAggregator_handle :: "agree_env \<Rightarrow> player \<Rightarrow> messageEvent \<Rightarrow> freshnessData \<Rightarrow> (rootRouter, goerror, event) act" where
  "voteAggregator_handle E p me f =
     act_bind
       (if meT me = votePresent then
          (if cvErr (meProto me) \<noteq> None then act_return (filtered voteFiltered (cvErr (meProto me)))
           else
             act_bind (filterVote E (cvVersion (meProto me)) p (uvR (UnauthenticatedVote (meInput me))) f) (\<lambda>reason.
             act_return (case reason of Some msg \<Rightarrow> filtered voteFiltered (Some msg) | None \<Rightarrow> EmptyEvent)))
        else if meT me = voteVerified then aggregate_vote E p me f
        else if meT me = bundlePresent then
          act_return (case bundleFresh f (UnauthenticatedBundle (meInput me)) of
                        Ok _ \<Rightarrow> EmptyEvent
                      | Err msg \<Rightarrow> filtered bundleFiltered (Some msg)
                      | Panic msg \<Rightarrow> filtered bundleFiltered (Some msg))
        else if meT me = bundleVerified then aggregate_bundle E p me f
        else act_panic bad_event)
       (\<lambda>out. if voteAggregator_bad (meT me) out then act_panic contract_violation else act_return out)"

section \<open>Relay rules for proposals\<close>

definition proposalFresh :: "freshnessData \<Rightarrow> rawVote \<Rightarrow> (string, unit) result" where
  "proposalFresh f rv =
     (if rvRound rv = PlayerRound f then
        (if PlayerPeriod f \<noteq> 0 \<and> PlayerPeriod f - 1 > rvPeriod rv then Err ''filtered stale proposal''
         else if PlayerPeriod f + 1 < rvPeriod rv then Err ''filtered premature proposal''
         else Ok ())
      else if rvRound rv = PlayerRound f + 1 then
        (if rvPeriod rv \<noteq> 0 then Err ''filtered premature proposal from next round'' else Ok ())
      else Err ''filtered proposal from bad round'')"

definition filterProposalVote ::
    "agree_env \<Rightarrow> player \<Rightarrow> rawVote \<Rightarrow> freshnessData \<Rightarrow> (rootRouter, goerror, string option) act" where
  "filterProposalVote E p rv f =
     (case proposalFresh f rv of
        Err msg \<Rightarrow> act_return (Some (''proposalManager: filtered proposal-vote due to age: '' @ msg))
      | Panic msg \<Rightarrow> act_return (Some msg)
      | Ok _ \<Rightarrow>
          act_bind (root_below E p (VoteFilterRequestE rv) proposalMachinePeriod (rvRound rv) (rvPeriod rv) 0) (\<lambda>sawVote.
          act_return (if event_t sawVote = voteFiltered then Some ''proposalManager: filtered proposal-vote'' else None)))"

definition manage_payload :: "agree_env \<Rightarrow> player \<Rightarrow> messageEvent \<Rightarrow> Round \<Rightarrow> period \<Rightarrow> (rootRouter, goerror, event) act" where
  "manage_payload E p me r per =
     act_bind (root_below E p (MessageE me) proposalMachineRound r per 0) (\<lambda>out.
     if event_t out = payloadRejected then act_return out
     else
       case out of
         PayloadProcessedE ep \<Rightarrow> act_return (PayloadProcessedE (ep\<lparr>ppRound := r\<rparr>))
       | _ \<Rightarrow> act_panic bad_event)"

definition manage_message :: "agree_env \<Rightarrow> player \<Rightarrow> messageEvent \<Rightarrow> freshnessData \<Rightarrow> (rootRouter, goerror, event) act" where
  "manage_message E p me f =
     (let v = msgVote (meInput me) in
      if meT me = votePresent then
        act_bind (filterProposalVote E p (uvR (UnauthenticatedVote (meInput me))) f) (\<lambda>reason.
        act_return (case reason of Some msg \<Rightarrow> filtered voteFiltered (Some msg) | None \<Rightarrow> EmptyEvent))
      else if meT me = voteVerified then
        (if meCancelled me then act_return (filtered voteFiltered (meErr me))
         else if meErr me \<noteq> None then act_return (filtered voteMalformed (meErr me))
         else
           case proposalFresh f (vR v) of
             Ok _ \<Rightarrow> root_below E p (MessageE me) proposalMachineRound (rvRound (vR v)) (rvPeriod (vR v)) 0
           | Err msg \<Rightarrow> act_return (filtered voteFiltered (Some (''proposalManager: ignoring proposal-vote due to age: '' @ msg)))
           | Panic msg \<Rightarrow> act_return (filtered voteFiltered (Some msg)))
      else if meT me = payloadPresent then
        (if plRound p = Block_Round (upBlock (UnauthenticatedProposal (meInput me)))
         then manage_payload E p me (plRound p) (plPeriod p)
         else manage_payload E p me (plRound p + 1) 0)
      else if meCancelled me then
        act_return (PayloadProcessedE (payloadProcessedEvent_zero\<lparr>ppT := payloadRejected, ppErr := meErr me\<rparr>))
      else if meErr me \<noteq> None then act_return (filtered payloadMalformed (meErr me))
      else root_below E p (MessageE me) proposalMachineRound (plRound p) (plPeriod p) 0)"

definition handleNewRound :: "agree_env \<Rightarrow> player \<Rightarrow> Round \<Rightarrow> (rootRouter, goerror, event) act" where
  "handleNewRound E p r = root_below E p NewRoundE proposalMachineRound r 0 0"

definition handleNewPeriod :: "agree_env \<Rightarrow> player \<Rightarrow> thresholdEvent \<Rightarrow> (rootRouter, goerror, event) act" where
  "handleNewPeriod E p te =
     (let target = (if thT te = nextThreshold then thPeriod te + 1 else thPeriod te) in
      root_below E p (NewPeriodE target (thProposal te)) proposalMachineRound (thRound te) 0 0)"

text \<open>The contract of the manager on threshold events.\<close>

definition proposalManager_bad :: "player \<Rightarrow> thresholdEvent \<Rightarrow> bool" where
  "proposalManager_bad p te \<longleftrightarrow>
     \<not> threshold_type (thT te) \<or> plRound p \<noteq> thRound te \<or>
     thT te \<noteq> certThreshold \<and> plPeriod p > thPeriod te \<or>
     thT te = softThreshold \<and> thProposal te = bottom"

definition proposalManager_handle :: "agree_env \<Rightarrow> player \<Rightarrow> event \<Rightarrow> (rootRouter, goerror, event) act" where
  "proposalManager_handle E p e =
     (case e of
        FilterableE me f \<Rightarrow>
          if meT me \<in> {votePresent, voteVerified, payloadPresent, payloadVerified} then manage_message E p me f
          else act_panic contract_violation
      | RoundInterruptionE r ver \<Rightarrow> handleNewRound E p r
      | ThresholdE te \<Rightarrow>
          if proposalManager_bad p te then act_panic contract_violation
          else if thT te = certThreshold then handleNewRound E p (thRound te + 1)
          else if thT te = softThreshold then
            act_bind (if plPeriod p < thPeriod te then handleNewPeriod E p te else act_return EmptyEvent) (\<lambda>_.
            root_below E p e proposalMachineRound (thRound te) (thPeriod te) 0)
          else act_bind (handleNewPeriod E p te) (\<lambda>_. act_return EmptyEvent)
      | _ \<Rightarrow> act_panic contract_violation)"

text \<open>Dispatching from the player.\<close>

definition rootRouter_dispatch ::
    "agree_env \<Rightarrow> player \<Rightarrow> event \<Rightarrow> stateMachineTag \<Rightarrow> Round \<Rightarrow> period \<Rightarrow> step \<Rightarrow> (rootRouter, goerror, event) act" where
  "rootRouter_dispatch E p e dest r per s rt =
     (let rt1 = rootRouter_update p r rt in
      if dest = proposalMachine then proposalManager_handle E p e rt1
      else if dest = voteMachine then
        (case e of FilterableE me f \<Rightarrow> voteAggregator_handle E p me f rt1 | _ \<Rightarrow> (Panic bad_event, rt1))
      else at_round r (roundRouter_dispatch E p e dest per s) rt1)"

end
