(* ===== verification/Player.thy ===== *)
theory Player
  imports Router
begin

text \<open>
  The player (\<open>agreement/player.go\<close>, \<open>playerContract.go\<close>): it turns messages, thresholds and timeouts into
  votes, proposals and network actions.  A call handles one event and then, possibly, a second one that
  the first brought up; \<open>player_handle\<close> follows that chain.
\<close>

section \<open>The player\<close>

record agreement =
  agPlayer :: player
  agRouter :: rootRouter

type_synonym 'a ag_act = "(agreement, goerror, 'a) act"

definition dispatch :: "agree_env \<Rightarrow> event \<Rightarrow> stateMachineTag \<Rightarrow> Round \<Rightarrow> period \<Rightarrow> step \<Rightarrow> event ag_act" where
  "dispatch E e dest r per s ag =
     (let (out, rt) = rootRouter_dispatch E (agPlayer ag) e dest r per s (agRouter ag) in (out, ag\<lparr>agRouter := rt\<rparr>))"

definition on_player :: "(player \<Rightarrow> player) \<Rightarrow> unit ag_act" where
  "on_player f = act_modify (\<lambda>ag. ag\<lparr>agPlayer := f (agPlayer ag)\<rparr>)"

definition stagedValue :: "agree_env \<Rightarrow> Round \<Rightarrow> period \<Rightarrow> stagingValueEvent ag_act" where
  "stagedValue E r per =
     act_bind (dispatch E (StagingValueE (staging_query r per)) proposalMachineRound r per 0) (\<lambda>out.
     case out of StagingValueE se \<Rightarrow> act_return se | _ \<Rightarrow> act_panic bad_event)"

definition pinnedValue :: "agree_env \<Rightarrow> Round \<Rightarrow> pinnedValueEvent ag_act" where
  "pinnedValue E r =
     act_bind (dispatch E (PinnedValueE \<lparr>pnRound = r, pnProposal = bottom, pnPayload = proposal_zero, pnPayloadOK = False\<rparr>)
                 proposalMachineRound r 0 0) (\<lambda>out.
     case out of PinnedValueE se \<Rightarrow> act_return se | _ \<Rightarrow> act_panic bad_event)"

definition freshest_bundle :: "agree_env \<Rightarrow> Round \<Rightarrow> (bool \<times> thresholdEvent) ag_act" where
  "freshest_bundle E r =
     act_bind (dispatch E FreshestBundleRequestE voteMachineRound r 0 0) (\<lambda>out.
     case out of FreshestBundleE ok te \<Rightarrow> act_return (ok, te) | _ \<Rightarrow> act_panic bad_event)"

text \<open>The next-threshold status of the period before the current one: bottom seen, and the value seen.\<close>

definition next_status :: "agree_env \<Rightarrow> (bool \<times> proposalValue) ag_act" where
  "next_status E =
     act_bind (act_read agPlayer) (\<lambda>p.
     act_bind (dispatch E NextThresholdStatusRequestE voteMachinePeriod (plRound p) (plPeriod p - 1) 0) (\<lambda>out.
     case out of NextThresholdStatusE b pv \<Rightarrow> act_return (b, pv) | _ \<Rightarrow> act_panic bad_event))"

definition partitioned :: "player \<Rightarrow> bool" where
  "partitioned p \<longleftrightarrow> plStep p \<ge> partitionStep \<or> plPeriod p \<ge> 3"

definition payload_message :: "unauthenticatedVote \<Rightarrow> unauthenticatedProposal \<Rightarrow> compoundMessage" where
  "payload_message v up = \<lparr>cmVote = v, cmProposal = up\<rparr>"

definition no_vote :: unauthenticatedVote where
  "no_vote = vote_u vote_zero"

definition partitionPolicy :: "agree_env \<Rightarrow> action list ag_act" where
  "partitionPolicy E =
     act_bind (act_read agPlayer) (\<lambda>p.
     if \<not> partitioned p then act_return []
     else
       act_bind (freshest_bundle E (plRound p)) (\<lambda>(ok, te).
       let b = thBundle te; has = ok \<and> ubProposal b \<noteq> bottom;
           bundleRound = (if has then ubRound b else plRound p);
           bundlePeriod = (if has then ubPeriod b else plPeriod p);
           acts = (if ok then [BroadcastBundle b] else []) in
       if has \<or> plPeriod p = 0 then
         act_bind (stagedValue E bundleRound bundlePeriod) (\<lambda>resStaged.
         if svCommittable resStaged then
           act_return (acts @ [BroadcastPayload (payload_message no_vote (prUnauthenticated (svPayload resStaged)))])
         else
           act_bind (pinnedValue E bundleRound) (\<lambda>resPinned.
           act_return (if pnPayloadOK resPinned
                       then acts @ [BroadcastPayload (payload_message no_vote (prUnauthenticated (pnPayload resPinned)))]
                       else acts)))
       else act_return acts))"

definition issueSoftVote :: "agree_env \<Rightarrow> action list ag_act" where
  "issueSoftVote E =
     act_bind (act_read agPlayer) (\<lambda>p.
     act_bind (dispatch E (ProposalFrozenE bottom) proposalMachinePeriod (plRound p) (plPeriod p) 0) (\<lambda>e.
     case e of
       ProposalFrozenE v \<Rightarrow>
         act_bind (next_status E) (\<lambda>(sawBottom, nextValue).
         act_bind (on_player (\<lambda>p. p\<lparr>Deadline := deadlineTimeout\<rparr>)) (\<lambda>_.
         act_return
           (if plPeriod p > 0 \<and> \<not> sawBottom \<and> nextValue \<noteq> bottom then [Attest (plRound p) (plPeriod p) soft nextValue]
            else if v = bottom then []
            else if plPeriod p > pvOriginalPeriod v then
              (if nextValue \<noteq> bottom \<and> nextValue = v then [Attest (plRound p) (plPeriod p) soft v] else [])
            else [Attest (plRound p) (plPeriod p) soft v])))
     | _ \<Rightarrow> act_panic bad_event))"

definition issueCertVote :: "player \<Rightarrow> proposalValue \<Rightarrow> action" where
  "issueCertVote p v = Attest (plRound p) (plPeriod p) cert v"

definition issueNextVote :: "agree_env \<Rightarrow> action list ag_act" where
  "issueNextVote E =
     act_bind (partitionPolicy E) (\<lambda>actions.
     act_bind (act_read agPlayer) (\<lambda>p.
     act_bind (stagedValue E (plRound p) (plPeriod p)) (\<lambda>answer.
     act_bind (if svCommittable answer then act_return (svProposal answer)
               else act_bind (next_status E) (\<lambda>(sawBottom, nextValue). act_return (if sawBottom then bottom else nextValue))) (\<lambda>v.
     act_bind (on_player (\<lambda>p. p\<lparr>Napping := False, Deadline := snd (nextVoteRanges (plStep p))\<rparr>)) (\<lambda>_.
     act_return (actions @ [Attest (plRound p) (plPeriod p) (plStep p) v]))))))"

definition dump_step :: "agree_env \<Rightarrow> step \<Rightarrow> unauthenticatedVote list ag_act" where
  "dump_step E s =
     act_bind (act_read agPlayer) (\<lambda>p.
     act_bind (dispatch E DumpVotesRequestE voteMachineStep (plRound p) (plPeriod p) s) (\<lambda>out.
     case out of DumpVotesE vs \<Rightarrow> act_return vs | _ \<Rightarrow> act_panic bad_event))"

definition issueFastVote :: "agree_env \<Rightarrow> action list ag_act" where
  "issueFastVote E =
     act_bind (partitionPolicy E) (\<lambda>actions.
     act_bind (dump_step E late) (\<lambda>elate.
     act_bind (dump_step E redo) (\<lambda>eredo.
     act_bind (dump_step E down) (\<lambda>edown.
     act_bind (act_read agPlayer) (\<lambda>p.
     act_bind (stagedValue E (plRound p) (plPeriod p)) (\<lambda>answer.
     act_bind (if svCommittable answer then act_return (late, svProposal answer)
               else act_bind (next_status E) (\<lambda>(sawBottom, nextValue).
                    act_return (if sawBottom then (down, bottom) else (redo, nextValue)))) (\<lambda>(s, v).
     act_return (actions @ [BroadcastVotes (elate @ eredo @ edown),
                   Attest (plRound p) (plPeriod p) (if v = bottom then down else s) v]))))))))"

text \<open>Division of signed 64-bit numbers rounds towards zero.\<close>

definition go_quot :: "i64 \<Rightarrow> i64 \<Rightarrow> i64" where
  "go_quot a b =
     (let q = \<bar>sint a\<bar> div \<bar>sint b\<bar> in word_of_int (if (sint a < 0) = (sint b < 0) then q else - q))"

definition handleFastTimeout :: "agree_env \<Rightarrow> u64 \<Rightarrow> ConsensusVersionView \<Rightarrow> action list ag_act" where
  "handleFastTimeout E randomEntropy ver =
     (if cvErr ver \<noteq> None then act_return []
      else
        let lambda = word_of_int (FastRecoveryLambda (Consensus_or_zero (cvVersion ver))) :: i64 in
        if lambda = 0 then act_panic (Errorf ''integer divide by zero'')
        else
          act_bind (act_read agPlayer) (\<lambda>p.
          let k = go_quot (FastRecoveryDeadline p + lambda - 1) lambda;
              lower = k * lambda; upper = (k + 1) * lambda;
              delta = randomEntropy mod (upper - lower) in
          if FastRecoveryDeadline p = 0 then
            act_bind (on_player (\<lambda>p. p\<lparr>FastRecoveryDeadline := lower + delta + lambda\<rparr>)) (\<lambda>_. act_return [])
          else
            act_bind (on_player (\<lambda>p. p\<lparr>FastRecoveryDeadline := lower + delta\<rparr>)) (\<lambda>_. issueFastVote E)))"

definition handle_timeout :: "agree_env \<Rightarrow> u64 \<Rightarrow> action list ag_act" where
  "handle_timeout E randomEntropy =
     act_bind (act_read agPlayer) (\<lambda>p.
     if plStep p = soft then
       act_bind (issueSoftVote E) (\<lambda>actions.
       act_bind (on_player (\<lambda>p. p\<lparr>plStep := cert\<rparr>)) (\<lambda>_. act_return actions))
     else if plStep p = cert then
       act_bind (on_player (\<lambda>p. p\<lparr>plStep := next_step\<rparr>)) (\<lambda>_. issueNextVote E)
     else if Napping p then issueNextVote E
     else
       let (lower, upper) = nextVoteRanges (plStep p + 1) in
       act_bind (on_player (\<lambda>p. p\<lparr>plStep := plStep p + 1\<rparr>)) (\<lambda>_.
       if upper - lower = 0 then act_panic (Errorf ''integer divide by zero'')
       else
         act_bind (on_player (\<lambda>p. p\<lparr>Napping := True, Deadline := lower + randomEntropy mod (upper - lower)\<rparr>)) (\<lambda>_.
         act_return [])))"

section \<open>Entering periods and rounds\<close>

text \<open>A step of the player yields its actions and, possibly, an event it goes on to handle.\<close>

type_synonym follow = "action list \<times> event option"

definition start_period :: "period \<Rightarrow> player \<Rightarrow> player" where
  "start_period target p =
     p\<lparr>LastConcluding := plStep p, plPeriod := target, plStep := soft, Napping := False, FastRecoveryDeadline := 0,
       Deadline := filterTimeout\<rparr>"

definition enterPeriod :: "agree_env \<Rightarrow> thresholdEvent \<Rightarrow> period \<Rightarrow> action list ag_act" where
  "enterPeriod E source target =
     act_bind (partitionPolicy E) (\<lambda>actions.
     act_bind (act_read agPlayer) (\<lambda>p0.
     act_bind (dispatch E (ThresholdE source) proposalMachine (plRound p0) (plPeriod p0) 0) (\<lambda>e.
     act_bind (on_player (start_period target)) (\<lambda>_.
     act_bind (act_read agPlayer) (\<lambda>p.
     let actions = actions @ [Rezero (plRound p)] in
     act_return
       (case e of
          CommittableE v auth \<Rightarrow> actions @ [issueCertVote p v]
        | _ \<Rightarrow>
            if thT source = nextThreshold then
              (if thProposal source = bottom then actions @ [Assemble (plRound p) (plPeriod p)]
               else actions @ [Repropose (plRound p) (plPeriod p) (thProposal source)])
            else actions))))))"

definition start_round :: "Round \<Rightarrow> player \<Rightarrow> player" where
  "start_round target p =
     p\<lparr>LastConcluding := plStep p, plRound := target, plPeriod := 0, plStep := soft, Napping := False,
       FastRecoveryDeadline := 0, Deadline := filterTimeout\<rparr>"

definition pipelined_message :: "unauthenticatedProposal \<Rightarrow> message" where
  "pipelined_message up =
     \<lparr>MessageHandle = 0, msgTag = ''PP'', msgVote = vote_zero, msgProposal = proposal_zero,
      msgBundle = \<lparr>bU = unauthenticatedBundle_zero, bVotes = [], bEquivocationVotes = []\<rparr>,
      UnauthenticatedVote = no_vote, UnauthenticatedProposal = up, UnauthenticatedBundle = unauthenticatedBundle_zero,
      CompoundMessage = payload_message no_vote unauthenticatedProposal_zero\<rparr>"

definition enterRound :: "agree_env \<Rightarrow> event \<Rightarrow> Round \<Rightarrow> follow ag_act" where
  "enterRound E source target =
     act_bind (dispatch E source proposalMachine target 0 0) (\<lambda>e.
     act_bind (on_player (start_round target)) (\<lambda>_.
     act_bind (freshest_bundle E target) (\<lambda>(ok, te).
     let actions = [Rezero target, Assemble target 0] @
           (case e of
              PayloadProcessedE ep \<Rightarrow>
                if ppT ep = payloadPipelined
                then [VerifyPayload (pipelined_message (ppUnauthenticatedPayload ep)) target (ppPeriod ep) (ppPinned ep)] else []
            | _ \<Rightarrow> []) in
     act_return (actions, if ok then Some (ThresholdE te) else None))))"

definition threshold_step :: "agree_env \<Rightarrow> thresholdEvent \<Rightarrow> follow ag_act" where
  "threshold_step E te =
     act_bind (act_read agPlayer) (\<lambda>p.
     if thT te = certThreshold then
       act_bind (stagedValue E (thRound te) (thPeriod te)) (\<lambda>res.
       act_bind (enterRound E (ThresholdE te) (plRound p + 1)) (\<lambda>(as, follow).
       act_return (Ensure (svPayload res) (svCommittable res) (thBundle te) # as, follow)))
     else if plPeriod p \<ge> thPeriod te + 1 then act_return ([], None)
     else if thT te = softThreshold then
       (if plPeriod p = thPeriod te then
          act_bind (dispatch E (ThresholdE te) proposalMachine (plRound p) (plPeriod p) 0) (\<lambda>ec.
          act_return (case ec of CommittableE v auth \<Rightarrow> if plStep p \<le> cert then [issueCertVote p v] else [] | _ \<Rightarrow> [], None))
        else act_bind (enterPeriod E te (thPeriod te)) (\<lambda>as. act_return (as, None)))
     else if thT te = nextThreshold then act_bind (enterPeriod E te (thPeriod te + 1)) (\<lambda>as. act_return (as, None))
     else act_panic bad_event)"

section \<open>Messages\<close>

definition freshness :: "player \<Rightarrow> freshnessData" where
  "freshness p = \<lparr>PlayerRound = plRound p, PlayerPeriod = plPeriod p, PlayerStep = plStep p, PlayerLastConcluding = LastConcluding p\<rparr>"

definition filtered_err :: "event \<Rightarrow> serializableError" where
  "filtered_err e = (case e of FilteredE T err \<Rightarrow> err | PayloadProcessedE pp \<Rightarrow> ppErr pp | _ \<Rightarrow> None)"

definition invalid_err :: "event \<Rightarrow> serializableError" where
  "invalid_err e =
     Some (''rejected message since it was invalid: '' @ (case filtered_err e of None \<Rightarrow> ''<nil>'' | Some msg \<Rightarrow> msg))"

text \<open>A proposal-vote; its payload is handled after it, unless the vote still has to be verified.\<close>

definition proposal_vote_step :: "agree_env \<Rightarrow> messageEvent \<Rightarrow> follow ag_act" where
  "proposal_vote_step E me =
     act_bind (act_read agPlayer) (\<lambda>p.
     act_bind (dispatch E (FilterableE me (freshness p)) proposalMachine 0 0 0) (\<lambda>ef.
     act_bind
       (if event_t ef = voteMalformed then act_return ([disconnectAction me (filtered_err ef)], True)
        else if event_t ef = voteFiltered then act_return ([ignoreAction me (filtered_err ef)], True)
        else if meT me = votePresent then
          (let (seqn, tbl) = push (meTail me) (plPending p); rv = uvR (UnauthenticatedVote (meInput me)) in
           act_bind (on_player (\<lambda>p. p\<lparr>plPending := tbl\<rparr>)) (\<lambda>_.
           act_return ([verifyVoteAction me (rvRound rv) (rvPeriod rv) seqn], False)))
        else
          (case ef of
             ProposalAcceptedE ep \<Rightarrow>
               let v = vote_u (msgVote (meInput me)) in
               act_return
                 ([if paPayloadOk ep then BroadcastPayload (payload_message v (prUnauthenticated (paPayload ep)))
                   else RelayVote (MessageHandle (meInput me)) v], True)
           | _ \<Rightarrow> act_panic bad_event)) (\<lambda>(actions, doneProcessing).
     act_bind
       (if meT me = voteVerified then
          act_bind (act_read agPlayer) (\<lambda>p.
          let (tl, tbl) = pop (meTaskIndex me) (plPending p) in
          act_bind (on_player (\<lambda>p. p\<lparr>plPending := tbl\<rparr>)) (\<lambda>_. act_return tl))
        else act_return (meTail me)) (\<lambda>tl.
     act_return (actions, if doneProcessing then map_option MessageE tl else None)))))"

definition payload_step :: "agree_env \<Rightarrow> messageEvent \<Rightarrow> action list ag_act" where
  "payload_step E me =
     act_bind (act_read agPlayer) (\<lambda>p.
     act_bind (dispatch E (FilterableE me (freshness p)) proposalMachine 0 0 0) (\<lambda>ef.
     let up = UnauthenticatedProposal (meInput me); h = MessageHandle (meInput me) in
     if event_t ef = payloadMalformed then act_return [ignoreAction me (invalid_err ef)]
     else if event_t ef = payloadRejected then act_return [ignoreAction me (filtered_err ef)]
     else
       act_return
         (case ef of
            PayloadProcessedE ep \<Rightarrow>
              if ppT ep = payloadPipelined \<and> ppRound ep = plRound p then
                [verifyPayloadAction me (ppRound ep) (ppPeriod ep) (ppPinned ep)]
              else if ppT ep \<in> {payloadPipelined, payloadAccepted} then [RelayPayload h (payload_message (vote_u (ppVote ep)) up)]
              else [RelayPayload h (payload_message no_vote up)]
          | CommittableE v auth \<Rightarrow>
              RelayPayload h (payload_message (vote_u auth) up) #
              (if plStep p \<le> cert then [issueCertVote p v] else [])
          | _ \<Rightarrow> [RelayPayload h (payload_message no_vote up)])))"

definition vote_step :: "agree_env \<Rightarrow> messageEvent \<Rightarrow> follow ag_act" where
  "vote_step E me =
     act_bind (act_read agPlayer) (\<lambda>p.
     act_bind (dispatch E (FilterableE me (freshness p)) voteMachine 0 0 0) (\<lambda>ef.
     let rv = uvR (UnauthenticatedVote (meInput me)) in
     act_return
       (if event_t ef = voteMalformed then ([disconnectAction me (invalid_err ef)], None)
        else if event_t ef = voteFiltered then ([ignoreAction me (filtered_err ef)], None)
        else if meT me = votePresent then ([verifyVoteAction me (rvRound rv) (rvPeriod rv) 0], None)
        else ([RelayVote (MessageHandle (meInput me)) (vote_u (msgVote (meInput me)))], Some ef))))"

definition bundle_step :: "agree_env \<Rightarrow> messageEvent \<Rightarrow> follow ag_act" where
  "bundle_step E me =
     act_bind (act_read agPlayer) (\<lambda>p.
     act_bind (dispatch E (FilterableE me (freshness p)) voteMachine 0 0 0) (\<lambda>ef.
     let ub = UnauthenticatedBundle (meInput me) in
     if event_t ef = bundleMalformed then act_return ([disconnectAction me (invalid_err ef)], None)
     else if event_t ef = bundleFiltered then act_return ([ignoreAction me (filtered_err ef)], None)
     else if meT me = bundlePresent then act_return ([verifyBundleAction me (ubRound ub) (ubPeriod ub)], None)
     else
       case ef of
         ThresholdE te \<Rightarrow> act_return ([RelayBundle (MessageHandle (meInput me)) (thBundle te)], Some ef)
       | _ \<Rightarrow> act_panic bad_event))"

definition message_step :: "agree_env \<Rightarrow> messageEvent \<Rightarrow> follow ag_act" where
  "message_step E me =
     (if meT me \<in> {votePresent, voteVerified} \<and> rvStep (uvR (UnauthenticatedVote (meInput me))) = propose then
        proposal_vote_step E me
      else if meT me \<in> {payloadPresent, payloadVerified} then act_bind (payload_step E me) (\<lambda>as. act_return (as, None))
      else if meT me \<in> {votePresent, voteVerified} then vote_step E me
      else if meT me \<in> {bundlePresent, bundleVerified} then bundle_step E me
      else act_panic bad_event)"

definition player_step :: "agree_env \<Rightarrow> event \<Rightarrow> follow ag_act" where
  "player_step E e =
     (if event_t e = none then act_return ([], None)
      else
        case e of
          MessageE me \<Rightarrow> message_step E me
        | ThresholdE te \<Rightarrow> threshold_step E te
        | TimeoutE T randomEntropy r ver \<Rightarrow>
            act_bind (if T = fastTimeout then handleFastTimeout E randomEntropy ver else handle_timeout E randomEntropy) (\<lambda>as.
            act_return (as, None))
        | RoundInterruptionE r ver \<Rightarrow> enterRound E e r
        | CheckpointE r per s err \<Rightarrow> act_return ([Checkpoint r per s err], None)
        | _ \<Rightarrow> act_panic bad_event)"

text \<open>\<open>None\<close> stands for a call that never returns.\<close>

partial_function (option) player_handle ::
    "agree_env \<Rightarrow> event \<Rightarrow> agreement \<Rightarrow> ((goerror, action list) result \<times> agreement) option" where
  "player_handle E e ag =
     (case player_step E e ag of
        (Ok (as, None), ag1) \<Rightarrow> Some (Ok as, ag1)
      | (Ok (as, Some e'), ag1) \<Rightarrow>
          Option.bind (player_handle E e' ag1) (\<lambda>(r, ag2).
          Some (case r of Ok as' \<Rightarrow> Ok (as @ as') | Err x \<Rightarrow> Err x | Panic x \<Rightarrow> Panic x, ag2))
      | (Err x, ag1) \<Rightarrow> Some (Err x, ag1)
      | (Panic x, ag1) \<Rightarrow> Some (Panic x, ag1))"

definition submitTop :: "agree_env \<Rightarrow> event \<Rightarrow> agreement \<Rightarrow> ((goerror, action list) result \<times> agreement) option" where
  "submitTop E e ag = player_handle E e (ag\<lparr>agRouter := rootRouter_update (agPlayer ag) 0 (agRouter ag)\<rparr>)"

section \<open>The contract of the player\<close>

text \<open>Whether a precondition and whether a postcondition is violated; the code only logs these.\<close>

definition playerContract_pre :: "player \<Rightarrow> event \<Rightarrow> bool" where
  "playerContract_pre p e \<longleftrightarrow>
     event_t e \<noteq> none \<and>
     ((case e of
         TimeoutE T randomEntropy r ver \<Rightarrow> plStep p < next_step \<and> Napping p
       | ThresholdE te \<Rightarrow>
           thRound te \<noteq> plRound p \<or> thT te = softThreshold \<and> thPeriod te < plPeriod p \<or>
           thT te = nextThreshold \<and> thPeriod te \<le> plPeriod p
       | MessageE me \<Rightarrow> False
       | RoundInterruptionE r ver \<Rightarrow> r \<le> plRound p
       | CheckpointE r per s err \<Rightarrow> False
       | _ \<Rightarrow> True) \<or>
      plStep p = propose)"

definition playerContract_post :: "event \<Rightarrow> action list \<Rightarrow> bool" where
  "playerContract_post e out \<longleftrightarrow>
     (if event_t e = none then out \<noteq> []
      else
        case e of
          MessageE me \<Rightarrow>
            meT me = bundlePresent \<and>
            (case out of [Ignore err h] \<Rightarrow> False | [VerifyBundle m r per] \<Rightarrow> False | _ \<Rightarrow> True)
        | _ \<Rightarrow> False)"

end
