(* ===== verification/Evaluator_Laws.thy ===== *)
theory Evaluator_Laws
  imports Evaluator
begin

text \<open>
  Properties of the block evaluator: a group it accepts is whole, conserves money, keeps every
  asset's supply, adds only new transactions and leaves every touched account with its minimum
  balance; starting a block pays the rewards out of the pool.

  Most proofs go through \<open>transactionGroup_keeps\<close>: what every transaction keeps on a layer, a
  group keeps, through the child it runs on and the commit.
\<close>

section \<open>One transaction\<close>

lemma wrap_err_Ok [act_simps]: "wrap_err msg r = Ok a \<longleftrightarrow> r = Ok a"
  by (cases r) (simp_all add: wrap_err_def)

lemma wrap_err_pair_Ok [act_simps]:
  "(case x of (r, s) \<Rightarrow> (wrap_err msg r, s)) = (Ok a, s') \<longleftrightarrow> x = (Ok a, s')"
  by (cases x) (simp add: wrap_err_Ok)

lemma on_cow_Ok [act_simps]:
  "on_cow m s = (Ok a, s') \<longleftrightarrow> (\<exists>cow c cow'. s = (cow, c) \<and> s' = (cow', c) \<and> m cow = (Ok a, cow'))"
  by (cases s) (auto simp: on_cow_def Let_def split: prod.splits)

lemma check_lsig_cached_Ok:
  assumes "check_lsig_cached env eval txn grp gi (cow, c) = (r, (cow', c'))"
  shows "cow' = cow"
  using assms by (auto simp: check_lsig_cached_def Let_def split: option.splits prod.splits bool.splits result.splits)

text \<open>What a validated transaction has passed.\<close>

definition txn_valid :: "eval_env \<Rightarrow> 'c BlockEvaluator \<Rightarrow> SignedTxn \<Rightarrow> roundCowState \<Rightarrow> bool" where
  "txn_valid env eval txn cow \<longleftrightarrow>
     Alive (block_context (evBlock eval)) (txHeader (Txn txn)) = Ok () \<and>
     cow_isDup cow (First (Txn txn)) (Last (Txn txn)) (SignedTxn_ID (txnHash (eeHashes env)) txn) (txlease_of (Txn txn)) = Ok False \<and>
     WellFormed (eval_spec (evBlock eval)) (evProto eval) (Txn txn) = Ok () \<and>
     (Group (txHeader (Txn txn)) = 0 \<or> SupportTxGroups (evProto eval))"

lemma validate_txn_Ok:
  assumes "validate_txn env eval txn grp gi (cow, c) = (Ok u, (cow', c'))"
  shows "cow' = cow" "txn_valid env eval txn cow"
    "(\<exists>vc. c = Some vc \<and> cacheVerified vc (cacheState vc) txn) \<or>
       TxnPool_verify (eeVerifiers env) txn (eval_spec (evBlock eval)) (evProto eval) = Ok ()"
proof -
  obtain c1 where alive: "Alive (block_context (evBlock eval)) (txHeader (Txn txn)) = Ok ()"
    and dup: "cow_isDup cow (First (Txn txn)) (Last (Txn txn)) (SignedTxn_ID (txnHash (eeHashes env)) txn) (txlease_of (Txn txn)) = Ok False"
    and wf: "WellFormed (eval_spec (evBlock eval)) (evProto eval) (Txn txn) = Ok ()"
    and signed: "check_signed env eval txn c = Ok ()"
    and grp: "Group (txHeader (Txn txn)) = 0 \<or> SupportTxGroups (evProto eval)"
    and lsig: "act_when (\<not> Lsig_Blank (stLsig txn)) (check_lsig_cached env eval txn grp gi) (cow, c) = (Ok u, (cow', c'))"
    using assms by (auto simp: validate_txn_def Let_def act_simps)
  show "cow' = cow" using lsig check_lsig_cached_Ok by (auto simp: act_simps split: if_splits)
  show "txn_valid env eval txn cow" using alive dup wf grp by (simp add: txn_valid_def)
  show "(\<exists>vc. c = Some vc \<and> cacheVerified vc (cacheState vc) txn) \<or>
       TxnPool_verify (eeVerifiers env) txn (eval_spec (evBlock eval)) (evProto eval) = Ok ()"
    using signed by (auto simp: check_signed_def act_simps split: option.splits if_splits)
qed

lemma transactionE:
  assumes "transaction env eval txn ad grp gi (cow, c) = (Ok txib, (cow', c'))"
  obtains ad' cow1 where
    "evValidate eval \<Longrightarrow> txn_valid env eval txn cow"
    "Transaction_Apply cowBalances (Txn txn) (eval_spec (evBlock eval)) (txnCounter cow) cow = (Ok ad', cow1)"
    "check_applyData eval ad ad' = Ok ()"
    "EncodeSignedTxn (blkHeader (evBlock eval)) txn ad' = Ok txib"
    "check_balances eval (eval_spec (evBlock eval)) cow1 (modifiedAccounts cow1) = Ok ()"
    "cow' = addTx (txnHash (eeHashes env)) (Txn txn) cow1"
proof -
  obtain cow0 c0 ad' cow1 where
    v: "act_when (evValidate eval) (validate_txn env eval txn grp gi) (cow, c) = (Ok (), (cow0, c0))" and
    r: "Transaction_Apply cowBalances (Txn txn) (eval_spec (evBlock eval)) (txnCounter cow0) cow0 = (Ok ad', cow1)"
      "check_applyData eval ad ad' = Ok ()"
      "EncodeSignedTxn (blkHeader (evBlock eval)) txn ad' = Ok txib"
      "check_balances eval (eval_spec (evBlock eval)) cow1 (modifiedAccounts cow1) = Ok ()"
      "cow' = addTx (txnHash (eeHashes env)) (Txn txn) cow1"
    using assms by (auto simp: transaction_def Let_def act_simps)
  have "cow0 = cow" "evValidate eval \<Longrightarrow> txn_valid env eval txn cow"
    using v validate_txn_Ok by (auto simp: act_simps split: if_splits)
  with r show ?thesis by (intro that) auto
qed

section \<open>What adding a transaction changes\<close>

lemma addTx_frame [simp]:
  "cow_lookup (addTx H tx cb) = cow_lookup cb" "acct (addTx H tx cb) = acct cb"
  "getAssetCreator (addTx H tx cb) = getAssetCreator cb"
  "cowProto (addTx H tx cb) = cowProto cb" "rewardsLevel (addTx H tx cb) = rewardsLevel cb"
  "lookupParent (addTx H tx cb) = lookupParent cb" "hdr (mods (addTx H tx cb)) = hdr (mods cb)"
  "accts (mods (addTx H tx cb)) = accts (mods cb)"
  "Txids (mods (addTx H tx cb)) = fmupd (ID H tx) (LastValid (txHeader tx)) (Txids (mods cb))"
  "txleases (mods (addTx H tx cb)) = fmupd (txlease_of tx) (LastValid (txHeader tx)) (txleases (mods cb))"
proof -
  show look: "cow_lookup (addTx H tx cb) = cow_lookup cb"
    by (rule ext) (simp add: cow_lookup_def addTx_def Let_def split: option.splits)
  show "acct (addTx H tx cb) = acct cb" by (rule ext) (simp add: acct_def look)
  show "getAssetCreator (addTx H tx cb) = getAssetCreator cb"
    by (rule ext) (simp add: getAssetCreator_def addTx_def Let_def split: option.splits)
qed (simp_all add: addTx_def Let_def rewardsLevel_def txlease_of_def)

lemma transaction_frame:
  assumes "transaction env eval txn ad grp gi (cow, c) = (Ok txib, (cow', c'))"
  shows "lookupParent cow' = lookupParent cow" "cowProto cow' = cowProto cow" "hdr (mods cow') = hdr (mods cow)"
    "rewardsLevel cow' = rewardsLevel cow"
    "Txids (mods cow') = fmupd (SignedTxn_ID (txnHash (eeHashes env)) txn) (LastValid (txHeader (Txn txn))) (Txids (mods cow))"
    "txleases (mods cow') = fmupd (txlease_of (Txn txn)) (LastValid (txHeader (Txn txn))) (txleases (mods cow))"
  using assms
  by (auto elim!: transactionE dest!: Apply_frame simp: SignedTxn_ID_def rewardsLevel_def)

section \<open>Groups\<close>

lemma group_loop_ConsE:
  assumes "group_loop env eval grp gi (txad # rest) txibs hashes bytes (cow, c) = (Ok r, s')"
  obtains txib cow1 c1 hashes' bytes' where
    "transaction env eval (adSignedTxn txad) (adApplyData txad) grp gi (cow, c) = (Ok txib, (cow1, c1))"
    "group_member (eeHashes env) (group_of (hd grp)) (length grp) (Txn (adSignedTxn txad)) hashes = Ok hashes'"
    "bytes' = (if evValidate eval then bytes + int (eeEncodeTxib env txib) else bytes)"
    "evValidate eval \<Longrightarrow> evBlockTxBytes eval + bytes' \<le> MaxTxnBytesPerBlock (evProto eval)"
    "group_loop env eval grp (gi + 1) rest (txibs @ [txib]) hashes' bytes' (cow1, c1) = (Ok r, s')"
proof -
  from assms obtain txib cow1 c1 hashes' where
    t: "transaction env eval (adSignedTxn txad) (adApplyData txad) grp gi (cow, c) = (Ok txib, (cow1, c1))" and
    g: "\<not> (evValidate eval \<and> evBlockTxBytes eval +
          (if evValidate eval then bytes + int (eeEncodeTxib env txib) else bytes) > MaxTxnBytesPerBlock (evProto eval))" and
    m: "group_member (eeHashes env) (group_of (hd grp)) (length grp) (Txn (adSignedTxn txad)) hashes = Ok hashes'" and
    r: "group_loop env eval grp (gi + 1) rest (txibs @ [txib]) hashes'
          (if evValidate eval then bytes + int (eeEncodeTxib env txib) else bytes) (cow1, c1) = (Ok r, s')"
    unfolding group_loop.simps Let_def act_bind_Ok by (auto simp only: act_guard_Ok act_lift_Ok prod.inject split_paired_Ex)
  show ?thesis by (rule that [OF t m refl _ r]) (use g in auto)
qed

lemma group_loop_induct [consumes 1, case_names Nil Cons]:
  assumes "group_loop env eval grp gi rest txibs hashes bytes (cow, c) = (Ok r, (cow', c'))"
    and "\<And>gi cow c. P gi [] cow c cow c"
    and "\<And>gi txad rest cow c txib cow1 c1 cow2 c2.
      transaction env eval (adSignedTxn txad) (adApplyData txad) grp gi (cow, c) = (Ok txib, (cow1, c1)) \<Longrightarrow>
      P (gi + 1) rest cow1 c1 cow2 c2 \<Longrightarrow> P gi (txad # rest) cow c cow2 c2"
  shows "P gi rest cow c cow' c'"
  using assms(1)
proof (induction rest arbitrary: gi txibs hashes bytes cow c)
  case Nil
  then show ?case using assms(2) by (simp add: act_simps)
next
  case (Cons txad rest)
  from Cons.prems show ?case
  proof (rule group_loop_ConsE)
    fix txib cow1 c1 hashes' bytes'
    assume t: "transaction env eval (adSignedTxn txad) (adApplyData txad) grp gi (cow, c) = (Ok txib, (cow1, c1))"
      and rest: "group_loop env eval grp (gi + 1) rest (txibs @ [txib]) hashes' bytes' (cow1, c1) = (Ok r, cow', c')"
    from t Cons.IH [OF rest] show ?thesis by (rule assms(3))
  qed
qed

text \<open>What every transaction keeps, a group keeps.\<close>

lemma group_loop_keeps:
  assumes "group_loop env eval grp gi rest txibs hashes bytes (cow, c) = (Ok r, (cow', c'))" and "P cow"
    and "\<And>txn ad gi cow c txib cow1 c1.
      transaction env eval txn ad grp gi (cow, c) = (Ok txib, (cow1, c1)) \<Longrightarrow> P cow \<Longrightarrow> P cow1"
  shows "P cow'"
proof -
  have "P cow \<longrightarrow> P cow'"
    using assms(1) by (induction rule: group_loop_induct) (use assms(3) in blast)+
  then show ?thesis using assms(2) by blast
qed

lemma transactionGroupE:
  assumes "transactionGroup env grp remember eval = (Ok u, eval')"
  obtains "grp = []" "eval' = eval"
  | cow c txibs hashes bytes where "grp \<noteq> []"
    "int (length grp) \<le> MaxTxGroupSize (evProto eval)"
    "group_loop env eval grp 0 grp [] [] 0 (child (evState eval), evTxcache eval) = (Ok (txibs, hashes, bytes), (cow, c))"
    "group_complete (eeHashes env) (group_of (hd grp)) hashes = Ok ()"
    "eval' = (if remember then remember_group cow txibs bytes (eval\<lparr>evTxcache := c\<rparr>) else eval\<lparr>evTxcache := c\<rparr>)"
  using assms
  by (auto simp: transactionGroup_def Let_def not_less split: if_splits prod.splits result.splits)

lemma remember_group_sel [simp]:
  "evState (remember_group cow txibs bytes eval) = commitToParent cow (evState eval)"
  "evValidate (remember_group cow txibs bytes eval) = evValidate eval"
  "evGenerate (remember_group cow txibs bytes eval) = evGenerate eval"
  "evTxcache (remember_group cow txibs bytes eval) = evTxcache eval"
  "evProto (remember_group cow txibs bytes eval) = evProto eval"
  "evL (remember_group cow txibs bytes eval) = evL eval"
  "blkHeader (evBlock (remember_group cow txibs bytes eval)) = blkHeader (evBlock eval)"
  "blkPayset (evBlock (remember_group cow txibs bytes eval)) = blkPayset (evBlock eval) @ txibs"
  "evBlockTxBytes (remember_group cow txibs bytes eval) = evBlockTxBytes eval + bytes"
  by (simp_all add: remember_group_def)

lemma group_loop_descends:
  assumes "group_loop env eval grp gi rest txibs hashes bytes (child p, c) = (Ok r, (cow', c'))"
  shows "descends cow' p"
  using assms
proof (rule group_loop_keeps)
  show "descends (child p) p" by simp
  show "transaction env eval txn ad grp gi (cow, c) = (Ok txib, (cow1, c1)) \<Longrightarrow> descends cow p \<Longrightarrow> descends cow1 p"
    for txn ad gi cow c txib cow1 c1
    by (simp add: descends_def transaction_frame)
qed

text \<open>
  A property of what a state shows (its accounts, level, protocol, creators) that every transaction
  keeps is kept by a group, through the child it runs on and the commit.
\<close>

lemma transactionGroup_keeps:
  assumes "transactionGroup env grp remember eval = (Ok u, eval')" and "P (evState eval)"
    and "\<And>txn ad gi cow c txib cow1 c1.
      transaction env eval txn ad grp gi (cow, c) = (Ok txib, (cow1, c1)) \<Longrightarrow> P cow \<Longrightarrow> P cow1"
    and "\<And>p. P p \<Longrightarrow> P (child p)"
    and "\<And>p cow. descends cow p \<Longrightarrow> P p \<Longrightarrow> P cow \<Longrightarrow> P (commitToParent cow p)"
  shows "P (evState eval')"
  using assms(1)
proof (rule transactionGroupE)
  fix cow c txibs hashes bytes
  assume loop: "group_loop env eval grp 0 grp [] [] 0 (child (evState eval), evTxcache eval) = (Ok (txibs, hashes, bytes), (cow, c))"
    and eval': "eval' = (if remember then remember_group cow txibs bytes (eval\<lparr>evTxcache := c\<rparr>) else eval\<lparr>evTxcache := c\<rparr>)"
  have "P cow" using loop assms(4) [OF assms(2)] by (rule group_loop_keeps) (rule assms(3))
  then show "P (evState eval')"
    using assms(2) assms(5) [OF group_loop_descends [OF loop] assms(2)] by (simp add: eval')
qed (use assms(2) in simp)

lemma transaction_valid:
  "transaction env eval txn ad grp gi (cow, c) = (Ok txib, (cow', c')) \<Longrightarrow> evValidate eval \<Longrightarrow> txn_valid env eval txn cow"
  by (erule transactionE) blast

section \<open>Money\<close>

lemma transaction_wealth:
  assumes "transaction env eval txn ad grp gi (cow, c) = (Ok txib, (cow1, c1))"
  shows "total_worth (cowProto cow) (rewardsLevel cow) (acct cow1) = total_worth (cowProto cow) (rewardsLevel cow) (acct cow)"
  using assms
  by (auto elim!: transactionE dest!: cow.Transaction_Apply_keeps simp: cow.wealth_def)

lemma transactionGroup_wealth:
  assumes "transactionGroup env grp remember eval = (Ok u, eval')"
  shows "total_worth (cowProto (evState eval)) (rewardsLevel (evState eval)) (acct (evState eval')) =
      total_worth (cowProto (evState eval)) (rewardsLevel (evState eval)) (acct (evState eval))"
    and "cowProto (evState eval') = cowProto (evState eval)"
    and "rewardsLevel (evState eval') = rewardsLevel (evState eval)"
proof -
  let ?P = "\<lambda>cow. cowProto cow = cowProto (evState eval) \<and> rewardsLevel cow = rewardsLevel (evState eval) \<and>
    total_worth (cowProto (evState eval)) (rewardsLevel (evState eval)) (acct cow) =
    total_worth (cowProto (evState eval)) (rewardsLevel (evState eval)) (acct (evState eval))"
  have "?P (evState eval')"
    using assms
  proof (rule transactionGroup_keeps)
    show "transaction env eval txn ad grp gi (cow, c) = (Ok txib, (cow1, c1)) \<Longrightarrow> ?P cow \<Longrightarrow> ?P cow1"
      for txn ad gi cow c txib cow1 c1
      using transaction_wealth [of env eval txn ad grp gi cow c txib cow1 c1]
        transaction_frame [of env eval txn ad grp gi cow c txib cow1 c1] by simp
  qed (simp_all add: child_shows commit_shows)
  then show "total_worth (cowProto (evState eval)) (rewardsLevel (evState eval)) (acct (evState eval')) =
      total_worth (cowProto (evState eval)) (rewardsLevel (evState eval)) (acct (evState eval))"
    "cowProto (evState eval') = cowProto (evState eval)"
    "rewardsLevel (evState eval') = rewardsLevel (evState eval)" by simp_all
qed

lemma transactionGroup_creators:
  assumes "transactionGroup env grp remember eval = (Ok u, eval')" and "creators_known (evState eval)"
  shows "creators_known (evState eval')"
  using assms
proof (rule transactionGroup_keeps)
  show "transaction env eval txn ad grp gi (cow, c) = (Ok txib, (cow1, c1)) \<Longrightarrow> creators_known cow \<Longrightarrow> creators_known cow1"
    for txn ad gi cow c txib cow1 c1
    by (elim transactionE) (auto dest!: Apply_creators_known simp: creators_known_def)
qed (simp_all add: creators_known_def child_shows commit_shows)

section \<open>Duplicates\<close>

definition txid_of :: "eval_env \<Rightarrow> SignedTxnWithAD \<Rightarrow> Txid" where
  "txid_of env txad = SignedTxn_ID (txnHash (eeHashes env)) (adSignedTxn txad)"

definition dup_answer :: "eval_env \<Rightarrow> roundCowParent \<Rightarrow> SignedTxnWithAD \<Rightarrow> (goerror, bool) result" where
  "dup_answer env p txad =
     (let tx = Txn (adSignedTxn txad) in parent_isDup p (First tx) (Last tx) (txid_of env txad) (txlease_of tx))"

abbreviation ids :: "roundCowState \<Rightarrow> Txid set" where
  "ids cow \<equiv> fset (fmdom (Txids (mods cow)))"

lemma isDup_False:
  assumes "cow_isDup cow f l x txl = Ok False"
  shows "x \<notin> ids cow" "parent_isDup (lookupParent cow) f l x txl = Ok False"
    "SupportTransactionLeases (cowProto cow) \<Longrightarrow> lease txl \<noteq> 0 \<Longrightarrow> fmlookup (txleases (mods cow)) txl = Some e \<Longrightarrow>
      e < bhRound (hdr (mods cow))"
proof -
  show "x \<notin> ids cow"
    using assms by (cases "fmlookup (Txids (mods cow)) x") (simp_all add: cow_isDup_def fmdom_notI)
  show "parent_isDup (lookupParent cow) f l x txl = Ok False"
    using assms unfolding cow_isDup_def by (simp only: split: if_splits) simp_all
  show "e < bhRound (hdr (mods cow))" if "SupportTransactionLeases (cowProto cow)" "lease txl \<noteq> 0"
    "fmlookup (txleases (mods cow)) txl = Some e"
    using assms that by (simp add: cow_isDup_def not_le split: if_splits)
qed

text \<open>The transactions of a list are new to the layer, to its parent and to each other.\<close>

definition all_new :: "eval_env \<Rightarrow> SignedTxnWithAD list \<Rightarrow> roundCowState \<Rightarrow> roundCowState \<Rightarrow> bool" where
  "all_new env txs cow cow' \<longleftrightarrow>
     distinct (map (txid_of env) txs) \<and> set (map (txid_of env) txs) \<inter> ids cow = {} \<and>
     ids cow' = ids cow \<union> set (map (txid_of env) txs) \<and> lookupParent cow' = lookupParent cow \<and>
     (\<forall>t\<in>set txs. dup_answer env (lookupParent cow) t = Ok False)"

lemma all_new_trans:
  "all_new env xs a b \<Longrightarrow> all_new env ys b c \<Longrightarrow> all_new env (xs @ ys) a c"
  by (auto simp: all_new_def)

lemma transaction_new:
  assumes "transaction env eval (adSignedTxn txad) ad grp gi (cow, c) = (Ok txib, (cow', c'))" and "evValidate eval"
  shows "all_new env [txad] cow cow'"
proof -
  have "txn_valid env eval (adSignedTxn txad) cow" using assms by (rule transaction_valid)
  then have "txid_of env txad \<notin> ids cow" "dup_answer env (lookupParent cow) txad = Ok False"
    using isDup_False(1,2) [of cow] by (auto simp: txn_valid_def txid_of_def dup_answer_def Let_def)
  moreover have "ids cow' = insert (txid_of env txad) (ids cow)" "lookupParent cow' = lookupParent cow"
    using transaction_frame [OF assms(1)] by (simp_all add: txid_of_def)
  ultimately show ?thesis by (simp add: all_new_def)
qed

lemma group_loop_new:
  assumes "group_loop env eval grp gi rest txibs hashes bytes (cow, c) = (Ok r, (cow', c'))" and "evValidate eval"
  shows "all_new env rest cow cow'"
  using assms(1)
proof (induction rule: group_loop_induct)
  case (Cons gi txad rest cow c txib cow1 c1 cow2 c2)
  then show ?case using all_new_trans [OF transaction_new [OF Cons(1) assms(2)] Cons(2)] by simp
qed (simp add: all_new_def)

lemma all_new_counter:
  assumes "all_new env txs cow cow'"
  shows "txnCounter cow' = txnCounter cow + of_nat (length txs)"
proof -
  have "card (ids cow') = card (ids cow) + length txs"
    using assms card_Un_disjoint [of "ids cow" "set (map (txid_of env) txs)"]
      distinct_card [of "map (txid_of env) txs"]
    by (simp add: all_new_def inf_commute)
  then show ?thesis using assms by (simp add: txnCounter_def all_new_def fcard.rep_eq)
qed

lemma transactionGroup_new:
  assumes "transactionGroup env grp True eval = (Ok u, eval')" and "evValidate eval"
  shows "all_new env grp (evState eval) (evState eval')"
  using assms(1)
proof (rule transactionGroupE)
  fix cow c txibs hashes bytes
  assume loop: "group_loop env eval grp 0 grp [] [] 0 (child (evState eval), evTxcache eval) = (Ok (txibs, hashes, bytes), (cow, c))"
    and eval': "eval' = (if True then remember_group cow txibs bytes (eval\<lparr>evTxcache := c\<rparr>) else eval\<lparr>evTxcache := c\<rparr>)"
  note new = group_loop_new [OF loop assms(2)]
  have "x \<notin> ids (evState eval) \<and> dup_answer env (lookupParent (evState eval)) t = Ok False"
    if "t \<in> set grp" "x = txid_of env t" for t x
    using new that isDup_False(1,2) [of "evState eval"]
    by (auto simp: all_new_def dup_answer_def Let_def)
  moreover have "ids (evState eval') = ids (evState eval) \<union> ids cow" "lookupParent (evState eval') = lookupParent (evState eval)"
    by (simp_all add: eval' commitToParent_def Let_def)
  ultimately show ?thesis using new by (auto simp: all_new_def)
qed (simp add: all_new_def)

section \<open>Blocks\<close>

lemma transactionGroup_frame:
  assumes "transactionGroup env grp remember eval = (Ok u, eval')"
  shows "evValidate eval' = evValidate eval" "evGenerate eval' = evGenerate eval" "evProto eval' = evProto eval"
    "blkHeader (evBlock eval') = blkHeader (evBlock eval)" "evL eval' = evL eval"
    "hdr (mods (evState eval')) = hdr (mods (evState eval))"
  using assms by (auto elim!: transactionGroupE simp: commitToParent_def Let_def split: if_splits)

text \<open>What every group keeps, a block keeps.\<close>

lemma eval_groups_induct [consumes 1, case_names Nil Cons]:
  assumes "eval_groups env d i groups eval = (Ok u, eval')"
    and "\<And>eval. P [] eval eval"
    and "\<And>grp rest eval eval1 eval2. transactionGroup env grp True eval = (Ok (), eval1) \<Longrightarrow>
      P rest eval1 eval2 \<Longrightarrow> P (grp # rest) eval eval2"
  shows "P groups eval eval'"
  using assms(1)
proof (induction groups arbitrary: i eval)
  case (Cons grp rest)
  then show ?case using assms(3) by (auto simp: act_simps TransactionGroup_def split: if_splits)
qed (use assms(2) in \<open>simp add: act_simps\<close>)

lemma eval_groups_frame:
  assumes "eval_groups env d i groups eval = (Ok u, eval')"
  shows "evValidate eval' = evValidate eval \<and> evGenerate eval' = evGenerate eval \<and> evProto eval' = evProto eval \<and>
    blkHeader (evBlock eval') = blkHeader (evBlock eval) \<and> evL eval' = evL eval \<and>
    hdr (mods (evState eval')) = hdr (mods (evState eval))"
  using assms
proof (induction rule: eval_groups_induct)
  case (Cons grp rest eval eval1 eval2)
  then show ?case using transactionGroup_frame [OF Cons(1)] by simp
qed simp

lemma eval_groups_wealth:
  assumes "eval_groups env d i groups eval = (Ok u, eval')"
  shows "total_worth (cowProto (evState eval)) (rewardsLevel (evState eval)) (acct (evState eval')) =
      total_worth (cowProto (evState eval)) (rewardsLevel (evState eval)) (acct (evState eval)) \<and>
    cowProto (evState eval') = cowProto (evState eval) \<and> rewardsLevel (evState eval') = rewardsLevel (evState eval)"
  using assms
proof (induction rule: eval_groups_induct)
  case (Cons grp rest eval eval1 eval2)
  then show ?case using transactionGroup_wealth [OF Cons(1)] by simp
qed simp

lemma eval_groups_new:
  assumes "eval_groups env d i groups eval = (Ok u, eval')"
  shows "evValidate eval \<longrightarrow> all_new env (concat groups) (evState eval) (evState eval')"
  using assms
proof (induction rule: eval_groups_induct)
  case (Cons grp rest eval eval1 eval2)
  then show ?case
    using transactionGroup_new [OF Cons(1)] transactionGroup_frame(1) [OF Cons(1)] all_new_trans by auto
qed (simp add: all_new_def)

section \<open>Assets\<close>

text \<open>Asset identifiers come from the transaction counter, which counts every transaction once.\<close>

lemma group_loop_assets:
  assumes "group_loop env eval grp gi rest txibs hashes bytes (cow, c) = (Ok r, (cow', c'))" and "evValidate eval"
  shows "assets_ok (unat (txnCounter cow)) (acct cow) \<longrightarrow> unat (txnCounter cow) + length rest < 2 ^ 64 \<longrightarrow>
    assets_ok (unat (txnCounter cow) + length rest) (acct cow')"
  using assms(1)
proof (induction rule: group_loop_induct)
  case (Cons gi txad rest cow c txib cow1 c1 cow2 c2)
  note new = transaction_new [OF Cons(1) assms(2)]
  show ?case
  proof (intro impI)
    assume ok: "assets_ok (unat (txnCounter cow)) (acct cow)" and lim: "unat (txnCounter cow) + length (txad # rest) < 2 ^ 64"
    have ctr: "unat (txnCounter cow1) = Suc (unat (txnCounter cow))"
      using all_new_counter [OF new] lim unat_add_of_nat [of "txnCounter cow" 1] by simp
    have "assets_ok (Suc (unat (txnCounter cow))) (acct cow1)"
      using Cons(1)
    proof (rule transactionE)
      fix ad' cow0
      assume "Transaction_Apply cowBalances (Txn (adSignedTxn txad)) (eval_spec (evBlock eval)) (txnCounter cow) cow = (Ok ad', cow0)"
        and "cow1 = addTx (txnHash (eeHashes env)) (Txn (adSignedTxn txad)) cow0"
      then show ?thesis using cow.Transaction_Apply_assets_ok ok lim by auto
    qed
    then show "assets_ok (unat (txnCounter cow) + length (txad # rest)) (acct cow2)"
      using Cons(2) lim by (simp add: ctr)
  qed
qed simp

lemma transactionGroup_assets:
  assumes "transactionGroup env grp True eval = (Ok u, eval')" and "evValidate eval"
    and "assets_ok (unat (txnCounter (evState eval))) (acct (evState eval))"
    and "unat (txnCounter (evState eval)) + length grp < 2 ^ 64"
  shows "assets_ok (unat (txnCounter (evState eval'))) (acct (evState eval'))"
proof -
  have ctr: "unat (txnCounter (evState eval')) = unat (txnCounter (evState eval)) + length grp"
    using all_new_counter [OF transactionGroup_new [OF assms(1,2)]] assms(4) by (simp add: unat_add_of_nat)
  from assms(1) show ?thesis
  proof (rule transactionGroupE)
    fix cow c txibs hashes bytes
    assume loop: "group_loop env eval grp 0 grp [] [] 0 (child (evState eval), evTxcache eval) = (Ok (txibs, hashes, bytes), (cow, c))"
      and "eval' = (if True then remember_group cow txibs bytes (eval\<lparr>evTxcache := c\<rparr>) else eval\<lparr>evTxcache := c\<rparr>)"
    then show ?thesis
      unfolding ctr using group_loop_assets [OF loop assms(2)] assms(3,4) group_loop_descends [OF loop]
      by (simp add: child_shows commit_shows)
  qed (use assms(3) in simp)
qed

lemma eval_groups_assets:
  assumes "eval_groups env d i groups eval = (Ok u, eval')"
  shows "evValidate eval \<longrightarrow> assets_ok (unat (txnCounter (evState eval))) (acct (evState eval)) \<longrightarrow>
    unat (txnCounter (evState eval)) + length (concat groups) < 2 ^ 64 \<longrightarrow>
    assets_ok (unat (txnCounter (evState eval'))) (acct (evState eval'))"
  using assms
proof (induction rule: eval_groups_induct)
  case (Cons grp rest eval eval1 eval2)
  show ?case
  proof (intro impI)
    assume a: "evValidate eval" "assets_ok (unat (txnCounter (evState eval))) (acct (evState eval))"
      "unat (txnCounter (evState eval)) + length (concat (grp # rest)) < 2 ^ 64"
    have "unat (txnCounter (evState eval1)) = unat (txnCounter (evState eval)) + length grp"
      using all_new_counter [OF transactionGroup_new [OF Cons(1) a(1)]] a(3) by (simp add: unat_add_of_nat)
    then show "assets_ok (unat (txnCounter (evState eval2))) (acct (evState eval2))"
      using Cons(2) transactionGroup_assets [OF Cons(1) a(1,2)] transactionGroup_frame(1) [OF Cons(1)] a by simp
  qed
qed simp

section \<open>Rewards of a new block\<close>

lemma cow_Get_updated:
  assumes "cow_Get a True cs = (Ok r, cs')"
  shows "cs' = cs" "brAddr r = a" "WithUpdatedRewards (cowProto cs) (rewardsLevel cs) (acct cs a) = Ok (brData r)"
  using cow.Get_pending [of a cs r cs'] assms by simp_all

abbreviation cow_wealth :: "roundCowState \<Rightarrow> nat" where
  "cow_wealth cs \<equiv> total_worth (cowProto cs) (rewardsLevel cs) (acct cs)"

lemma workaround_keeps:
  assumes "workaroundOverspentRewards gh a r rnd cs = (Ok r', cs')"
    and "brAddr r = a" "WithUpdatedRewards (cowProto cs) (rewardsLevel cs) (acct cs a) = Ok (brData r)"
  shows "brAddr r' = a \<and> WithUpdatedRewards (cowProto cs) (rewardsLevel cs) (acct cs' a) = Ok (brData r') \<and>
    cowProto cs' = cowProto cs \<and> rewardsLevel cs' = rewardsLevel cs \<and>
    total_worth (cowProto cs) (rewardsLevel cs) (acct cs') = cow_wealth cs \<and>
    lookupParent cs' = lookupParent cs \<and> Txids (mods cs') = Txids (mods cs) \<and> hdr (mods cs') = hdr (mods cs)"
proof (cases "(rnd = 1499995 \<or> rnd = 2926564) \<and> gh = testnetGenesisHash")
  case True
  then obtain w cs1 where mv: "cow_Move testnetBankAddr a 20000000000 None None cs = (Ok w, cs1)"
    and get: "cow_Get a True cs1 = (Ok r', cs')"
    using assms(1) by (auto simp: workaroundOverspentRewards_def act_simps Let_def)
  have "total_worth (cowProto cs) (rewardsLevel cs) (acct cs1) = cow_wealth cs"
    using cow_Move_effect [OF mv] by (rule move_effect_total)
  then show ?thesis using cow_Get_updated [OF get] cow_Move_frame [OF mv] by simp
next
  case False
  then have "r' = r \<and> cs' = cs" using assms(1) by (auto simp: workaroundOverspentRewards_def act_simps)
  then show ?thesis using assms(2,3) by simp
qed

lemma withdraw_rewardsE:
  assumes "withdraw_rewards proto gh h prev totals cs = (Ok u, cs')"
  obtains r1 r2 cs1 n and owed :: u64 and algos d where
    "RewardsLevel (bhRewards prev) \<le> RewardsLevel (bhRewards h)"
    "cow_Get (RewardsPool (bhRewards prev)) True cs = (Ok r1, cs)"
    "workaroundOverspentRewards gh (RewardsPool (bhRewards prev)) r1 (bhRound h) cs = (Ok r2, cs1)"
    "Totals_RewardUnits totals = Ok n"
    "unat owed = unat n * (unat (RewardsLevel (bhRewards h)) - unat (RewardsLevel (bhRewards prev)))"
    "unat algos + unat owed = unat (acctMicroAlgos (brData r2))"
    "cow_lookup cs1 (brAddr r2) = Ok d" "MinBalance proto \<le> algos"
    "cs' = put (brAddr r2) d ((brData r2)\<lparr>acctMicroAlgos := algos\<rparr>) cs1"
proof -
  obtain x ot1 where x: "ot_Sub (RewardsLevel (bhRewards h)) (RewardsLevel (bhRewards prev)) ot_new = (x, ot1)" by force
  have no1: "\<not> Overflowed ot1" using assms x by (auto simp: withdraw_rewards_def Let_def act_simps)
  obtain r1 r2 cs0 cs1 n where g: "cow_Get (RewardsPool (bhRewards prev)) True cs = (Ok r1, cs0)"
    and w: "workaroundOverspentRewards gh (RewardsPool (bhRewards prev)) r1 (bhRound h) cs0 = (Ok r2, cs1)"
    and n: "Totals_RewardUnits totals = Ok n"
    and rest: "(let (owed, ot2) = ot_Mul n x ot1;
            (algos, ot3) = ot_SubA (acctMicroAlgos (brData r2)) owed ot2 in
        if Overflowed ot3 then act_err (Errorf ''overflowed subtracting reward unit'')
        else
          act_bind (cow_Put (r2\<lparr>brData := (brData r2)\<lparr>acctMicroAlgos := algos\<rparr>\<rparr>)) (\<lambda>_.
          let (_, ot4) = ot_SubA algos (MinBalance proto) ot3 in
          act_guard (\<not> Overflowed ot4) (Errorf ''overflowed subtracting rewards''))) cs1 = (Ok u, cs')"
    using assms x no1 by (auto simp: withdraw_rewards_def Let_def act_simps simp del: act_case_prod_Ok)
  have cs0: "cs0 = cs" using cow_Get_updated(1) [OF g] .
  obtain owed ot2 where o: "ot_Mul n x ot1 = (owed, ot2)" by force
  obtain algos ot3 where a: "ot_Sub (acctMicroAlgos (brData r2)) owed ot2 = (algos, ot3)" by force
  obtain z ot4 where z: "ot_Sub algos (MinBalance proto) ot3 = (z, ot4)" by force
  have ok: "\<not> Overflowed ot3" "\<not> Overflowed ot4"
    and p: "cow_Put (r2\<lparr>brData := (brData r2)\<lparr>acctMicroAlgos := algos\<rparr>\<rparr>) cs1 = (Ok (), cs')"
    using rest o a z by (auto simp: ot_SubA_def act_simps)
  obtain d where d: "cow_lookup cs1 (brAddr r2) = Ok d" and
    cs': "cs' = put (brAddr r2) d ((brData r2)\<lparr>acctMicroAlgos := algos\<rparr>) cs1"
    using cow_PutD [OF p] by auto
  note e1 = ot_Sub_ok [OF x no1] and e3 = ot_Sub_ok [OF a ok(1)] and e4 = ot_Sub_ok [OF z ok(2)]
  note e2 = ot_Mul_ok [OF o]
  show ?thesis
    by (rule that [of r1 r2 cs1 n owed algos d, OF _ g [unfolded cs0] w [unfolded cs0] n _ _ d _ cs'])
      (use e1 e2 e3 e4 in \<open>auto simp: word_le_nat_alt\<close>)
qed

lemma withdraw_rewards_frame:
  assumes "withdraw_rewards proto gh h prev totals cs = (Ok u, cs')"
  shows "cowProto cs' = cowProto cs \<and> rewardsLevel cs' = rewardsLevel cs \<and>
    lookupParent cs' = lookupParent cs \<and> Txids (mods cs') = Txids (mods cs) \<and> hdr (mods cs') = hdr (mods cs)"
  using assms
proof (rule withdraw_rewardsE)
  fix r1 r2 cs1 n owed algos d
  assume g: "cow_Get (RewardsPool (bhRewards prev)) True cs = (Ok r1, cs)"
    and w: "workaroundOverspentRewards gh (RewardsPool (bhRewards prev)) r1 (bhRound h) cs = (Ok r2, cs1)"
    and "cs' = put (brAddr r2) d ((brData r2)\<lparr>acctMicroAlgos := algos\<rparr>) cs1"
  then show ?thesis using workaround_keeps [OF w cow_Get_updated(2,3) [OF g]] by simp
qed

text \<open>The pool pays exactly what the new level promises to every reward unit.\<close>

lemma withdraw_rewards_pays:
  assumes "withdraw_rewards proto gh h prev totals cs = (Ok u, cs')"
  obtains n where "Totals_RewardUnits totals = Ok n"
    "RewardsLevel (bhRewards prev) \<le> RewardsLevel (bhRewards h)"
    "cow_wealth cs' + unat n * (unat (RewardsLevel (bhRewards h)) - unat (RewardsLevel (bhRewards prev))) = cow_wealth cs"
    "MinBalance proto \<le> acctMicroAlgos (acct cs' (RewardsPool (bhRewards prev)))"
  using assms
proof (rule withdraw_rewardsE)
  fix r1 r2 cs1 n owed algos d
  assume lvl: "RewardsLevel (bhRewards prev) \<le> RewardsLevel (bhRewards h)"
    and g: "cow_Get (RewardsPool (bhRewards prev)) True cs = (Ok r1, cs)"
    and w: "workaroundOverspentRewards gh (RewardsPool (bhRewards prev)) r1 (bhRound h) cs = (Ok r2, cs1)"
    and n: "Totals_RewardUnits totals = Ok n"
    and owed: "unat owed = unat n * (unat (RewardsLevel (bhRewards h)) - unat (RewardsLevel (bhRewards prev)))"
    and algos: "unat algos + unat owed = unat (acctMicroAlgos (brData r2))"
    and d: "cow_lookup cs1 (brAddr r2) = Ok d" and mb: "MinBalance proto \<le> algos"
    and cs': "cs' = put (brAddr r2) d ((brData r2)\<lparr>acctMicroAlgos := algos\<rparr>) cs1"
  note k = workaround_keeps [OF w cow_Get_updated(2,3) [OF g]]
  let ?p = "cowProto cs" and ?l = "rewardsLevel cs"
  have upd: "WithUpdatedRewards ?p ?l (acct cs1 (brAddr r2)) = Ok (brData r2)" using k by simp
  have "worth ?p ?l ((brData r2)\<lparr>acctMicroAlgos := algos\<rparr>) = unat algos"
    using upd by (rule WithUpdatedRewards_settles(2))
  moreover have "worth ?p ?l (acct cs1 (brAddr r2)) = unat (acctMicroAlgos (brData r2))"
    using WithUpdatedRewards_OkD(1) [OF upd] by simp
  ultimately have "cow_wealth cs' + unat owed = cow_wealth cs"
    using total_worth_upd [of ?p ?l "acct cs1" "brAddr r2" "(brData r2)\<lparr>acctMicroAlgos := algos\<rparr>"] k algos
    by (simp add: cs')
  then show ?thesis using lvl n owed mb k by (intro that) (simp_all add: cs')
qed

text \<open>
  The ledger the evaluator starts from: the accounts after the previous block, with totals that
  count them.
\<close>

definition ledger_shows ::
    "ledgerForEvaluator \<Rightarrow> ConsensusParams \<Rightarrow> BlockHeader \<Rightarrow> accounts \<Rightarrow> bool" where
  "ledger_shows l p prev m \<longleftrightarrow>
     leBlockHdr l (bhRound prev) = Ok prev \<and>
     (\<forall>a. leLookupWithoutRewards l (bhRound prev) a = Ok (m a)) \<and>
     (\<exists>at. leTotals l (bhRound prev) = Ok at \<and> totals_ok p m at \<and>
        atRewardsLevel at = RewardsLevel (bhRewards prev)) \<and>
     bases_below (RewardsLevel (bhRewards prev)) m"

lemma startEvaluatorE:
  assumes "startEvaluator env l h validate generate tc = Ok eval" and "0 < bhRound h"
  obtains proto prev at pool h' s where
    "Consensus (CurrentProtocol (bhUpgradeState h)) = Some proto" "leBlockHdr l (bhRound h - 1) = Ok prev"
    "leTotals l (bhRound prev) = Ok at" "leLookup l (bhRound prev) (RewardsPool (bhRewards prev)) = Ok pool"
    "(if generate then generated_header proto (leGenesisHash l) h prev (acctMicroAlgos pool) at else Ok h) = Ok h'"
    "validate \<Longrightarrow> check_header (eeHashes env) proto (leGenesisHash l) h' prev (acctMicroAlgos pool) at = Ok ()"
    "withdraw_rewards proto (leGenesisHash l) h' prev at
       (makeRoundCowState (base_as_parent \<lparr>baseL = l, baseRnd = bhRound h - 1, baseTxnCount = TxnCounter prev, baseProto = proto\<rparr>) h') =
       (Ok (), s)"
    "eval = \<lparr>evState = s, evValidate = validate, evGenerate = generate, evTxcache = tc,
        evPrevHeader = prev, evProto = proto, evGenesisHash = leGenesisHash l,
        evBlock = \<lparr>blkHeader = h', blkPayset = [], blkPayProxySet = []\<rparr>, evBlockTxBytes = 0, evL = l\<rparr>"
proof -
  from assms(1) obtain proto where proto: "Consensus (CurrentProtocol (bhUpgradeState h)) = Some proto"
    by (auto simp: startEvaluator_def split: option.splits)
  from assms obtain prev at pool h' where r: "leBlockHdr l (bhRound h - 1) = Ok prev"
    "leTotals l (bhRound prev) = Ok at" "leLookup l (bhRound prev) (RewardsPool (bhRewards prev)) = Ok pool"
    "(if generate then generated_header proto (leGenesisHash l) h prev (acctMicroAlgos pool) at else Ok h) = Ok h'"
    "(if validate then check_header (eeHashes env) proto (leGenesisHash l) h' prev (acctMicroAlgos pool) at else Ok ()) = Ok ()"
    and rest: "(case withdraw_rewards proto (leGenesisHash l) h' prev at
       (makeRoundCowState (base_as_parent \<lparr>baseL = l, baseRnd = bhRound h - 1, baseTxnCount = TxnCounter prev, baseProto = proto\<rparr>) h') of
            (Ok _, state') \<Rightarrow>
              Ok \<lparr>evState = state', evValidate = validate, evGenerate = generate, evTxcache = tc,
                  evPrevHeader = prev, evProto = proto, evGenesisHash = leGenesisHash l,
                  evBlock = \<lparr>blkHeader = h', blkPayset = [], blkPayProxySet = []\<rparr>,
                  evBlockTxBytes = 0, evL = l\<rparr>
          | (Err e, _) \<Rightarrow> Err e
          | (Panic e, _) \<Rightarrow> Panic e) = Ok eval"
    by (auto simp: startEvaluator_def proto Let_def act_simps)
  from rest obtain s where s: "withdraw_rewards proto (leGenesisHash l) h' prev at
       (makeRoundCowState (base_as_parent \<lparr>baseL = l, baseRnd = bhRound h - 1, baseTxnCount = TxnCounter prev, baseProto = proto\<rparr>) h') =
       (Ok (), s)" and e: "eval = \<lparr>evState = s, evValidate = validate, evGenerate = generate, evTxcache = tc,
        evPrevHeader = prev, evProto = proto, evGenesisHash = leGenesisHash l,
        evBlock = \<lparr>blkHeader = h', blkPayset = [], blkPayProxySet = []\<rparr>, evBlockTxBytes = 0, evL = l\<rparr>"
    by (auto split: prod.splits result.splits)
  show ?thesis by (rule that [OF proto r(1-4) _ s e]) (use r(5) in simp)
qed

text \<open>Starting a block moves money from the pool into pending rewards, and conserves the sum.\<close>

lemma startEvaluator_wealth:
  assumes run: "startEvaluator env l h validate generate tc = Ok eval"
    and led: "ledger_shows l (evProto eval) prev m" and rnd: "bhRound h = bhRound prev + 1" "bhRound h \<noteq> 0"
  shows "total_worth (evProto eval) (rewardsLevel (evState eval)) (acct (evState eval)) =
      total_worth (evProto eval) (RewardsLevel (bhRewards prev)) m \<and> cowProto (evState eval) = evProto eval"
proof (rule startEvaluatorE [OF run])
  show "0 < bhRound h" using rnd(2) by (simp add: word_neq_0_conv)
  fix proto prev' at pool h' s
  assume proto: "Consensus (CurrentProtocol (bhUpgradeState h)) = Some proto" and p': "leBlockHdr l (bhRound h - 1) = Ok prev'"
    and at: "leTotals l (bhRound prev') = Ok at"
    and h': "(if generate then generated_header proto (leGenesisHash l) h prev' (acctMicroAlgos pool) at else Ok h) = Ok h'"
    and w: "withdraw_rewards proto (leGenesisHash l) h' prev' at
       (makeRoundCowState (base_as_parent \<lparr>baseL = l, baseRnd = bhRound h - 1, baseTxnCount = TxnCounter prev', baseProto = proto\<rparr>) h') =
       (Ok (), s)" (is "withdraw_rewards _ _ _ _ _ ?s0 = _")
    and eval: "eval = \<lparr>evState = s, evValidate = validate, evGenerate = generate, evTxcache = tc,
        evPrevHeader = prev', evProto = proto, evGenesisHash = leGenesisHash l,
        evBlock = \<lparr>blkHeader = h', blkPayset = [], blkPayProxySet = []\<rparr>, evBlockTxBytes = 0, evL = l\<rparr>"
  have prev: "prev' = prev" using p' led rnd(1) by (simp add: ledger_shows_def)
  have us: "bhUpgradeState h' = bhUpgradeState h"
    using h' by (auto simp: generated_header_def act_simps Let_def split: if_splits)
  have s0: "cowProto ?s0 = proto" "rewardsLevel ?s0 = RewardsLevel (bhRewards h')"
    using proto us by (simp_all add: makeRoundCowState_def rewardsLevel_def Consensus_or_zero_def)
  have acct: "acct ?s0 = m"
    using led rnd(1) by (intro ext) (simp add: acct_def cow_lookup_def makeRoundCowState_def base_as_parent_def ledger_shows_def)
  obtain n where n: "Totals_RewardUnits at = Ok n" and le: "RewardsLevel (bhRewards prev) \<le> RewardsLevel (bhRewards h')"
    and pays: "cow_wealth s + unat n * (unat (RewardsLevel (bhRewards h')) - unat (RewardsLevel (bhRewards prev))) = cow_wealth ?s0"
    using w unfolding prev by (rule withdraw_rewards_pays)
  have tot: "totals_ok proto m at" "bases_below (RewardsLevel (bhRewards prev)) m"
    using led at by (auto simp: ledger_shows_def eval prev)
  have "cow_wealth ?s0 = total_worth proto (RewardsLevel (bhRewards prev)) m +
      unat n * (unat (RewardsLevel (bhRewards h')) - unat (RewardsLevel (bhRewards prev)))"
    using total_worth_level [OF _ tot(2) le] tot(1) Totals_RewardUnits_sum [OF tot(1) n] s0 acct
    by (simp add: totals_ok_def)
  with pays withdraw_rewards_frame [OF w] s0 show ?thesis by (simp add: eval)
qed

section \<open>Minimum balances\<close>

definition balance_ok :: "ConsensusParams \<Rightarrow> u64 \<Rightarrow> AccountData \<Rightarrow> bool" where
  "balance_ok p lvl d \<longleftrightarrow> AccountData_IsZero d \<or>
     (\<exists>dn. WithUpdatedRewards p lvl d = Ok dn \<and> effectiveMinBalance p dn \<le> acctMicroAlgos dn)"

lemma check_balances_Ok:
  "check_balances eval spec cow as = Ok u \<longleftrightarrow>
     (\<forall>a\<in>set as. a = spFeeSink spec \<or> a = spRewardsPool spec \<or>
        (\<exists>d. cow_lookup cow a = Ok d \<and> balance_ok (evProto eval) (rewardsLevel cow) d))"
  by (induction as) (auto simp: act_simps balance_ok_def not_less)

text \<open>Every account the layer has written, but for the two special ones, holds its minimum.\<close>

definition balances_ok :: "ConsensusParams \<Rightarrow> SpecialAddresses \<Rightarrow> roundCowState \<Rightarrow> bool" where
  "balances_ok p spec cow \<longleftrightarrow>
     (\<forall>a. a |\<in>| fmdom (accts (mods cow)) \<longrightarrow> a \<noteq> spFeeSink spec \<longrightarrow> a \<noteq> spRewardsPool spec \<longrightarrow>
        balance_ok p (rewardsLevel cow) (acct cow a))"

lemma transaction_balances:
  assumes "transaction env eval txn ad grp gi (cow, c) = (Ok txib, (cow', c'))"
  shows "balances_ok (evProto eval) (eval_spec (evBlock eval)) cow'"
  using assms
  by (rule transactionE) (auto simp: check_balances_Ok modifiedAccounts_def balances_ok_def acct_def)

lemma transactionGroup_balances:
  assumes "transactionGroup env grp remember eval = (Ok u, eval')"
    and "balances_ok (evProto eval) (eval_spec (evBlock eval)) (evState eval)"
  shows "balances_ok (evProto eval) (eval_spec (evBlock eval)) (evState eval')"
  using assms
proof (rule transactionGroup_keeps)
  let ?ok = "balances_ok (evProto eval) (eval_spec (evBlock eval))"
  show "transaction env eval txn ad grp gi (cow, c) = (Ok txib, (cow1, c1)) \<Longrightarrow> ?ok cow1"
    for txn ad gi cow c txib cow1 c1 by (rule transaction_balances)
  show "?ok p \<Longrightarrow> ?ok (child p)" for p by (simp add: balances_ok_def)
  show "?ok (commitToParent cow p)" if d: "descends cow p" and "?ok p" "?ok cow" for p cow
  proof -
    have "a |\<in>| fmdom (accts (mods (commitToParent cow p))) \<longleftrightarrow> a |\<in>| fmdom (accts (mods p)) \<or> a |\<in>| fmdom (accts (mods cow))" for a
      by (simp add: commitToParent_def Let_def)
    moreover have "acct cow a = acct p a" if "a |\<notin>| fmdom (accts (mods cow))" for a
      using d that by (simp add: descends_def acct_def cow_lookup_def [of cow] fmdom_notD)
    moreover have "rewardsLevel cow = rewardsLevel p" using d by (simp add: descends_def rewardsLevel_def)
    ultimately show ?thesis
      using that(2,3) unfolding balances_ok_def commit_shows(3,4) [OF d] by metis
  qed
qed


section \<open>The pre-check of the pool\<close>

lemma test_loop_accepts:
  assumes "group_loop env eval grp gi rest txibs hashes bytes (cow, c) = (Ok (txibs', hashes', bytes'), (cow', c'))"
    and "evValidate eval" and "lookupParent cow = as_parent p"
  shows "test_loop env eval (child p) (group_of (hd grp)) (length grp) (map adSignedTxn rest) hashes = Ok hashes'"
  using assms(1,3)
proof (induction rest arbitrary: gi txibs hashes bytes cow c)
  case Nil
  then show ?case by (simp add: act_simps)
next
  case (Cons txad rest)
  from Cons.prems(1) show ?case
  proof (rule group_loop_ConsE)
    fix txib cow1 c1 h1 b1
    assume t: "transaction env eval (adSignedTxn txad) (adApplyData txad) grp gi (cow, c) = (Ok txib, (cow1, c1))"
      and m: "group_member (eeHashes env) (group_of (hd grp)) (length grp) (Txn (adSignedTxn txad)) hashes = Ok h1"
      and rest: "group_loop env eval grp (gi + 1) rest (txibs @ [txib]) h1 b1 (cow1, c1) = (Ok (txibs', hashes', bytes'), (cow', c'))"
    note v = transaction_valid [OF t assms(2)]
    have "testTransaction env eval (adSignedTxn txad) (child p) = Ok ()"
      using v isDup_False(2) [of cow] Cons.prems(2)
      by (auto simp: testTransaction_def txn_valid_def Let_def res_bind_def wrap_err_def child_shows)
    then show ?thesis using m Cons.IH [OF rest] transaction_frame(1) [OF t] Cons.prems(2)
      by (simp add: res_bind_def)
  qed
qed

lemma TestTransactionGroup_accepts:
  assumes "transactionGroup env grp remember eval = (Ok u, eval')" and "evValidate eval"
  shows "TestTransactionGroup env eval (map adSignedTxn grp) = Ok ()"
  using assms(1)
proof (rule transactionGroupE)
  fix cow c txibs hashes bytes
  assume g: "grp \<noteq> []" "int (length grp) \<le> MaxTxGroupSize (evProto eval)"
    and loop: "group_loop env eval grp 0 grp [] [] 0 (child (evState eval), evTxcache eval) = (Ok (txibs, hashes, bytes), (cow, c))"
    and gc: "group_complete (eeHashes env) (group_of (hd grp)) hashes = Ok ()"
  have "group_of (hd grp) = Group (txHeader (Txn (hd (map adSignedTxn grp))))"
    using g(1) by (simp add: group_of_def hd_map)
  with test_loop_accepts [OF loop assms(2)] g gc show ?thesis
    by (simp add: TestTransactionGroup_def Let_def res_bind_def)
qed (simp add: TestTransactionGroup_def)

section \<open>Leases\<close>

text \<open>The leases a layer holds itself, of those that have not expired.\<close>

definition live_leases :: "roundCowState \<Rightarrow> txlease set" where
  "live_leases cow = {x. lease x \<noteq> 0 \<and> (\<exists>e. fmlookup (txleases (mods cow)) x = Some e \<and> bhRound (hdr (mods cow)) \<le> e)}"

definition leases_of :: "SignedTxnWithAD list \<Rightarrow> txlease list" where
  "leases_of txs = filter (\<lambda>x. lease x \<noteq> 0) (map (\<lambda>t. txlease_of (Txn (adSignedTxn t))) txs)"

definition leases_new :: "SignedTxnWithAD list \<Rightarrow> roundCowState \<Rightarrow> roundCowState \<Rightarrow> bool" where
  "leases_new txs cow cow' \<longleftrightarrow>
     distinct (leases_of txs) \<and> set (leases_of txs) \<inter> live_leases cow = {} \<and>
     live_leases cow' = live_leases cow \<union> set (leases_of txs)"

lemma leases_new_trans: "leases_new xs a b \<Longrightarrow> leases_new ys b c \<Longrightarrow> leases_new (xs @ ys) a c"
  by (auto simp: leases_new_def leases_of_def)

definition ev_ok :: "'c BlockEvaluator \<Rightarrow> bool" where
  "ev_ok eval \<longleftrightarrow> cowProto (evState eval) = evProto eval \<and> hdr (mods (evState eval)) = blkHeader (evBlock eval)"

lemma alive_last: "Alive (block_context blk) h = Ok () \<Longrightarrow> bhRound (blkHeader blk) \<le> LastValid h"
  by (auto simp: Alive_def block_context_def Block_Round_def Let_def split: if_splits)

lemma transaction_leases:
  assumes t: "transaction env eval (adSignedTxn txad) ad grp gi (cow, c) = (Ok txib, (cow', c'))" and "evValidate eval"
    and "hdr (mods cow) = blkHeader (evBlock eval)" and "SupportTransactionLeases (cowProto cow)"
  shows "leases_new [txad] cow cow'"
proof -
  let ?x = "txlease_of (Txn (adSignedTxn txad))" and ?lv = "LastValid (txHeader (Txn (adSignedTxn txad)))"
  note v = transaction_valid [OF t assms(2)]
  have lv: "bhRound (hdr (mods cow)) \<le> ?lv"
    using v alive_last assms(3) by (auto simp: txn_valid_def)
  have "?x \<notin> live_leases cow"
    using v isDup_False(3) [of cow _ _ _ ?x] assms(4) by (force simp: txn_valid_def live_leases_def not_le)
  then show ?thesis
    using lv by (auto simp: leases_new_def leases_of_def live_leases_def transaction_frame [OF t])
qed

lemma group_loop_leases:
  assumes "group_loop env eval grp gi rest txibs hashes bytes (cow, c) = (Ok r, (cow', c'))" and "evValidate eval"
  shows "hdr (mods cow) = blkHeader (evBlock eval) \<longrightarrow> SupportTransactionLeases (cowProto cow) \<longrightarrow>
    leases_new rest cow cow'"
  using assms(1)
proof (induction rule: group_loop_induct)
  case (Cons gi txad rest cow c txib cow1 c1 cow2 c2)
  then show ?case
    using leases_new_trans [OF transaction_leases [OF Cons(1) assms(2)], of rest cow2] transaction_frame [OF Cons(1)] by simp
qed (simp add: leases_new_def leases_of_def)

lemma group_loop_leases_live:
  assumes "group_loop env eval grp gi rest txibs hashes bytes (child p, c) = (Ok r, (cow', c'))" and "evValidate eval"
    and "hdr (mods p) = blkHeader (evBlock eval)"
  shows "leases_live cow'"
proof -
  let ?P = "\<lambda>cow. hdr (mods cow) = blkHeader (evBlock eval) \<and> leases_live cow"
  have "?P cow'"
    using assms(1)
  proof (rule group_loop_keeps)
    show "?P (child p)" using assms(3) by (simp add: leases_live_def)
    show "?P cow1" if t: "transaction env eval txn ad grp gi (cow, c) = (Ok txib, (cow1, c1))" and "?P cow"
      for txn ad gi cow c txib cow1 c1
      using transaction_valid [OF t assms(2)] that(2) alive_last
      by (auto simp: leases_live_def transaction_frame [OF t] txn_valid_def split: if_splits)
  qed
  then show ?thesis ..
qed

lemma live_leases_commit:
  assumes "descends cow p" and "leases_live cow"
  shows "live_leases (commitToParent cow p) = live_leases p \<union> live_leases cow"
  using assms
  by (auto simp: live_leases_def commitToParent_def Let_def descends_def leases_live_def fmdom_notD split: if_splits dest: fmdomI)

lemma transactionGroup_leases:
  assumes "transactionGroup env grp True eval = (Ok u, eval')" and "evValidate eval" and "ev_ok eval"
    and "SupportTransactionLeases (evProto eval)"
  shows "leases_new grp (evState eval) (evState eval')"
  using assms(1)
proof (rule transactionGroupE)
  fix cow c txibs hashes bytes
  assume loop: "group_loop env eval grp 0 grp [] [] 0 (child (evState eval), evTxcache eval) = (Ok (txibs, hashes, bytes), (cow, c))"
    and eval': "eval' = (if True then remember_group cow txibs bytes (eval\<lparr>evTxcache := c\<rparr>) else eval\<lparr>evTxcache := c\<rparr>)"
  have h: "hdr (mods (evState eval)) = blkHeader (evBlock eval)" using assms(3) by (simp add: ev_ok_def)
  have "leases_new grp (child (evState eval)) cow"
    using group_loop_leases [OF loop assms(2)] assms(3,4) by (simp add: ev_ok_def)
  moreover have "live_leases (child (evState eval)) = {}" by (simp add: live_leases_def)
  moreover have "live_leases (evState eval') = live_leases (evState eval) \<union> live_leases cow"
    using live_leases_commit [OF group_loop_descends [OF loop] group_loop_leases_live [OF loop assms(2) h]]
    by (simp add: eval')
  moreover have "set (leases_of grp) \<inter> live_leases (evState eval) = {}"
  proof -
    have "x \<notin> live_leases (evState eval)" if "t \<in> set grp" "x = txlease_of (Txn (adSignedTxn t))" for t x
    proof -
      have "dup_answer env (as_parent (evState eval)) t = Ok False"
        using group_loop_new [OF loop assms(2)] that(1) by (simp add: all_new_def)
      then show ?thesis
        using isDup_False(3) [of "evState eval" _ _ _ x] assms(3,4) that(2)
        by (force simp: dup_answer_def Let_def live_leases_def ev_ok_def not_le)
    qed
    then show ?thesis by (auto simp: leases_of_def)
  qed
  ultimately show ?thesis by (auto simp: leases_new_def)
qed (simp add: leases_new_def leases_of_def)

lemma transactionGroup_ev_ok:
  assumes "transactionGroup env grp True eval = (Ok u, eval')" and "ev_ok eval"
  shows "ev_ok eval'"
  using assms(2) transactionGroup_frame [OF assms(1)] transactionGroup_wealth(2) [OF assms(1)] by (simp add: ev_ok_def)

lemma eval_groups_leases:
  assumes "eval_groups env d i groups eval = (Ok u, eval')"
  shows "evValidate eval \<longrightarrow> ev_ok eval \<longrightarrow> SupportTransactionLeases (evProto eval) \<longrightarrow>
    leases_new (concat groups) (evState eval) (evState eval')"
  using assms
proof (induction rule: eval_groups_induct)
  case (Cons grp rest eval eval1 eval2)
  then show ?case
    using transactionGroup_leases [OF Cons(1)] transactionGroup_frame [OF Cons(1)]
      transactionGroup_ev_ok [OF Cons(1)] leases_new_trans by auto
qed (simp add: leases_new_def leases_of_def)

section \<open>Logic signatures\<close>

text \<open>
  A logic signature that verification accepted cannot be turned down by the evaluator for its
  static shape or its cost; only its logic can.
\<close>

lemma verified_lsig_runs:
  assumes "TxnPool_verify W txn spec proto = Ok ()" and "\<not> Lsig_Blank (stLsig txn)"
    and "length (Logic (stLsig txn)) < 2 ^ 63" and "epProto ep = Some proto"
    and "Eval tc (Logic (stLsig txn)) ep = Err e"
  shows "e \<notin> static_errors"
proof -
  have core: "stxnVerifyCore W txn proto = Ok ()"
    using assms(1) by (auto simp: TxnPool_verify_def act_simps split: if_splits)
  obtain c where c: "Check (Logic (stLsig txn)) \<lparr>epTxn = txn, epProto = Some proto, epTxnGroup = [], epGroupIndex = 0,
      epFirstValidTimeStamp = 0\<rparr> = Ok c" "int c \<le> sint (LogicSigMaxCost proto)"
    using LogicSig_verify_Ok(2) [OF stxnVerifyCore_logic [OF core assms(2)]] by auto
  have "c \<le> unat (LogicSigMaxCost proto)"
  proof -
    have "sint x \<le> int (unat x)" for x :: u64
      by (simp add: sint_uint signed_take_bit_int_less_eq_self_iff order_trans [OF _ uint_ge_0])
    from c(2) this show ?thesis by (rule order_trans [THEN zle_int [THEN iffD1]])
  qed
  then show ?thesis
    using Check_bounds_eval [OF c(1) _ assms(3) _ assms(5)] assms(4) by simp
qed


section \<open>Whole blocks\<close>

lemma act_case_Ok [act_simps]:
  "(case x of (Ok u, s) \<Rightarrow> f s | (Err e, _) \<Rightarrow> Err e | (Panic e, _) \<Rightarrow> Panic e) = Ok v \<longleftrightarrow> (\<exists>u s. x = (Ok u, s) \<and> f s = Ok v)"
  by (auto split: prod.splits result.splits)

lemma startEvaluator_flags:
  "startEvaluator env l h validate generate tc = Ok eval \<Longrightarrow> evGenerate eval = generate \<and> evValidate eval = validate"
  by (auto simp: startEvaluator_def Let_def act_simps split: option.splits)

lemma Ledger_evalE:
  assumes "Ledger_eval env l d blk validate tc = Ok delta"
  obtains eval groups eval' where
    "startEvaluator env l (blkHeader blk) validate False tc = Ok eval" "DecodePaysetGroups blk = Ok groups"
    "eval_groups env d 0 groups eval = (Ok (), eval')" "delta = mods (evState eval')"
    "validate \<Longrightarrow> finalValidation env eval' = Ok ()" "evGenerate eval' = False"
proof -
  from assms obtain eval groups eval' where s: "startEvaluator env l (blkHeader blk) validate False tc = Ok eval"
    and g: "DecodePaysetGroups blk = Ok groups"
    and r: "eval_groups env d 0 groups eval = (Ok (), eval')"
    "res_bind (endOfBlock env eval') (\<lambda>eval.
         res_bind (if validate then finalValidation env eval else Ok ()) (\<lambda>_. Ok (mods (evState eval)))) = Ok delta"
    unfolding Ledger_eval_def by (auto simp: act_simps)
  have g': "evGenerate eval' = False" using eval_groups_frame [OF r(1)] startEvaluator_flags [OF s] by simp
  with r(2) have "delta = mods (evState eval')" "validate \<Longrightarrow> finalValidation env eval' = Ok ()"
    by (auto simp: endOfBlock_def act_simps split: if_splits)
  with s g r(1) g' show ?thesis by (intro that)
qed

lemma transactionGroup_parent:
  assumes "transactionGroup env grp remember eval = (Ok u, eval')"
  shows "lookupParent (evState eval') = lookupParent (evState eval)"
  using assms by (auto elim!: transactionGroupE simp: commitToParent_def Let_def split: if_splits)

lemma eval_groups_parent:
  assumes "eval_groups env d i groups eval = (Ok u, eval')"
  shows "lookupParent (evState eval') = lookupParent (evState eval)"
  using assms
proof (induction rule: eval_groups_induct)
  case (Cons grp rest eval eval1 eval2)
  then show ?case using transactionGroup_parent [OF Cons(1)] by simp
qed simp

text \<open>The accounts after a block, from the accounts before it and the block's delta.\<close>

definition after_delta :: "accounts \<Rightarrow> StateDelta \<Rightarrow> accounts" where
  "after_delta m delta a = (case fmlookup (accts delta) a of Some d \<Rightarrow> new d | None \<Rightarrow> m a)"

lemma acct_after_delta:
  assumes "\<And>a. parent_lookup (lookupParent cs) a = Ok (m a)"
  shows "acct cs = after_delta m (mods cs)"
  using assms by (intro ext) (simp add: acct_def cow_lookup_def after_delta_def split: option.splits)

lemma startEvaluator_state:
  assumes "startEvaluator env l h validate generate tc = Ok eval" and "0 < bhRound h"
    and "leBlockHdr l (bhRound h - 1) = Ok prev"
  shows "ev_ok eval \<and> evValidate eval = validate \<and> evGenerate eval = generate \<and>
    (generate = False \<longrightarrow> blkHeader (evBlock eval) = h) \<and> Consensus (CurrentProtocol (bhUpgradeState h)) = Some (evProto eval) \<and>
    ids (evState eval) = {} \<and> txnCounter (evState eval) = TxnCounter prev \<and>
    parent_lookup (lookupParent (evState eval)) = leLookupWithoutRewards l (bhRound h - 1) \<and>
    parent_isDup (lookupParent (evState eval)) = leIsDup l (evProto eval) (bhRound h)"
  using assms(1,2)
proof (rule startEvaluatorE)
  fix proto prev' at pool h' s
  assume a: "Consensus (CurrentProtocol (bhUpgradeState h)) = Some proto" "leBlockHdr l (bhRound h - 1) = Ok prev'"
    "(if generate then generated_header proto (leGenesisHash l) h prev' (acctMicroAlgos pool) at else Ok h) = Ok h'"
    and w: "withdraw_rewards proto (leGenesisHash l) h' prev' at
       (makeRoundCowState (base_as_parent \<lparr>baseL = l, baseRnd = bhRound h - 1, baseTxnCount = TxnCounter prev', baseProto = proto\<rparr>) h') =
       (Ok (), s)"
    and eval: "eval = \<lparr>evState = s, evValidate = validate, evGenerate = generate, evTxcache = tc,
        evPrevHeader = prev', evProto = proto, evGenesisHash = leGenesisHash l,
        evBlock = \<lparr>blkHeader = h', blkPayset = [], blkPayProxySet = []\<rparr>, evBlockTxBytes = 0, evL = l\<rparr>"
  have us: "bhUpgradeState h' = bhUpgradeState h" "generate = False \<longrightarrow> h' = h"
    using a(3) by (auto simp: generated_header_def act_simps Let_def split: if_splits)
  show ?thesis
    using withdraw_rewards_frame [OF w] a(1,2) us assms(3)
    by (simp add: eval ev_ok_def makeRoundCowState_def base_as_parent_def Consensus_or_zero_def txnCounter_def
        StateDelta_empty_def fcard.rep_eq)
qed

lemma Ledger_eval_conserves:
  assumes run: "Ledger_eval env l d blk validate tc = Ok delta"
    and led: "ledger_shows l p prev m" and p: "Consensus (CurrentProtocol (bhUpgradeState (blkHeader blk))) = Some p"
    and rnd: "bhRound (blkHeader blk) = bhRound prev + 1" "bhRound (blkHeader blk) \<noteq> 0"
  shows "total_worth p (RewardsLevel (bhRewards (blkHeader blk))) (after_delta m delta) =
    total_worth p (RewardsLevel (bhRewards prev)) m"
  using run
proof (rule Ledger_evalE)
  fix eval groups eval'
  assume s: "startEvaluator env l (blkHeader blk) validate False tc = Ok eval"
    and g: "eval_groups env d 0 groups eval = (Ok (), eval')" and delta: "delta = mods (evState eval')"
  have pos: "0 < bhRound (blkHeader blk)" using rnd(2) by (simp add: word_neq_0_conv)
  have prev: "leBlockHdr l (bhRound (blkHeader blk) - 1) = Ok prev" using led rnd(1) by (simp add: ledger_shows_def)
  note st = startEvaluator_state [OF s pos prev]
  have "parent_lookup (lookupParent (evState eval')) a = Ok (m a)" for a
    using st led rnd(1) eval_groups_parent [OF g] by (simp add: ledger_shows_def)
  then have acc: "acct (evState eval') = after_delta m delta" unfolding delta by (rule acct_after_delta)
  have "rewardsLevel (evState eval) = RewardsLevel (bhRewards (blkHeader blk))"
    using st by (simp add: ev_ok_def rewardsLevel_def)
  then show ?thesis
    using startEvaluator_wealth [OF s _ rnd] led st p eval_groups_wealth [OF g] acc by (simp add: ev_ok_def)
qed

text \<open>
  A validated block: the transactions it decodes to are new to the ledger and to each other, and
  the counter of its header counts them.
\<close>

lemma Ledger_eval_new:
  assumes run: "Ledger_eval env l d blk True tc = Ok delta"
    and groups: "DecodePaysetGroups blk = Ok groups"
    and prev: "leBlockHdr l (bhRound (blkHeader blk) - 1) = Ok prev" and rnd: "bhRound (blkHeader blk) \<noteq> 0"
    and p: "Consensus (CurrentProtocol (bhUpgradeState (blkHeader blk))) = Some p"
  shows "distinct (map (txid_of env) (concat groups))"
    and "fset (fmdom (Txids delta)) = set (map (txid_of env) (concat groups))"
    and "\<forall>t\<in>set (concat groups). let tx = Txn (adSignedTxn t) in
      leIsDup l p (bhRound (blkHeader blk)) (First tx) (Last tx) (txid_of env t) (txlease_of tx) = Ok False"
    and "cpTxnCounter p \<Longrightarrow> TxnCounter (blkHeader blk) = TxnCounter prev + of_nat (length (concat groups))"
    and "SupportTransactionLeases p \<Longrightarrow> distinct (leases_of (concat groups))"
proof -
  from run obtain eval eval' where s: "startEvaluator env l (blkHeader blk) True False tc = Ok eval"
    and g: "eval_groups env d 0 groups eval = (Ok (), eval')" and delta: "delta = mods (evState eval')"
    and fv: "finalValidation env eval' = Ok ()"
    by (rule Ledger_evalE) (use groups in auto)
  have pos: "0 < bhRound (blkHeader blk)" using rnd by (simp add: word_neq_0_conv)
  note st = startEvaluator_state [OF s pos prev]
  have new: "all_new env (concat groups) (evState eval) (evState eval')"
    using eval_groups_new [OF g] st by simp
  show "distinct (map (txid_of env) (concat groups))"
    "fset (fmdom (Txids delta)) = set (map (txid_of env) (concat groups))"
    using new st by (auto simp: all_new_def delta)
  show "\<forall>t\<in>set (concat groups). let tx = Txn (adSignedTxn t) in
      leIsDup l p (bhRound (blkHeader blk)) (First tx) (Last tx) (txid_of env t) (txlease_of tx) = Ok False"
    using new st p by (auto simp: all_new_def dup_answer_def Let_def)
  show "cpTxnCounter p \<Longrightarrow> TxnCounter (blkHeader blk) = TxnCounter prev + of_nat (length (concat groups))"
    using fv all_new_counter [OF new] st p eval_groups_frame [OF g]
    by (auto simp: finalValidation_def check_commitments_def expected_counter_def act_simps split: if_splits)
  show "SupportTransactionLeases p \<Longrightarrow> distinct (leases_of (concat groups))"
    using eval_groups_leases [OF g] st p by (simp add: leases_new_def)
qed

section \<open>Generated blocks\<close>

lemma GenerateBlock_contents:
  assumes "GenerateBlock env eval = Ok vb"
  shows "blkPayset (vbBlk vb) = blkPayset (evBlock eval) \<and> vbDelta vb = mods (evState eval) \<and>
    Payset_Commit (eeHashes env) (blkPayset (vbBlk vb)) (PaysetCommitFlat (evProto eval)) = Ok (TxnRoot (blkHeader (vbBlk vb))) \<and>
    TxnCounter (blkHeader (vbBlk vb)) = expected_counter eval \<and> bhUpgradeState (blkHeader (vbBlk vb)) = bhUpgradeState (blkHeader (evBlock eval))"
  using assms
  by (auto simp: GenerateBlock_def endOfBlock_def set_root_def act_simps split: if_splits)


section \<open>Whole groups\<close>

text \<open>The block entry of a member of a group: its encoding, with the apply data it came with where a block is validated.\<close>

definition enters_block :: "'c BlockEvaluator \<Rightarrow> SignedTxnWithAD \<Rightarrow> SignedTxnInBlock \<Rightarrow> bool" where
  "enters_block eval t txib \<longleftrightarrow>
     (\<exists>ad. EncodeSignedTxn (blkHeader (evBlock eval)) (adSignedTxn t) ad = Ok txib \<and>
       (evValidate eval \<and> \<not> evGenerate eval \<and> cpApplyData (evProto eval) \<longrightarrow> ad = adApplyData t))"

definition group_bytes :: "eval_env \<Rightarrow> SignedTxnInBlock list \<Rightarrow> int" where
  "group_bytes env txibs = sum_list (map (int \<circ> eeEncodeTxib env) txibs)"

text \<open>What the group field of every member of a group must be.\<close>

definition whole_group :: "Hashes \<Rightarrow> SignedTxnWithAD list \<Rightarrow> bool" where
  "whole_group Hs grp \<longleftrightarrow>
     (if group_of (hd grp) = 0 then length grp = 1
      else \<forall>t\<in>set grp. group_of t = groupHash Hs \<lparr>TxGroupHashes = map (\<lambda>t. ungrouped_hash Hs (Txn (adSignedTxn t))) grp\<rparr>)"

lemma group_loop_members:
  assumes "group_loop env eval grp gi rest txibs hashes bytes (cow, c) = (Ok (txibs', hashes', bytes'), s')"
  shows "(\<forall>t\<in>set rest. group_of t = group_of (hd grp) \<and> (group_of t = 0 \<longrightarrow> length grp \<le> 1)) \<and>
    hashes' = hashes @ (if group_of (hd grp) = 0 then [] else map (\<lambda>t. ungrouped_hash (eeHashes env) (Txn (adSignedTxn t))) rest)"
  using assms
proof (induction rest arbitrary: gi txibs hashes bytes cow c)
  case (Cons t rest)
  from Cons.prems show ?case
  proof (rule group_loop_ConsE)
    fix txib cow1 c1 h1 b1
    assume m: "group_member (eeHashes env) (group_of (hd grp)) (length grp) (Txn (adSignedTxn t)) hashes = Ok h1"
      and rest: "group_loop env eval grp (gi + 1) rest (txibs @ [txib]) h1 b1 (cow1, c1) = (Ok (txibs', hashes', bytes'), s')"
    from m Cons.IH [OF rest] show ?thesis
      by (auto simp: group_member_def Let_def group_of_def split: if_splits)
  qed
qed (simp add: act_simps)

lemma group_loop_entries:
  assumes "group_loop env eval grp gi rest txibs hashes bytes (cow, c) = (Ok (txibs', hashes', bytes'), s')" and "evValidate eval"
  shows "\<exists>more. txibs' = txibs @ more \<and> list_all2 (enters_block eval) rest more \<and> bytes' = bytes + group_bytes env more \<and>
    (rest \<noteq> [] \<longrightarrow> evBlockTxBytes eval + bytes' \<le> MaxTxnBytesPerBlock (evProto eval))"
  using assms(1)
proof (induction rest arbitrary: gi txibs hashes bytes cow c)
  case (Cons t rest)
  from Cons.prems show ?case
  proof (rule group_loop_ConsE)
    fix txib cow1 c1 h1 b1
    assume t: "transaction env eval (adSignedTxn t) (adApplyData t) grp gi (cow, c) = (Ok txib, (cow1, c1))"
      and b1: "b1 = (if evValidate eval then bytes + int (eeEncodeTxib env txib) else bytes)"
      and bound: "evValidate eval \<Longrightarrow> evBlockTxBytes eval + b1 \<le> MaxTxnBytesPerBlock (evProto eval)"
      and rest: "group_loop env eval grp (gi + 1) rest (txibs @ [txib]) h1 b1 (cow1, c1) = (Ok (txibs', hashes', bytes'), s')"
    from Cons.IH [OF rest] obtain more where more: "txibs' = (txibs @ [txib]) @ more" "list_all2 (enters_block eval) rest more"
      "bytes' = b1 + group_bytes env more" "rest \<noteq> [] \<longrightarrow> evBlockTxBytes eval + bytes' \<le> MaxTxnBytesPerBlock (evProto eval)"
      by blast
    have "enters_block eval t txib"
      using t by (rule transactionE) (auto simp: enters_block_def check_applyData_def split: if_splits)
    moreover have "evBlockTxBytes eval + bytes' \<le> MaxTxnBytesPerBlock (evProto eval)"
      using more bound [OF assms(2)] by (cases "rest = []") (auto simp: group_bytes_def)
    ultimately show ?thesis
      using more b1 assms(2) by (intro exI [of _ "txib # more"]) (simp add: group_bytes_def)
  qed
qed (simp add: act_simps group_bytes_def)

lemma accepted_group:
  assumes "transactionGroup env grp True eval = (Ok u, eval')" and "grp \<noteq> []" and "evValidate eval"
  shows "int (length grp) \<le> MaxTxGroupSize (evProto eval) \<and> whole_group (eeHashes env) grp \<and>
    (\<exists>txibs. list_all2 (enters_block eval) grp txibs \<and> blkPayset (evBlock eval') = blkPayset (evBlock eval) @ txibs \<and>
       evBlockTxBytes eval' = evBlockTxBytes eval + group_bytes env txibs \<and>
       evBlockTxBytes eval' \<le> MaxTxnBytesPerBlock (evProto eval))"
  using assms(1)
proof (rule transactionGroupE)
  fix cow c txibs hashes bytes
  assume n: "int (length grp) \<le> MaxTxGroupSize (evProto eval)"
    and loop: "group_loop env eval grp 0 grp [] [] 0 (child (evState eval), evTxcache eval) = (Ok (txibs, hashes, bytes), (cow, c))"
    and gc: "group_complete (eeHashes env) (group_of (hd grp)) hashes = Ok ()"
    and eval': "eval' = (if True then remember_group cow txibs bytes (eval\<lparr>evTxcache := c\<rparr>) else eval\<lparr>evTxcache := c\<rparr>)"
  have ne: "0 < length grp" "hd grp \<in> set grp" using assms(2) by auto
  have m: "\<forall>t\<in>set grp. group_of t = group_of (hd grp) \<and> (group_of t = 0 \<longrightarrow> length grp \<le> 1)"
    "hashes = (if group_of (hd grp) = 0 then [] else map (\<lambda>t. ungrouped_hash (eeHashes env) (Txn (adSignedTxn t))) grp)"
    using group_loop_members [OF loop] by simp_all
  have "whole_group (eeHashes env) grp"
  proof (cases "group_of (hd grp) = 0")
    case True
    with m(1) ne have "length grp \<le> 1" by blast
    with True ne(1) have "length grp = 1" by linarith
    with True show ?thesis by (simp add: whole_group_def)
  next
    case False
    then have "hashes = map (\<lambda>t. ungrouped_hash (eeHashes env) (Txn (adSignedTxn t))) grp" "hashes \<noteq> []"
      using m(2) assms(2) by simp_all
    then have "group_of (hd grp) = groupHash (eeHashes env) \<lparr>TxGroupHashes = map (\<lambda>t. ungrouped_hash (eeHashes env) (Txn (adSignedTxn t))) grp\<rparr>"
      using gc by (simp add: group_complete_def split: if_splits)
    with False m(1) show ?thesis unfolding whole_group_def by metis
  qed
  then show ?thesis
    using n group_loop_entries [OF loop assms(3)] assms(2) by (auto simp: eval')
qed (use assms(2) in simp)

end
