(* ===== verification/TxTail.thy ===== *)
theory TxTail
  imports Cow
begin

text \<open>
  The recent transactions the ledger remembers to detect duplicates (\<open>ledger/txtail.go\<close>).

  The loops over rounds count a 64-bit round up to an inclusive bound, so they need not end:
  they are option-valued, \<open>None\<close> standing for a loop that never leaves.  The tail is shown to
  answer exactly as the set of all confirmed transactions and the set of all leases taken would,
  although commits make it forget most of both.
\<close>

section \<open>State and operations\<close>

record roundTxMembers =
  rtTxids :: "(Txid, Round) fmap"
  rtTxleases :: "(txlease, Round) fmap"
  rtProto :: ConsensusParams

record txTail =
  recent :: "(Round, roundTxMembers) fmap"
  tailLastValid :: "(Round, Txid fset) fmap"
  lowWaterMark :: Round

text \<open>What the trackers ask of the ledger.\<close>

record ledgerForTracker =
  ltLatest :: Round
  ltBlockHdr :: "Round \<Rightarrow> (goerror, BlockHeader) result"
  ltBlock :: "Round \<Rightarrow> (goerror, Block) result"

definition confirmed_with :: "txTail \<Rightarrow> Round \<Rightarrow> Txid fset" where
  "confirmed_with t lv = (case fmlookup (tailLastValid t) lv of None \<Rightarrow> {||} | Some ids \<Rightarrow> ids)"

definition putLV :: "Round \<Rightarrow> Txid \<Rightarrow> txTail \<Rightarrow> txTail" where
  "putLV lv txid t =
     t\<lparr>tailLastValid := fmupd lv (finsert txid (confirmed_with t lv)) (tailLastValid t)\<rparr>"

text \<open>Go visits a map in any order; the insertions commute, so the ascending order stands for all.\<close>

definition newBlock :: "Block \<Rightarrow> StateDelta \<Rightarrow> txTail \<Rightarrow> txTail" where
  "newBlock blk delta t =
     (let rnd = Block_Round blk in
      if fmlookup (recent t) rnd \<noteq> None then t
      else
        fold (\<lambda>txid t. putLV (the (fmlookup (Txids delta) txid)) txid t) (sorted_list_of_fset (fmdom (Txids delta)))
          (t\<lparr>recent := fmupd rnd
               \<lparr>rtTxids = Txids delta, rtTxleases = txleases delta, rtProto = ConsensusProtocol blk\<rparr> (recent t)\<rparr>))"

definition recent_proto :: "txTail \<Rightarrow> Round \<Rightarrow> ConsensusParams" where
  "recent_proto t rnd = (case fmlookup (recent t) rnd of None \<Rightarrow> ConsensusParams_zero | Some m \<Rightarrow> rtProto m)"

function forget_below :: "Round \<Rightarrow> txTail \<Rightarrow> txTail" where
  "forget_below rnd t =
     (if lowWaterMark t < rnd
      then forget_below rnd (t\<lparr>tailLastValid := fmdrop (lowWaterMark t) (tailLastValid t),
                              lowWaterMark := lowWaterMark t + 1\<rparr>)
      else t)"
  by pat_completeness auto
termination
proof (relation "measure (\<lambda>(rnd, t). unat rnd - unat (lowWaterMark t))", goal_cases)
  case (2 rnd t)
  then have "unat (lowWaterMark t + 1) = Suc (unat (lowWaterMark t))" by (rule unat_Suc_below)
  with 2 show ?case by (simp add: word_less_nat_alt)
qed simp

declare forget_below.simps [simp del]

definition committedUpTo :: "Round \<Rightarrow> txTail \<Rightarrow> Round \<times> txTail" where
  "committedUpTo rnd t =
     (let maxlife = MaxTxnLife (recent_proto t rnd);
          t1 = t\<lparr>recent := fmfilter (\<lambda>r. \<not> r + maxlife < rnd) (recent t)\<rparr> in
      (SubSaturate (rnd + 1) maxlife, forget_below rnd t1))"

definition lease_held :: "txTail \<Rightarrow> Round \<Rightarrow> txlease \<Rightarrow> Round \<Rightarrow> bool" where
  "lease_held t current txl rnd =
     (case fmlookup (recent t) rnd of
        None \<Rightarrow> False
      | Some m \<Rightarrow> (case fmlookup (rtTxleases m) txl of None \<Rightarrow> False | Some expires \<Rightarrow> current \<le> expires))"

partial_function (option) lease_scan :: "txTail \<Rightarrow> Round \<Rightarrow> txlease \<Rightarrow> Round \<Rightarrow> Round \<Rightarrow> bool option" where
  "lease_scan t current txl lastValid rnd =
     (if rnd \<le> lastValid then
        (if lease_held t current txl rnd then Some True else lease_scan t current txl lastValid (rnd + 1))
      else Some False)"

definition tail_isDup ::
    "txTail \<Rightarrow> ConsensusParams \<Rightarrow> Round \<Rightarrow> Round \<Rightarrow> Round \<Rightarrow> Txid \<Rightarrow> txlease \<Rightarrow> (goerror, bool) result option" where
  "tail_isDup t proto current firstValid lastValid txid txl =
     (if lastValid < lowWaterMark t then
        Some (Err (Errorf ''txTail: tried to check for dup in missing round''))
      else
        case (if SupportTransactionLeases proto \<and> lease txl \<noteq> 0
              then lease_scan t current txl lastValid firstValid else Some False) of
          None \<Rightarrow> None
        | Some True \<Rightarrow> Some (Ok True)
        | Some False \<Rightarrow> Some (Ok (txid |\<in>| confirmed_with t lastValid)))"

definition getRoundTxIds :: "txTail \<Rightarrow> Round \<Rightarrow> (Txid, bool) fmap" where
  "getRoundTxIds t rnd =
     (case fmlookup (recent t) rnd of None \<Rightarrow> fmempty | Some m \<Rightarrow> fmmap (\<lambda>_. True) (rtTxids m))"

subsection \<open>Loading\<close>

fun load_payset :: "txn_hash \<Rightarrow> Round \<Rightarrow> SignedTxnWithAD list \<Rightarrow> txTail \<Rightarrow> txTail" where
  "load_payset H rnd [] t = t"
| "load_payset H rnd (txad # rest) t =
     (let tx = adSignedTxn txad; h = txHeader (Txn tx); txid = SignedTxn_ID H tx;
          add = (\<lambda>m. m\<lparr>rtTxids := fmupd txid (LastValid h) (rtTxids m),
                      rtTxleases := fmupd \<lparr>sender = Sender h, lease = Lease h\<rparr> (LastValid h) (rtTxleases m)\<rparr>) in
      load_payset H rnd rest (putLV (LastValid h) txid
        (t\<lparr>recent := fmupd rnd (add (the (fmlookup (recent t) rnd))) (recent t)\<rparr>)))"

definition load_round :: "txn_hash \<Rightarrow> ledgerForTracker \<Rightarrow> Round \<Rightarrow> (txTail, goerror, unit) act" where
  "load_round H l rnd =
     act_bind (act_lift (ltBlock l rnd)) (\<lambda>blk.
     act_bind (act_lift (DecodePaysetFlat blk)) (\<lambda>payset.
     act_bind (act_modify (\<lambda>t. t\<lparr>recent := fmupd rnd
         \<lparr>rtTxids = fmempty, rtTxleases = fmempty, rtProto = ConsensusProtocol blk\<rparr> (recent t)\<rparr>)) (\<lambda>_.
     act_modify (load_payset H rnd payset))))"

partial_function (option) load_rounds ::
    "txn_hash \<Rightarrow> ledgerForTracker \<Rightarrow> Round \<Rightarrow> txTail \<Rightarrow> ((goerror, unit) result \<times> txTail) option" where
  "load_rounds H l rnd t =
     (if rnd \<le> ltLatest l then
        (case load_round H l rnd t of
           (Ok _, t1) \<Rightarrow> load_rounds H l (rnd + 1) t1
         | r \<Rightarrow> Some r)
      else Some (Ok (), t))"

definition tail_loadFromDisk ::
    "txn_hash \<Rightarrow> ledgerForTracker \<Rightarrow> txTail \<Rightarrow> ((goerror, unit) result \<times> txTail) option" where
  "tail_loadFromDisk H l t =
     (case ltBlockHdr l (ltLatest l) of
        Err e \<Rightarrow> Some (Err (Errorf ''txTail: could not get latest block header''), t)
      | Panic e \<Rightarrow> Some (Panic e, t)
      | Ok h \<Rightarrow>
          let proto = Consensus_or_zero (CurrentProtocol (bhUpgradeState h));
              rnd = SubSaturate (ltLatest l + 1) (MaxTxnLife proto) in
          load_rounds H l rnd (t\<lparr>lowWaterMark := ltLatest l, tailLastValid := fmempty, recent := fmempty\<rparr>))"

section \<open>The scan for leases\<close>

lemma lease_scan_returns:
  assumes "lastValid < - 1"
  shows "lease_scan t current txl lastValid rnd =
    Some (\<exists>r. rnd \<le> r \<and> r \<le> lastValid \<and> lease_held t current txl r)"
proof (induction "unat lastValid + 1 - unat rnd" arbitrary: rnd rule: less_induct)
  case less
  show ?case
  proof (cases "rnd \<le> lastValid \<and> \<not> lease_held t current txl rnd")
    case True
    have s: "unat (rnd + 1) = Suc (unat rnd)"
      using True assms le_less_trans by (blast intro: unat_Suc_below)
    have "(rnd + 1 \<le> r) = (rnd \<le> r \<and> r \<noteq> rnd)" for r
      using s by (auto simp: word_le_nat_alt Suc_le_eq nat_less_le word_unat_eq_iff)
    then have ex: "(\<exists>r. rnd + 1 \<le> r \<and> r \<le> lastValid \<and> lease_held t current txl r) =
        (\<exists>r. rnd \<le> r \<and> r \<le> lastValid \<and> lease_held t current txl r)"
      using True by auto
    have "lease_scan t current txl lastValid (rnd + 1) =
        Some (\<exists>r. rnd + 1 \<le> r \<and> r \<le> lastValid \<and> lease_held t current txl r)"
      by (rule less) (use True s in \<open>auto simp: word_le_nat_alt Suc_diff_le\<close>)
    with True ex show ?thesis by (subst lease_scan.simps) simp
  next
    case False
    then show ?thesis by (subst lease_scan.simps) (auto intro: order_trans)
  qed
qed

text \<open>With the greatest round as its bound, the loop never leaves unless it meets the lease.\<close>

lemma lease_scan_unbounded:
  assumes "\<And>r. \<not> lease_held t current txl r"
  shows "lease_scan t current txl (- 1) rnd = None"
proof -
  have "lv = - 1 \<longrightarrow> y \<and> (\<exists>r. lease_held t c x r)" if "lease_scan t c x lv r = Some y" for t c x lv r y
    using that
    by (rule lease_scan.raw_induct [rotated]) (fastforce split: if_splits)
  then show ?thesis using assms by (cases "lease_scan t current txl (- 1) rnd") blast+
qed

section \<open>The tail as a set of confirmed transactions\<close>

lemma putLV_confirmed [simp]:
  "confirmed_with (putLV lv txid t) l = (if l = lv then finsert txid (confirmed_with t lv) else confirmed_with t l)"
  by (simp add: putLV_def confirmed_with_def)

lemma putLV_frame [simp]: "recent (putLV lv txid t) = recent t" "lowWaterMark (putLV lv txid t) = lowWaterMark t"
  by (simp_all add: putLV_def)

lemma confirmed_with_recent [simp]: "confirmed_with (t\<lparr>recent := r\<rparr>) = confirmed_with t"
  by (rule ext) (simp add: confirmed_with_def)

lemma fold_putLV:
  "recent (fold (\<lambda>x. putLV (f x) x) xs t) = recent t"
  "lowWaterMark (fold (\<lambda>x. putLV (f x) x) xs t) = lowWaterMark t"
  "x |\<in>| confirmed_with (fold (\<lambda>x. putLV (f x) x) xs t) lv \<longleftrightarrow> x |\<in>| confirmed_with t lv \<or> x \<in> set xs \<and> f x = lv"
  by (induction xs arbitrary: t) auto

lemma newBlock_confirmed:
  "x |\<in>| confirmed_with (newBlock blk delta t) lv \<longleftrightarrow>
     x |\<in>| confirmed_with t lv \<or>
     fmlookup (recent t) (Block_Round blk) = None \<and> fmlookup (Txids delta) x = Some lv"
  "lowWaterMark (newBlock blk delta t) = lowWaterMark t"
  by (auto simp: newBlock_def Let_def fold_putLV fmlookup_dom_iff)

lemma forget_below_confirmed:
  "lowWaterMark (forget_below rnd t) = max (lowWaterMark t) rnd \<and> recent (forget_below rnd t) = recent t \<and>
   (lowWaterMark (forget_below rnd t) \<le> lv \<longrightarrow> confirmed_with (forget_below rnd t) lv = confirmed_with t lv)"
proof (induction rnd t rule: forget_below.induct)
  case (1 rnd t)
  show ?case
  proof (cases "lowWaterMark t < rnd")
    case True
    have s: "unat (lowWaterMark t + 1) = Suc (unat (lowWaterMark t))" using unat_Suc_below [OF True] .
    have "max (lowWaterMark t + 1) rnd = rnd" "max (lowWaterMark t) rnd = rnd" "\<not> rnd \<le> lowWaterMark t"
      using True s by (auto simp: max_def word_le_nat_alt word_less_nat_alt word_unat_eq_iff)
    with 1 [OF True] True show ?thesis
      by (subst (1 2 3 4) forget_below.simps) (auto simp: confirmed_with_def)
  next
    case False
    then show ?thesis by (subst (1 2 3 4) forget_below.simps) (simp add: max_def)
  qed
qed

text \<open>
  The tail after a history of new blocks and commits: the transactions confirmed so far with their last
  valid rounds, the leases taken so far (the round, the lease, and when it expires), and the latest
  committed round.  \<open>life\<close> is the longest life of a transaction; a transaction of round \<open>r\<close> was
  valid there, so its lease expires by \<open>r + life\<close>.
\<close>

definition block_leases :: "Round \<Rightarrow> StateDelta \<Rightarrow> (Round \<times> txlease \<times> Round) set" where
  "block_leases rnd delta = {(r, x, e). r = rnd \<and> fmlookup (txleases delta) x = Some e}"

inductive tail_history ::
    "u64 \<Rightarrow> (Txid \<times> Round) set \<Rightarrow> (Round \<times> txlease \<times> Round) set \<Rightarrow> Round \<Rightarrow> txTail \<Rightarrow> bool" for life where
  start: "tail_history life {} {} r \<lparr>recent = fmempty, tailLastValid = fmempty, lowWaterMark = r\<rparr>"
| block: "tail_history life h L c t \<Longrightarrow> fmlookup (recent t) (Block_Round blk) = None \<Longrightarrow>
    MaxTxnLife (ConsensusProtocol blk) = life \<Longrightarrow>
    (\<And>x e. fmlookup (txleases delta) x = Some e \<Longrightarrow> e \<le> Block_Round blk + life) \<Longrightarrow>
    tail_history life (h \<union> {(x, lv). fmlookup (Txids delta) x = Some lv}) (L \<union> block_leases (Block_Round blk) delta) c
      (newBlock blk delta t)"
| repeat: "tail_history life h L c t \<Longrightarrow> fmlookup (recent t) (Block_Round blk) \<noteq> None \<Longrightarrow>
    tail_history life h L c (newBlock blk delta t)"
| commit: "tail_history life h L c t \<Longrightarrow> fmlookup (recent t) rnd \<noteq> None \<Longrightarrow>
    tail_history life h L (max c rnd) (snd (committedUpTo rnd t))"

lemma newBlock_recent:
  "recent (newBlock blk delta t) =
     (if fmlookup (recent t) (Block_Round blk) = None
      then fmupd (Block_Round blk) \<lparr>rtTxids = Txids delta, rtTxleases = txleases delta, rtProto = ConsensusProtocol blk\<rparr> (recent t)
      else recent t)"
  by (simp add: newBlock_def Let_def fold_putLV)

lemma committed_recent:
  "recent (snd (committedUpTo rnd t)) = fmfilter (\<lambda>r. \<not> r + MaxTxnLife (recent_proto t rnd) < rnd) (recent t)"
  using forget_below_confirmed by (simp add: committedUpTo_def Let_def)

text \<open>The remembered rounds hold leases of the history, and what they do not hold has expired.\<close>

definition leases_ok :: "u64 \<Rightarrow> (Round \<times> txlease \<times> Round) set \<Rightarrow> Round \<Rightarrow> txTail \<Rightarrow> bool" where
  "leases_ok life L c t \<longleftrightarrow>
     (\<forall>r m. fmlookup (recent t) r = Some m \<longrightarrow> MaxTxnLife (rtProto m) = life) \<and>
     (\<forall>r m x e. fmlookup (recent t) r = Some m \<longrightarrow> fmlookup (rtTxleases m) x = Some e \<longrightarrow> (r, x, e) \<in> L \<and> e \<le> r + life) \<and>
     (\<forall>r x e. (r, x, e) \<in> L \<longrightarrow> e < c \<or> (\<exists>m. fmlookup (recent t) r = Some m \<and> fmlookup (rtTxleases m) x = Some e))"

lemma leases_ok_block:
  assumes ok: "leases_ok life L c t" and new: "fmlookup (recent t) (Block_Round blk) = None"
    and life: "MaxTxnLife (ConsensusProtocol blk) = life"
    and e: "\<And>x e. fmlookup (txleases delta) x = Some e \<Longrightarrow> e \<le> Block_Round blk + life"
  shows "leases_ok life (L \<union> block_leases (Block_Round blk) delta) c (newBlock blk delta t)"
proof -
  have r: "recent (newBlock blk delta t) =
      fmupd (Block_Round blk) \<lparr>rtTxids = Txids delta, rtTxleases = txleases delta, rtProto = ConsensusProtocol blk\<rparr> (recent t)"
    using new by (simp add: newBlock_recent)
  have old_round: "r \<noteq> Block_Round blk" if "fmlookup (recent t) r = Some m" for r m
    using new that by auto
  have "MaxTxnLife (rtProto m) = life" if "fmlookup (recent (newBlock blk delta t)) r = Some m" for r m
    using that ok life by (auto simp: r leases_ok_def split: if_splits)
  moreover have "(r', x, e') \<in> L \<union> block_leases (Block_Round blk) delta \<and> e' \<le> r' + life"
    if "fmlookup (recent (newBlock blk delta t)) r' = Some m" "fmlookup (rtTxleases m) x = Some e'" for r' m x e'
    using that ok e by (auto simp: r leases_ok_def block_leases_def split: if_splits)
  moreover have "e' < c \<or> (\<exists>m. fmlookup (recent (newBlock blk delta t)) r' = Some m \<and> fmlookup (rtTxleases m) x = Some e')"
    if "(r', x, e') \<in> L \<union> block_leases (Block_Round blk) delta" for r' x e'
  proof (cases "(r', x, e') \<in> L")
    case True
    then have "e' < c \<or> (\<exists>m. fmlookup (recent t) r' = Some m \<and> fmlookup (rtTxleases m) x = Some e')"
      using ok unfolding leases_ok_def by blast
    then show ?thesis
      using old_round[of r'] by (auto simp: r)
  next
    case False
    then show ?thesis
      using that by (auto simp: r block_leases_def)
  qed
  ultimately show ?thesis
    unfolding leases_ok_def by blast
qed

lemma leases_ok_commit:
  assumes ok: "leases_ok life L c t" and seen: "fmlookup (recent t) rnd \<noteq> None"
  shows "leases_ok life L (max c rnd) (snd (committedUpTo rnd t))"
proof -
  have "MaxTxnLife (recent_proto t rnd) = life"
    using ok seen by (auto simp: leases_ok_def recent_proto_def)
  then have r: "fmlookup (recent (snd (committedUpTo rnd t))) r = (if r + life < rnd then None else fmlookup (recent t) r)" for r
    by (simp add: committed_recent)
  have "e < max c rnd \<or> (\<exists>m. fmlookup (recent (snd (committedUpTo rnd t))) r' = Some m \<and> fmlookup (rtTxleases m) x = Some e)"
    if held: "(r', x, e) \<in> L" for r' x e
  proof (cases "e < c")
    case False
    then obtain m where m: "fmlookup (recent t) r' = Some m" "fmlookup (rtTxleases m) x = Some e"
      using ok held unfolding leases_ok_def by blast
    then have "e \<le> r' + life"
      using ok unfolding leases_ok_def by blast
    then show ?thesis
      using m by (cases "r' + life < rnd") (auto simp: r less_max_iff_disj)
  qed (simp add: less_max_iff_disj)
  moreover have kept: "fmlookup (recent t) r' = Some m" if "fmlookup (recent (snd (committedUpTo rnd t))) r' = Some m" for r' m
    using that by (simp add: r split: if_splits)
  ultimately show ?thesis
    using ok unfolding leases_ok_def by (meson kept)
qed

lemma tail_history_leases: "tail_history life h L c t \<Longrightarrow> leases_ok life L c t"
proof (induction rule: tail_history.induct)
  case (repeat h L c t blk delta)
  have "recent (newBlock blk delta t) = recent t"
    using repeat.hyps(2) by (auto simp: newBlock_recent)
  then show ?case
    using repeat.IH by (simp add: leases_ok_def)
qed (simp_all add: leases_ok_block leases_ok_commit, simp add: leases_ok_def)

lemma lease_held_history:
  assumes "tail_history life h L c t" "c \<le> current"
  shows "lease_held t current txl r \<longleftrightarrow> (\<exists>e. (r, txl, e) \<in> L \<and> current \<le> e)"
proof
  assume "lease_held t current txl r"
  then obtain m e where "fmlookup (recent t) r = Some m" "fmlookup (rtTxleases m) txl = Some e" "current \<le> e"
    by (auto simp: lease_held_def split: option.splits)
  then show "\<exists>e. (r, txl, e) \<in> L \<and> current \<le> e"
    using tail_history_leases[OF assms(1)] unfolding leases_ok_def by blast
next
  assume "\<exists>e. (r, txl, e) \<in> L \<and> current \<le> e"
  then obtain e where e: "(r, txl, e) \<in> L" "current \<le> e" by blast
  then have "\<not> e < c" using assms(2) by (meson leD order_trans)
  then obtain m where "fmlookup (recent t) r = Some m" "fmlookup (rtTxleases m) txl = Some e"
    using tail_history_leases[OF assms(1)] e(1) unfolding leases_ok_def by blast
  with e(2) show "lease_held t current txl r" by (simp add: lease_held_def)
qed

lemma tail_history_confirmed:
  "tail_history life h L c t \<Longrightarrow> lowWaterMark t \<le> lv \<Longrightarrow> x |\<in>| confirmed_with t lv \<longleftrightarrow> (x, lv) \<in> h"
proof (induction arbitrary: lv x rule: tail_history.induct)
  case (commit h L c t rnd)
  let ?t = "t\<lparr>recent := fmfilter (\<lambda>r. \<not> r + MaxTxnLife (recent_proto t rnd) < rnd) (recent t)\<rparr>"
  have f: "snd (committedUpTo rnd t) = forget_below rnd ?t" by (simp add: committedUpTo_def Let_def)
  note g = forget_below_confirmed [of rnd ?t lv]
  have "lowWaterMark t \<le> lv" using commit.prems g unfolding f by auto
  then show ?case using commit.IH [of lv x] commit.prems g unfolding f by simp
qed (auto simp: newBlock_confirmed, simp add: confirmed_with_def)

text \<open>With the greatest round as its bound, the loop visits every round until it meets the lease.\<close>

lemma lease_scan_wraps:
  assumes "lease_held t current txl r"
  shows "lease_scan t current txl (- 1) rnd = Some True"
proof (induction "unat (r - rnd)" arbitrary: rnd rule: less_induct)
  case less
  show ?case
  proof (cases "lease_held t current txl rnd")
    case True
    then show ?thesis by (subst lease_scan.simps) simp
  next
    case False
    then have "r - rnd \<noteq> 0" using assms by auto
    then have "unat (r - (rnd + 1)) < unat (r - rnd)"
      using unat_minus_one [of "r - rnd"] by (simp add: algebra_simps unat_gt_0)
    then have "lease_scan t current txl (- 1) (rnd + 1) = Some True" by (rule less)
    then show ?thesis using False by (subst lease_scan.simps) simp
  qed
qed

lemma lease_scan_ends: "lease_scan t current txl lastValid rnd = None \<longleftrightarrow> lastValid = - 1 \<and> (\<forall>r. \<not> lease_held t current txl r)"
proof (cases "lastValid = - 1")
  case True
  then show ?thesis using lease_scan_wraps [of t current txl] lease_scan_unbounded [of t current txl] by fastforce
next
  case False
  then have "lastValid < - 1" by (simp add: word_order.not_eq_extremum)
  from lease_scan_returns [OF this] False show ?thesis by simp
qed

end
