(* ===== verification/AcctUpdates.thy ===== *)
theory AcctUpdates
  imports Evaluator_Laws TxTail
begin

text \<open>
  The tracker of account states (\<open>ledger/acctupdates.go\<close>) and its database
  (\<open>ledger/accountdb.go\<close>).

  The database holds the accounts of an old round; the tracker keeps the changes of every round
  since, a cache of the most recent state with reference counts, and the totals of every round.

  The SQL tables are finite maps, and a statement has its documented effect: \<open>REPLACE\<close> writes a
  row, \<open>INSERT\<close> fails on an existing key, and \<open>Atomic\<close> keeps all of the writes of a transaction or
  none.  What decoding an encoded account gives is the parameter \<open>rt\<close> (the codec is a library);
  the failure of a write transaction, and whether five seconds have passed since the last flush,
  are inputs.  Read errors of the database are not represented.
\<close>

section \<open>Database\<close>

record acctdb =
  dbAccountbase :: "(Address, AccountData) fmap"
  dbAssetcreators :: "(AssetIndex, Address) fmap"
  dbAccounttotals :: AccountTotals
  dbAcctrounds :: Round

record AssetLocator =
  alIndex :: AssetIndex
  alCreator :: Address

type_synonym codec = "AccountData \<Rightarrow> AccountData"

definition AccountTotals_zero :: AccountTotals where
  "AccountTotals_zero =
     (let z = \<lparr>acMoney = 0, acRewardUnits = 0\<rparr> in
      \<lparr>atOnline = z, atOffline = z, atNotParticipating = z, atRewardsLevel = 0\<rparr>)"

fun add_accounts ::
    "ConsensusParams \<Rightarrow> AccountData list \<Rightarrow> AccountTotals \<times> OverflowTracker \<Rightarrow> (goerror, AccountTotals \<times> OverflowTracker) result" where
  "add_accounts proto [] tot = Ok tot"
| "add_accounts proto (d # ds) tot = res_bind (addAccount proto d tot) (add_accounts proto ds)"

text \<open>\<open>None\<close> is a database without a round, in which the initial \<open>INSERT\<close> succeeds.\<close>

definition accountsInit ::
    "codec \<Rightarrow> (Address, AccountData) fmap \<Rightarrow> ConsensusParams \<Rightarrow> acctdb option \<Rightarrow> (goerror, acctdb) result" where
  "accountsInit rt initAccounts proto db0 =
     (case db0 of
        Some db \<Rightarrow> Ok db
      | None \<Rightarrow>
          res_bind (add_accounts proto (map (\<lambda>a. the (fmlookup initAccounts a)) (sorted_list_of_fset (fmdom initAccounts)))
                     (AccountTotals_zero, ot_new)) (\<lambda>(totals, ot).
          if Overflowed ot then Err (Errorf ''overflow computing totals'')
          else Ok \<lparr>dbAccountbase = fmmap rt initAccounts, dbAssetcreators = fmempty,
                   dbAccounttotals = totals, dbAcctrounds = 0\<rparr>))"

definition db_lookup :: "acctdb \<Rightarrow> Address \<Rightarrow> AccountData" where
  "db_lookup db addr = (case fmlookup (dbAccountbase db) addr of Some d \<Rightarrow> d | None \<Rightarrow> AccountData_zero)"

definition lookupAssetCreator :: "acctdb \<Rightarrow> AssetIndex \<Rightarrow> (goerror, Address) result" where
  "lookupAssetCreator db aidx =
     (case fmlookup (dbAssetcreators db) aidx of
        Some a \<Rightarrow> Ok a | None \<Rightarrow> Err (Errorf ''asset does not exist or has been deleted''))"

definition db_listAssets :: "acctdb \<Rightarrow> AssetIndex \<Rightarrow> u64 \<Rightarrow> AssetLocator list" where
  "db_listAssets db maxAssetIdx maxResults =
     take (unat maxResults)
       (map (\<lambda>i. \<lparr>alIndex = i, alCreator = the (fmlookup (dbAssetcreators db) i)\<rparr>)
         (rev (filter (\<lambda>i. i \<le> maxAssetIdx) (sorted_list_of_fset (fmdom (dbAssetcreators db))))))"

definition put_creator :: "Address \<Rightarrow> AssetIndex \<times> modifiedAsset \<Rightarrow> acctdb \<Rightarrow> (goerror, acctdb) result" where
  "put_creator addr = (\<lambda>(aidx, delta) db.
     if created delta then
       (if fmlookup (dbAssetcreators db) aidx \<noteq> None then Err (Errorf ''UNIQUE constraint failed'')
        else Ok (db\<lparr>dbAssetcreators := fmupd aidx addr (dbAssetcreators db)\<rparr>))
     else Ok (db\<lparr>dbAssetcreators := fmdrop aidx (dbAssetcreators db)\<rparr>))"

fun put_creators :: "Address \<Rightarrow> (AssetIndex \<times> modifiedAsset) list \<Rightarrow> acctdb \<Rightarrow> (goerror, acctdb) result" where
  "put_creators addr [] db = Ok db"
| "put_creators addr (x # xs) db = res_bind (put_creator addr x db) (put_creators addr xs)"

definition entries :: "('k :: linorder, 'v) fmap \<Rightarrow> ('k \<times> 'v) list" where
  "entries m = map (\<lambda>k. (k, the (fmlookup m k))) (sorted_list_of_fset (fmdom m))"

fun update_accounts ::
    "codec \<Rightarrow> ConsensusParams \<Rightarrow> (Address \<times> accountDelta) list \<Rightarrow> acctdb \<Rightarrow> AccountTotals \<times> OverflowTracker
     \<Rightarrow> (goerror, acctdb \<times> AccountTotals \<times> OverflowTracker) result" where
  "update_accounts rt proto [] db tot = Ok (db, tot)"
| "update_accounts rt proto ((addr, data) # rest) db tot =
     (let db1 = db\<lparr>dbAccountbase :=
            (if AccountData_IsZero (new data) then fmdrop addr (dbAccountbase db)
             else fmupd addr (rt (new data)) (dbAccountbase db))\<rparr> in
      res_bind (delAccount proto (old data) tot) (\<lambda>tot1.
      res_bind (addAccount proto (new data) tot1) (\<lambda>tot2.
      res_bind (put_creators addr (entries (getChangedAssetIndices addr data)) db1) (\<lambda>db2.
      update_accounts rt proto rest db2 tot2))))"

definition accountsNewRound ::
    "codec \<Rightarrow> Round \<Rightarrow> (Address, accountDelta) fmap \<Rightarrow> u64 \<Rightarrow> ConsensusParams \<Rightarrow> acctdb \<Rightarrow> (goerror, acctdb) result" where
  "accountsNewRound rt rnd updates lvl proto db =
     (if rnd \<noteq> dbAcctrounds db + 1 then Err (Errorf ''newRound is not immediately after base'')
      else
        res_bind (update_accounts rt proto (entries updates) db (Totals_applyRewards lvl (dbAccounttotals db, ot_new)))
          (\<lambda>(db, totals, ot).
        if Overflowed ot then Err (Errorf ''overflow computing totals'')
        else Ok (db\<lparr>dbAcctrounds := rnd, dbAccounttotals := totals\<rparr>)))"

section \<open>Tracker\<close>

record modifiedAccount =
  maData :: AccountData
  maNdeltas :: int

record accountUpdates =
  auDB :: acctdb
  dbRound :: Round
  deltas :: "(Address, accountDelta) fmap list"
  auAccounts :: "(Address, modifiedAccount) fmap"
  assetDeltas :: "(AssetIndex, modifiedAsset) fmap list"
  auAssets :: "(AssetIndex, modifiedAsset) fmap"
  protos :: "ConsensusParams list"
  roundTotals :: "AccountTotals list"

definition au_latest :: "accountUpdates \<Rightarrow> Round" where
  "au_latest au = dbRound au + of_nat (length (deltas au))"

definition roundOffset :: "accountUpdates \<Rightarrow> Round \<Rightarrow> (goerror, u64) result" where
  "roundOffset au rnd =
     (if rnd < dbRound au then Err (Errorf ''round before dbRound'')
      else
        let off = rnd - dbRound au in
        if off > of_nat (length (deltas au)) then Err (Errorf ''round too high'') else Ok off)"

text \<open>The most recent of the first \<open>n\<close> deltas with the key.\<close>

fun latest_in :: "('k, 'v) fmap list \<Rightarrow> nat \<Rightarrow> 'k \<Rightarrow> 'v option" where
  "latest_in ds 0 k = None"
| "latest_in ds (Suc n) k =
     (case fmlookup (ds ! n) k of Some v \<Rightarrow> Some v | None \<Rightarrow> latest_in ds n k)"

definition au_raw :: "accountUpdates \<Rightarrow> nat \<Rightarrow> Address \<Rightarrow> AccountData" where
  "au_raw au offset addr =
     (if offset = length (deltas au) then
        (case fmlookup (auAccounts au) addr of Some macct \<Rightarrow> maData macct | None \<Rightarrow> db_lookup (auDB au) addr)
      else
        (case latest_in (deltas au) offset addr of Some d \<Rightarrow> new d | None \<Rightarrow> db_lookup (auDB au) addr))"

definition au_lookup :: "accountUpdates \<Rightarrow> Round \<Rightarrow> Address \<Rightarrow> bool \<Rightarrow> (goerror, AccountData) result" where
  "au_lookup au rnd addr withRewards =
     res_bind (roundOffset au rnd) (\<lambda>offset.
     let data = au_raw au (unat offset) addr in
     if withRewards then
       WithUpdatedRewards (protos au ! unat offset) (atRewardsLevel (roundTotals au ! unat offset)) data
     else Ok data)"

definition allBalances :: "accountUpdates \<Rightarrow> Round \<Rightarrow> (goerror, (Address, AccountData) fmap) result" where
  "allBalances au rnd =
     res_bind (roundOffset au rnd) (\<lambda>offsetLimit.
     Ok (fold (\<lambda>d bals. bals ++\<^sub>f fmmap new d) (take (unat offsetLimit) (deltas au)) (dbAccountbase (auDB au))))"

definition creator_answer :: "modifiedAsset \<Rightarrow> (goerror, Address) result" where
  "creator_answer d = (if created d then Ok (creator d) else Err (Errorf ''asset has been deleted''))"

definition getAssetCreatorForRound :: "accountUpdates \<Rightarrow> Round \<Rightarrow> AssetIndex \<Rightarrow> (goerror, Address) result" where
  "getAssetCreatorForRound au rnd aidx =
     res_bind (roundOffset au rnd) (\<lambda>offset.
     case (if unat offset = length (deltas au) then fmlookup (auAssets au) aidx
           else latest_in (assetDeltas au) (unat offset) aidx) of
       Some d \<Rightarrow> creator_answer d
     | None \<Rightarrow> lookupAssetCreator (auDB au) aidx)"

definition au_totals :: "accountUpdates \<Rightarrow> Round \<Rightarrow> (goerror, AccountTotals) result" where
  "au_totals au rnd = res_bind (roundOffset au rnd) (\<lambda>offset. Ok (roundTotals au ! unat offset))"

text \<open>The merge of database rows into the result list, which stops when it is full.\<close>

fun merge_assets :: "u64 \<Rightarrow> AssetIndex list \<Rightarrow> AssetLocator list \<Rightarrow> AssetLocator list \<Rightarrow> AssetLocator list" where
  "merge_assets maxResults deleted res [] = res"
| "merge_assets maxResults deleted res (loc # rest) =
     (if of_nat (length res) = maxResults then res
      else if alIndex loc \<in> set deleted then merge_assets maxResults deleted res rest
      else merge_assets maxResults deleted (res @ [loc]) rest)"

definition listAssets :: "accountUpdates \<Rightarrow> AssetIndex \<Rightarrow> u64 \<Rightarrow> AssetLocator list" where
  "listAssets au maxAssetIdx maxResults =
     (let keys = rev (filter (\<lambda>i. i \<le> maxAssetIdx) (sorted_list_of_fset (fmdom (auAssets au))));
          unsynced = map (\<lambda>i. \<lparr>alIndex = i, alCreator = creator (the (fmlookup (auAssets au) i))\<rparr>)
                       (filter (\<lambda>i. created (the (fmlookup (auAssets au) i))) keys);
          deleted = filter (\<lambda>i. \<not> created (the (fmlookup (auAssets au) i))) keys;
          res = take (unat maxResults) unsynced in
      if length unsynced > unat maxResults then res
      else
        merge_assets maxResults deleted res
          (db_listAssets (auDB au) maxAssetIdx
             (maxResults - of_nat (length res) + of_nat (length deleted))))"

subsection \<open>New blocks\<close>

definition bump_account :: "Address \<Rightarrow> AccountData \<Rightarrow> (Address, modifiedAccount) fmap \<Rightarrow> (Address, modifiedAccount) fmap" where
  "bump_account addr d accounts =
     fmupd addr \<lparr>maData = d, maNdeltas = (case fmlookup accounts addr of None \<Rightarrow> 0 | Some m \<Rightarrow> maNdeltas m) + 1\<rparr> accounts"

definition bump_asset :: "Address \<Rightarrow> AssetIndex \<times> modifiedAsset \<Rightarrow> (AssetIndex, modifiedAsset) fmap \<Rightarrow> (AssetIndex, modifiedAsset) fmap" where
  "bump_asset addr = (\<lambda>(aidx, delta) as.
     fmupd aidx \<lparr>created = created delta, creator = addr,
                 ndeltas = (case fmlookup as aidx of None \<Rightarrow> 0 | Some m \<Rightarrow> ndeltas m) + 1\<rparr> as)"

fun new_accounts ::
    "ConsensusParams \<Rightarrow> (Address \<times> accountDelta) list \<Rightarrow> AccountTotals \<times> OverflowTracker
     \<Rightarrow> (accountUpdates, goerror, AccountTotals \<times> OverflowTracker) act" where
  "new_accounts proto [] tot = act_return tot"
| "new_accounts proto ((addr, data) # rest) tot =
     act_bind (act_lift (res_bind (delAccount proto (old data) tot) (addAccount proto (new data)))) (\<lambda>tot2.
     act_bind (act_modify (\<lambda>au.
       let adeltas = getChangedAssetIndices addr data in
       au\<lparr>auAccounts := bump_account addr (new data) (auAccounts au),
          auAssets := fold (bump_asset addr) (entries adeltas) (auAssets au),
          assetDeltas := butlast (assetDeltas au) @ [last (assetDeltas au) ++\<^sub>f adeltas]\<rparr>)) (\<lambda>_.
     new_accounts proto rest tot2))"

definition au_newBlock :: "Block \<Rightarrow> StateDelta \<Rightarrow> (accountUpdates, goerror, unit) act" where
  "au_newBlock blk delta au =
     (let proto = ConsensusProtocol blk; rnd = Block_Round blk in
      if rnd \<le> au_latest au then (Ok (), au)
      else if rnd \<noteq> au_latest au + 1 then (Panic (Errorf ''accountUpdates: newBlock too far in the future''), au)
      else
        (act_bind (act_modify (\<lambda>au. au\<lparr>deltas := deltas au @ [accts delta], protos := protos au @ [proto],
                                        assetDeltas := assetDeltas au @ [fmempty]\<rparr>)) (\<lambda>_.
         act_bind (act_lift (All (last (roundTotals au)))) (\<lambda>allBefore.
         act_bind (new_accounts proto (entries (accts delta))
                    (Totals_applyRewards (RewardsLevel (bhRewards (hdr delta))) (last (roundTotals au), ot_new))) (\<lambda>(newTotals, ot).
         if Overflowed ot then act_panic (Errorf ''accountUpdates: newBlock overflowed totals'')
         else
           act_bind (act_lift (All newTotals)) (\<lambda>allAfter.
           if allBefore \<noteq> allAfter then act_panic (Errorf ''accountUpdates: sum of money changed'')
           else act_modify (\<lambda>au. au\<lparr>roundTotals := roundTotals au @ [newTotals]\<rparr>)))))) au)"

subsection \<open>Flushing to the database\<close>

fun flush_rounds ::
    "codec \<Rightarrow> Round \<Rightarrow> (Address, accountDelta) fmap list \<Rightarrow> AccountTotals list \<Rightarrow> ConsensusParams list \<Rightarrow> acctdb
     \<Rightarrow> (goerror, acctdb) result" where
  "flush_rounds rt rnd [] ts ps db = Ok db"
| "flush_rounds rt rnd (d # ds) (t # ts) (p # ps) db =
     res_bind (accountsNewRound rt (rnd + 1) d (atRewardsLevel t) p db) (flush_rounds rt (rnd + 1) ds ts ps)"
| "flush_rounds rt rnd (d # ds) _ _ db = Panic (Errorf ''index out of range'')"

definition flush_count :: "('k, 'v) fmap list \<Rightarrow> 'k \<Rightarrow> int" where
  "flush_count ds k = int (length (filter (\<lambda>d. fmlookup d k \<noteq> None) ds))"

text \<open>
  Dropping references: the counts of the keys that were flushed are subtracted, and an entry goes
  when its count reaches zero.  The entries of distinct keys do not interact.
\<close>

fun drop_refs ::
    "('v \<Rightarrow> int) \<Rightarrow> (int \<Rightarrow> 'v \<Rightarrow> 'v) \<Rightarrow> ('k \<times> int) list \<Rightarrow> ('k, 'v) fmap \<Rightarrow> (goerror, ('k, 'v) fmap) result" where
  "drop_refs cnt upd [] m = Ok m"
| "drop_refs cnt upd ((k, n) # rest) m =
     (case fmlookup m k of
        None \<Rightarrow> Panic (Errorf ''inconsistency: flushed changes, but not in the cache'')
      | Some v \<Rightarrow>
          if n > cnt v then Panic (Errorf ''inconsistency: flushed more changes than the cache had'')
          else
            let left = cnt v - n in
            drop_refs cnt upd rest (if left = 0 then fmdrop k m else fmupd k (upd left v) m))"

definition flushcounts :: "('k :: linorder, 'v) fmap list \<Rightarrow> ('k \<times> int) list" where
  "flushcounts ds =
     map (\<lambda>k. (k, flush_count ds k)) (sorted_list_of_fset (foldr (\<lambda>d s. fmdom d |\<union>| s) ds {||}))"

definition drop_flushed :: "nat \<Rightarrow> accountUpdates \<Rightarrow> (goerror, accountUpdates) result" where
  "drop_flushed offset au =
     res_bind (drop_refs maNdeltas (\<lambda>n m. m\<lparr>maNdeltas := n\<rparr>) (flushcounts (take offset (deltas au))) (auAccounts au)) (\<lambda>as.
     res_bind (drop_refs ndeltas (\<lambda>n m. m\<lparr>ndeltas := n\<rparr>) (flushcounts (take offset (assetDeltas au))) (auAssets au)) (\<lambda>bs.
     Ok (au\<lparr>auAccounts := as, auAssets := bs, deltas := drop offset (deltas au), protos := drop offset (protos au),
            roundTotals := drop offset (roundTotals au), assetDeltas := drop offset (assetDeltas au)\<rparr>)))"

definition au_committedUpTo :: "codec \<Rightarrow> bool \<Rightarrow> bool \<Rightarrow> Round \<Rightarrow> (accountUpdates, goerror, Round) act" where
  "au_committedUpTo rt fault due rnd au =
     (let lookback = MaxBalLookback (last (protos au)) in
      if rnd < lookback then (Ok 0, au)
      else
        let newBase = rnd - lookback in
        if newBase \<le> dbRound au then (Ok (dbRound au), au)
        else if newBase > au_latest au then (Panic (Errorf ''committedUpTo: block too far in the future''), au)
        else if \<not> due then (Ok (dbRound au), au)
        else
          let offset = unat (newBase - dbRound au) in
          case flush_rounds rt (dbRound au) (take offset (deltas au)) (tl (roundTotals au)) (tl (protos au)) (auDB au) of
            Panic e \<Rightarrow> (Panic e, au)
          | Err e \<Rightarrow> (Ok (dbRound au), au)
          | Ok db \<Rightarrow>
              if fault then (Ok (dbRound au), au)
              else
                (case drop_flushed offset au of
                   Ok au1 \<Rightarrow> (Ok newBase, au1\<lparr>auDB := db, dbRound := newBase\<rparr>)
                 | Err e \<Rightarrow> (Err e, au)
                 | Panic e \<Rightarrow> (Panic e, au\<lparr>auDB := db\<rparr>)))"

subsection \<open>Loading\<close>

function replay ::
    "(Round \<Rightarrow> (goerror, Block) result) \<Rightarrow> (accountUpdates \<Rightarrow> Block \<Rightarrow> (goerror, StateDelta) result) \<Rightarrow> Round \<Rightarrow> Round
     \<Rightarrow> (accountUpdates, goerror, unit) act" where
  "replay block evalVerified latest loaded au =
     (if loaded < latest then
        (case block (loaded + 1) of
           Err e \<Rightarrow> (Err e, au)
         | Panic e \<Rightarrow> (Panic e, au)
         | Ok blk \<Rightarrow>
             (case evalVerified au blk of
                Err e \<Rightarrow> (Err e, au)
              | Panic e \<Rightarrow> (Panic e, au)
              | Ok delta \<Rightarrow>
                  (case au_newBlock blk delta au of
                     (Ok _, au1) \<Rightarrow> replay block evalVerified latest (loaded + 1) au1
                   | r \<Rightarrow> r)))
      else (Ok (), au))"
  by pat_completeness auto
termination
  by (relation "measure (\<lambda>(_, _, latest, loaded, _). unat latest - unat loaded)")
    (auto simp: unat_Suc_below word_less_nat_alt)

declare replay.simps [simp del]

text \<open>
  The start of \<open>loadFromDisk\<close>: the database, initialised if it is empty and reset when it is ahead
  of the blocks.
\<close>

definition load_db ::
    "codec \<Rightarrow> (Address, AccountData) gomap \<Rightarrow> ConsensusParams \<Rightarrow> Round \<Rightarrow> acctdb option \<Rightarrow> (goerror, acctdb) result" where
  "load_db rt initAccounts initProto latest db0 =
     (case initAccounts of
        None \<Rightarrow> Err (Errorf ''accountUpdates.loadFromDisk: initAccounts not set'')
      | Some as \<Rightarrow>
          res_bind (accountsInit rt as initProto db0) (\<lambda>db.
          if dbAcctrounds db > latest then accountsInit rt as initProto None else Ok db))"

definition au_loadFromDisk ::
    "codec \<Rightarrow> (Address, AccountData) gomap \<Rightarrow> ConsensusParams \<Rightarrow> ledgerForTracker
     \<Rightarrow> (accountUpdates \<Rightarrow> Block \<Rightarrow> (goerror, StateDelta) result) \<Rightarrow> acctdb option \<Rightarrow> (goerror, accountUpdates) result" where
  "au_loadFromDisk rt initAccounts initProto l evalVerified db0 =
     res_bind (load_db rt initAccounts initProto (ltLatest l) db0) (\<lambda>db.
     res_bind (ltBlockHdr l (dbAcctrounds db)) (\<lambda>h.
     case replay (ltBlock l) evalVerified (ltLatest l) (dbAcctrounds db)
            \<lparr>auDB = db, dbRound = dbAcctrounds db, deltas = [], auAccounts = fmempty, assetDeltas = [], auAssets = fmempty,
             protos = [Consensus_or_zero (CurrentProtocol (bhUpgradeState h))], roundTotals = [dbAccounttotals db]\<rparr> of
       (Ok _, au) \<Rightarrow> Ok au
     | (Err e, _) \<Rightarrow> Err e
     | (Panic e, _) \<Rightarrow> Panic e))"

end
