(* ===== verification/AcctUpdates_Laws.thy ===== *)
theory AcctUpdates_Laws
  imports AcctUpdates
begin

text \<open>
  Correctness of the account tracker: every lookup answers from the history of account states that
  the blocks define, a flush to the database keeps that history and never fails on the tracker's own
  bookkeeping, and a new block extends it by the effect of the block.
\<close>


section \<open>Deltas\<close>

lemma latest_in_append [simp]: "n \<le> length ds \<Longrightarrow> latest_in (ds @ [d]) n k = latest_in ds n k"
  by (induction n) (simp_all add: nth_append split: option.splits)

lemma latest_in_drop:
  "m + n \<le> length ds \<Longrightarrow>
     latest_in ds (m + n) k = (case latest_in (drop m ds) n k of Some v \<Rightarrow> Some v | None \<Rightarrow> latest_in ds m k)"
  by (induction n) (simp_all split: option.splits)

lemma latest_in_take: "n \<le> m \<Longrightarrow> m \<le> length ds \<Longrightarrow> latest_in (take m ds) n k = latest_in ds n k"
  by (induction n) (simp_all split: option.splits)

lemma latest_in_None: "n \<le> length ds \<Longrightarrow> latest_in ds n k = None \<longleftrightarrow> flush_count (take n ds) k = 0"
  by (induction n) (auto simp: flush_count_def take_Suc_conv_app_nth split: option.splits)

lemma flush_count_append: "flush_count (xs @ ys) k = flush_count xs k + flush_count ys k"
  by (simp add: flush_count_def)

lemma flush_count_split: "flush_count ds k = flush_count (take m ds) k + flush_count (drop m ds) k"
  using flush_count_append [of "take m ds" "drop m ds" k] by simp

lemma flush_count_nonneg: "0 \<le> flush_count ds k"
  by (simp add: flush_count_def)

lemma set_entries: "set (entries m) = {(k, v). fmlookup m k = Some v}"
  by (auto simp: entries_def fmlookup_dom_iff)

lemma distinct_entries: "distinct (map fst (entries m))"
  by (simp add: entries_def comp_def sorted_list_of_fset.rep_eq)

lemma map_of_entries [simp]: "map_of (entries m) = fmlookup m"
proof
  fix k
  show "map_of (entries m) k = fmlookup m k"
    using map_of_eq_Some_iff [OF distinct_entries, of m k] map_of_eq_None_iff [of "entries m" k]
    by (cases "fmlookup m k") (force simp: set_entries)+
qed

section \<open>Accounts as the ledger sees them\<close>

text \<open>
  Two account records that differ at most in a map being nil or empty: the difference that the
  codec and the pruning of empty accounts do not keep.
\<close>

definition same_account :: "AccountData \<Rightarrow> AccountData \<Rightarrow> bool" where
  "same_account d e \<longleftrightarrow>
     d\<lparr>acctAssets := None, acctAssetParams := None\<rparr> = e\<lparr>acctAssets := None, acctAssetParams := None\<rparr> \<and>
     (\<forall>i. gget (acctAssets d) i = gget (acctAssets e) i) \<and> (\<forall>i. gget (acctAssetParams d) i = gget (acctAssetParams e) i)"

lemma same_account_refl [simp]: "same_account d d"
  by (simp add: same_account_def)

lemma same_account_sym: "same_account d e \<Longrightarrow> same_account e d"
  by (simp add: same_account_def)

lemma same_account_trans: "same_account d e \<Longrightarrow> same_account e f \<Longrightarrow> same_account d f"
  by (simp add: same_account_def)

lemma same_account_fields:
  assumes "same_account d e"
  shows "acctStatus d = acctStatus e" "acctMicroAlgos d = acctMicroAlgos e" "RewardsBase d = RewardsBase e"
proof -
  let ?f = "\<lambda>d. d\<lparr>acctAssets := None, acctAssetParams := None\<rparr>"
  have eq: "?f d = ?f e" using assms by (simp add: same_account_def)
  show "acctStatus d = acctStatus e" using arg_cong [OF eq, of acctStatus] by simp
  show "acctMicroAlgos d = acctMicroAlgos e" using arg_cong [OF eq, of acctMicroAlgos] by simp
  show "RewardsBase d = RewardsBase e" using arg_cong [OF eq, of RewardsBase] by simp
qed

lemma same_account_worth: "same_account d e \<Longrightarrow> worth p lvl d = worth p lvl e"
  using same_account_fields [of d e] by (simp add: worth_def pending_rewards_def)

lemma same_account_units: "same_account d e \<Longrightarrow> units p d = units p e"
  using same_account_fields [of d e] by (simp add: units_def)

lemma IsZero_same: "AccountData_IsZero d \<Longrightarrow> same_account d AccountData_zero"
proof -
  assume z: "AccountData_IsZero d"
  have "\<forall>i. gget (acctAssets d) i = None" if "acctAssets d \<noteq> None" "glen (acctAssets d) = 0"
    using that by (simp add: glen_0_iff)
  moreover have "d\<lparr>acctAssets := None\<rparr> = AccountData_zero \<or> d = AccountData_zero"
    using z by (auto simp: AccountData_IsZero_def split: if_splits)
  ultimately show ?thesis
    using z by (cases d) (auto simp: AccountData_IsZero_def same_account_def AccountData_zero_def split: if_splits)
qed

definition codec_ok :: "codec \<Rightarrow> bool" where
  "codec_ok rt \<longleftrightarrow> (\<forall>d. same_account (rt d) d)"

definition stored :: "codec \<Rightarrow> AccountData \<Rightarrow> AccountData" where
  "stored rt d = (if AccountData_IsZero d then AccountData_zero else rt d)"

lemma stored_same: "codec_ok rt \<Longrightarrow> same_account (stored rt d) d"
  by (auto simp: stored_def codec_ok_def intro: IsZero_same same_account_sym)

section \<open>One round in the database\<close>

lemma put_creators_frame:
  "put_creators addr xs db = Ok db' \<Longrightarrow>
     dbAccountbase db' = dbAccountbase db \<and> dbAcctrounds db' = dbAcctrounds db \<and> dbAccounttotals db' = dbAccounttotals db"
  by (induction xs arbitrary: db) (auto simp: act_simps put_creator_def split: prod.splits if_splits)

text \<open>The totals that a list of changes leads to.\<close>

fun totals_fold ::
    "ConsensusParams \<Rightarrow> (Address \<times> accountDelta) list \<Rightarrow> AccountTotals \<times> OverflowTracker
     \<Rightarrow> (goerror, AccountTotals \<times> OverflowTracker) result" where
  "totals_fold proto [] tot = Ok tot"
| "totals_fold proto ((addr, data) # rest) tot =
     res_bind (res_bind (delAccount proto (old data) tot) (addAccount proto (new data))) (totals_fold proto rest)"

lemma update_accounts_Ok:
  assumes "update_accounts rt proto us db tot = Ok (db', tot')" and "distinct (map fst us)"
  shows "totals_fold proto us tot = Ok tot' \<and> dbAcctrounds db' = dbAcctrounds db \<and>
    (\<forall>a. db_lookup db' a = (case map_of us a of Some d \<Rightarrow> stored rt (new d) | None \<Rightarrow> db_lookup db a))"
  using assms
proof (induction us arbitrary: db tot)
  case (Cons u us)
  obtain addr data where u: "u = (addr, data)" by force
  let ?db1 = "db\<lparr>dbAccountbase :=
            (if AccountData_IsZero (new data) then fmdrop addr (dbAccountbase db)
             else fmupd addr (rt (new data)) (dbAccountbase db))\<rparr>"
  from Cons.prems(1) obtain tot1 tot2 db2 where
    d: "delAccount proto (old data) tot = Ok tot1" and a: "addAccount proto (new data) tot1 = Ok tot2" and
    c: "put_creators addr (entries (getChangedAssetIndices addr data)) ?db1 = Ok db2" and
    r: "update_accounts rt proto us db2 tot2 = Ok (db', tot')"
    by (auto simp: u act_simps Let_def)
  have db2: "dbAccountbase db2 = dbAccountbase ?db1" "dbAcctrounds db2 = dbAcctrounds db"
    using put_creators_frame [OF c] by simp_all
  have "db_lookup db2 x = (if x = addr then stored rt (new data) else db_lookup db x)" for x
    by (simp add: db_lookup_def db2 stored_def)
  moreover have "map_of us addr = None" using Cons.prems(2) by (simp add: u map_of_eq_None_iff)
  moreover note IH = Cons.IH [OF r]
  ultimately show ?case using Cons.prems(2) d a db2(2)
    by (auto simp: u res_bind_def split: option.splits)
qed simp


section \<open>The table of creators\<close>

fun asset_changes :: "(Address \<times> accountDelta) list \<Rightarrow> (AssetIndex, modifiedAsset) fmap" where
  "asset_changes [] = fmempty"
| "asset_changes ((addr, data) # rest) = getChangedAssetIndices addr data ++\<^sub>f asset_changes rest"

definition creator_opt :: "modifiedAsset \<Rightarrow> Address option" where
  "creator_opt d = (if created d then Some (creator d) else None)"

lemma changed_creator: "fmlookup (getChangedAssetIndices addr data) i = Some d \<Longrightarrow> creator d = addr"
  by (auto simp: getChangedAssetIndices_def split: if_splits)

lemma put_creators_Ok:
  assumes "put_creators addr xs db = Ok db'" and "distinct (map fst xs)" and "\<forall>(i, d) \<in> set xs. creator d = addr"
  shows "fmlookup (dbAssetcreators db') i =
    (case map_of xs i of Some d \<Rightarrow> creator_opt d | None \<Rightarrow> fmlookup (dbAssetcreators db) i)"
  using assms
proof (induction xs arbitrary: db)
  case (Cons x xs)
  obtain j d where x: "x = (j, d)" by force
  from Cons.prems(1) obtain db1 where p: "put_creator addr x db = Ok db1" and r: "put_creators addr xs db1 = Ok db'"
    by (auto simp: act_simps)
  have db1: "fmlookup (dbAssetcreators db1) i = (if i = j then creator_opt d else fmlookup (dbAssetcreators db) i)" for i
    using p Cons.prems(3) by (auto simp: put_creator_def x creator_opt_def split: if_splits)
  have "map_of xs j = None" using Cons.prems(2) by (simp add: x map_of_eq_None_iff)
  then show ?case using Cons.IH [OF r] Cons.prems(2,3) by (auto simp: x db1 split: option.splits)
qed simp

lemma update_accounts_creators:
  assumes "update_accounts rt proto us db tot = Ok (db', tot')"
  shows "fmlookup (dbAssetcreators db') i =
    (case fmlookup (asset_changes us) i of Some d \<Rightarrow> creator_opt d | None \<Rightarrow> fmlookup (dbAssetcreators db) i)"
  using assms
proof (induction us arbitrary: db tot)
  case (Cons u us)
  obtain addr data where u: "u = (addr, data)" by force
  let ?db1 = "db\<lparr>dbAccountbase :=
            (if AccountData_IsZero (new data) then fmdrop addr (dbAccountbase db)
             else fmupd addr (rt (new data)) (dbAccountbase db))\<rparr>"
  from Cons.prems obtain tot2 db2 where
    c: "put_creators addr (entries (getChangedAssetIndices addr data)) ?db1 = Ok db2" and
    r: "update_accounts rt proto us db2 tot2 = Ok (db', tot')"
    by (auto simp: u act_simps Let_def)
  have "fmlookup (dbAssetcreators db2) i =
      (case fmlookup (getChangedAssetIndices addr data) i of Some d \<Rightarrow> creator_opt d | None \<Rightarrow> fmlookup (dbAssetcreators db) i)"
  proof -
    have "\<forall>(i, d) \<in> set (entries (getChangedAssetIndices addr data)). creator d = addr"
      using changed_creator by (auto simp: set_entries)
    from put_creators_Ok [OF c distinct_entries this, of i] show ?thesis by (simp split: option.splits)
  qed
  then show ?case using Cons.IH [OF r] by (auto simp: u fmdom_notD split: option.splits dest: fmdomI)
qed simp

section \<open>Flushing\<close>

lemma latest_in_Cons:
  "n \<le> length ds \<Longrightarrow>
     latest_in (d # ds) (Suc n) k = (case latest_in ds n k of Some v \<Rightarrow> Some v | None \<Rightarrow> fmlookup d k)"
  using latest_in_drop [of 1 n "d # ds" k] by (simp split: option.splits)

definition totals_step :: "ConsensusParams \<Rightarrow> (Address, accountDelta) fmap \<Rightarrow> AccountTotals \<Rightarrow> AccountTotals \<Rightarrow> bool" where
  "totals_step p d T t \<longleftrightarrow>
     (\<exists>ot. totals_fold p (entries d) (Totals_applyRewards (atRewardsLevel t) (T, ot_new)) = Ok (t, ot) \<and> \<not> Overflowed ot)"

lemma update_accounts_no_panic:
  "totals_fold proto us tot = Ok tot' \<Longrightarrow> update_accounts rt proto us db tot \<noteq> Panic e"
proof (induction us arbitrary: db tot)
  case (Cons u us)
  obtain addr data where u: "u = (addr, data)" by force
  have np: "put_creators a xs x \<noteq> Panic e" for a xs x
    by (induction xs arbitrary: x) (auto simp: res_bind_def put_creator_def split: result.splits prod.splits)
  from Cons.prems obtain tot1 tot2 where t: "delAccount proto (old data) tot = Ok tot1"
    "addAccount proto (new data) tot1 = Ok tot2" "totals_fold proto us tot2 = Ok tot'"
    by (auto simp: u act_simps)
  show ?case using np Cons.IH [OF t(3)] t(1,2) by (auto simp: u Let_def res_bind_def split: result.splits)
qed simp

lemma accountsNewRound_Ok:
  assumes "accountsNewRound rt rnd d lvl p db = Ok db'" and "totals_step p d (dbAccounttotals db) t" "lvl = atRewardsLevel t"
  shows "rnd = dbAcctrounds db + 1" "dbAcctrounds db' = rnd" "dbAccounttotals db' = t"
    "db_lookup db' a = (case fmlookup d a of Some x \<Rightarrow> stored rt (new x) | None \<Rightarrow> db_lookup db a)"
    "fmlookup (dbAssetcreators db') i =
       (case fmlookup (asset_changes (entries d)) i of Some x \<Rightarrow> creator_opt x | None \<Rightarrow> fmlookup (dbAssetcreators db) i)"
proof -
  from assms(1) obtain db1 tot ot where u: "update_accounts rt p (entries d) db (Totals_applyRewards lvl (dbAccounttotals db, ot_new)) = Ok (db1, tot, ot)"
    and r: "rnd = dbAcctrounds db + 1" and db': "db' = db1\<lparr>dbAcctrounds := rnd, dbAccounttotals := tot\<rparr>"
    by (auto simp: accountsNewRound_def act_simps split: if_splits)
  note k = update_accounts_Ok [OF u distinct_entries]
  show "rnd = dbAcctrounds db + 1" "dbAcctrounds db' = rnd" using r db' by simp_all
  show "dbAccounttotals db' = t" using k assms(2,3) db' by (auto simp: totals_step_def)
  show "db_lookup db' a = (case fmlookup d a of Some x \<Rightarrow> stored rt (new x) | None \<Rightarrow> db_lookup db a)"
    using k by (simp add: db' db_lookup_def)
  show "fmlookup (dbAssetcreators db') i =
       (case fmlookup (asset_changes (entries d)) i of Some x \<Rightarrow> creator_opt x | None \<Rightarrow> fmlookup (dbAssetcreators db) i)"
    using update_accounts_creators [OF u] by (simp add: db')
qed

text \<open>The rounds that are flushed, with the totals and protocols that follow them.\<close>

fun totals_chain ::
    "AccountTotals \<Rightarrow> (Address, accountDelta) fmap list \<Rightarrow> AccountTotals list \<Rightarrow> ConsensusParams list \<Rightarrow> bool" where
  "totals_chain T [] ts ps \<longleftrightarrow> True"
| "totals_chain T (d # ds) (t # ts) (p # ps) \<longleftrightarrow> totals_step p d T t \<and> totals_chain t ds ts ps"
| "totals_chain T _ _ _ \<longleftrightarrow> False"

lemma flush_rounds_Ok:
  assumes "flush_rounds rt rnd ds ts ps db = Ok db'" and "totals_chain (dbAccounttotals db) ds ts ps"
    and "dbAcctrounds db = rnd" and rt: "codec_ok rt"
  shows "dbAcctrounds db' = rnd + of_nat (length ds) \<and>
    dbAccounttotals db' = (if ds = [] then dbAccounttotals db else ts ! (length ds - 1)) \<and>
    (\<forall>a. same_account (db_lookup db' a) (case latest_in ds (length ds) a of Some x \<Rightarrow> new x | None \<Rightarrow> db_lookup db a)) \<and>
    (\<forall>i. fmlookup (dbAssetcreators db') i =
       (case latest_in (map (\<lambda>d. asset_changes (entries d)) ds) (length ds) i of
          Some x \<Rightarrow> creator_opt x | None \<Rightarrow> fmlookup (dbAssetcreators db) i))"
  using assms(1-3)
proof (induction ds arbitrary: rnd ts ps db)
  case (Cons d ds)
  from Cons.prems(2) obtain t ts' p ps' where ts: "ts = t # ts'" and ps: "ps = p # ps'"
    and step: "totals_step p d (dbAccounttotals db) t" and chain: "totals_chain t ds ts' ps'"
    by (cases ts; cases ps) auto
  from Cons.prems(1) obtain db1 where n: "accountsNewRound rt (rnd + 1) d (atRewardsLevel t) p db = Ok db1"
    and r: "flush_rounds rt (rnd + 1) ds ts' ps' db1 = Ok db'"
    by (auto simp: ts ps act_simps)
  note k = accountsNewRound_Ok [OF n step refl]
  have IH: "dbAcctrounds db' = rnd + 1 + of_nat (length ds) \<and>
    dbAccounttotals db' = (if ds = [] then t else ts' ! (length ds - 1)) \<and>
    (\<forall>a. same_account (db_lookup db' a) (case latest_in ds (length ds) a of Some x \<Rightarrow> new x | None \<Rightarrow> db_lookup db1 a)) \<and>
    (\<forall>i. fmlookup (dbAssetcreators db') i =
       (case latest_in (map (\<lambda>d. asset_changes (entries d)) ds) (length ds) i of
          Some x \<Rightarrow> creator_opt x | None \<Rightarrow> fmlookup (dbAssetcreators db1) i))"
    using Cons.IH [OF r] chain k(2,3) by simp
  have acc: "same_account (db_lookup db' a) (case latest_in (d # ds) (length (d # ds)) a of Some x \<Rightarrow> new x | None \<Rightarrow> db_lookup db a)" for a
  proof -
    have "same_account (db_lookup db' a) (case latest_in ds (length ds) a of Some x \<Rightarrow> new x | None \<Rightarrow> db_lookup db1 a)"
      using IH by blast
    moreover have "same_account (db_lookup db1 a) (case fmlookup d a of Some x \<Rightarrow> new x | None \<Rightarrow> db_lookup db a)"
      using stored_same [OF rt] by (simp add: k(4) split: option.splits)
    moreover have "latest_in (d # ds) (length (d # ds)) a = (case latest_in ds (length ds) a of Some v \<Rightarrow> Some v | None \<Rightarrow> fmlookup d a)"
      by (simp add: latest_in_Cons del: latest_in.simps)
    ultimately show ?thesis
      by (cases "latest_in ds (length ds) a") (auto intro: same_account_trans simp del: latest_in.simps)
  qed
  have cre: "fmlookup (dbAssetcreators db') i =
       (case latest_in (map (\<lambda>d. asset_changes (entries d)) (d # ds)) (length (d # ds)) i of
          Some x \<Rightarrow> creator_opt x | None \<Rightarrow> fmlookup (dbAssetcreators db) i)" for i
    using IH k(5) [of i]
    by (simp add: latest_in_Cons del: latest_in.simps split: option.splits)
  show ?case using IH acc cre by (auto simp: ts nth_Cons' simp del: latest_in.simps)
qed (simp add: same_account_refl)


section \<open>Reference counts\<close>

lemma drop_refs_Ok:
  assumes "distinct (map fst ks)" and "\<And>k n. (k, n) \<in> set ks \<Longrightarrow> \<exists>v. fmlookup m k = Some v \<and> n \<le> cnt v"
  shows "\<exists>m'. drop_refs cnt upd ks m = Ok m' \<and>
    (\<forall>k. fmlookup m' k = (case map_of ks k of None \<Rightarrow> fmlookup m k
       | Some n \<Rightarrow> (let v = the (fmlookup m k) in if cnt v = n then None else Some (upd (cnt v - n) v))))"
  using assms
proof (induction ks arbitrary: m)
  case (Cons x ks)
  obtain k n where x: "x = (k, n)" by force
  obtain v where v: "fmlookup m k = Some v" "n \<le> cnt v" using Cons.prems(2) [of k n] by (auto simp: x)
  let ?m = "if cnt v - n = 0 then fmdrop k m else fmupd k (upd (cnt v - n) v) m"
  have other: "k' \<noteq> k" if "(k', n') \<in> set ks" for k' n'
    using Cons.prems(1) that by (force simp: x)
  have "\<exists>v'. fmlookup ?m k' = Some v' \<and> n' \<le> cnt v'" if "(k', n') \<in> set ks" for k' n'
    using Cons.prems(2) [of k' n'] that other [OF that] by (auto simp: x)
  moreover have "distinct (map fst ks)" using Cons.prems(1) by simp
  ultimately obtain m' where m': "drop_refs cnt upd ks ?m = Ok m'"
    "\<forall>k. fmlookup m' k = (case map_of ks k of None \<Rightarrow> fmlookup ?m k
       | Some n \<Rightarrow> (let v = the (fmlookup ?m k) in if cnt v = n then None else Some (upd (cnt v - n) v)))"
    using Cons.IH [of ?m] by blast
  have none: "map_of ks k = None" using Cons.prems(1) by (simp add: x map_of_eq_None_iff)
  have "drop_refs cnt upd (x # ks) m = Ok m'" using v m'(1) by (simp add: x Let_def)
  moreover have "fmlookup m' k' = (case map_of (x # ks) k' of None \<Rightarrow> fmlookup m k'
       | Some n \<Rightarrow> (let v = the (fmlookup m k') in if cnt v = n then None else Some (upd (cnt v - n) v)))" for k'
    using m'(2) none v by (cases "k' = k") (auto simp: x Let_def split: option.splits)
  ultimately show ?case by blast
qed simp

lemma flush_count_pos: "flush_count ds k \<noteq> 0 \<longleftrightarrow> (\<exists>d\<in>set ds. fmlookup d k \<noteq> None)"
  by (auto simp: flush_count_def filter_empty_conv)

lemma map_of_flushcounts:
  "distinct (map fst (flushcounts ds))"
  "map_of (flushcounts ds) k = (if flush_count ds k = 0 then None else Some (flush_count ds k))"
proof -
  let ?ks = "sorted_list_of_fset (foldr (\<lambda>d s. fmdom d |\<union>| s) ds {||})"
  show "distinct (map fst (flushcounts ds))"
    by (simp add: flushcounts_def comp_def sorted_list_of_fset.rep_eq)
  have "k \<in> set ?ks \<longleftrightarrow> flush_count ds k \<noteq> 0"
    unfolding flush_count_pos by (induction ds) (auto simp: sorted_list_of_fset.rep_eq fmlookup_dom_iff)
  then show "map_of (flushcounts ds) k = (if flush_count ds k = 0 then None else Some (flush_count ds k))"
    by (simp add: flushcounts_def map_of_map_keys map_of_map_restrict [unfolded comp_def] restrict_map_def)
qed

section \<open>What the tracker stands for\<close>

definition au_view :: "accountUpdates \<Rightarrow> nat \<Rightarrow> accounts" where
  "au_view au n a = (case latest_in (deltas au) n a of Some d \<Rightarrow> new d | None \<Rightarrow> db_lookup (auDB au) a)"

definition au_creators :: "accountUpdates \<Rightarrow> nat \<Rightarrow> AssetIndex \<Rightarrow> Address option" where
  "au_creators au n i =
     (case latest_in (assetDeltas au) n i of Some d \<Rightarrow> creator_opt d | None \<Rightarrow> fmlookup (dbAssetcreators (auDB au)) i)"

definition au_shape :: "accountUpdates \<Rightarrow> bool" where
  "au_shape au \<longleftrightarrow>
     length (protos au) = Suc (length (deltas au)) \<and> length (roundTotals au) = Suc (length (deltas au)) \<and>
     assetDeltas au = map (\<lambda>d. asset_changes (entries d)) (deltas au) \<and>
     dbAcctrounds (auDB au) = dbRound au \<and> unat (dbRound au) + length (deltas au) < 2 ^ 64 \<and>
     dbAccounttotals (auDB au) = hd (roundTotals au) \<and>
     totals_chain (hd (roundTotals au)) (deltas au) (tl (roundTotals au)) (tl (protos au))"

definition caches_ok :: "accountUpdates \<Rightarrow> bool" where
  "caches_ok au \<longleftrightarrow>
     (\<forall>a. fmlookup (auAccounts au) a =
        (if flush_count (deltas au) a = 0 then None
         else Some \<lparr>maData = au_view au (length (deltas au)) a, maNdeltas = flush_count (deltas au) a\<rparr>)) \<and>
     (\<forall>i. case fmlookup (auAssets au) i of
        None \<Rightarrow> flush_count (assetDeltas au) i = 0
      | Some m \<Rightarrow> creator_opt m = au_creators au (length (deltas au)) i \<and> flush_count (assetDeltas au) i \<le> ndeltas m)"

lemma asset_cacheD:
  assumes "caches_ok au"
  shows "fmlookup (auAssets au) i = None \<Longrightarrow> flush_count (assetDeltas au) i = 0"
    "fmlookup (auAssets au) i = Some m \<Longrightarrow>
       creator_opt m = au_creators au (length (deltas au)) i \<and> flush_count (assetDeltas au) i \<le> ndeltas m"
  using assms [unfolded caches_ok_def, THEN conjunct2, rule_format, of i] by simp_all

text \<open>
  \<open>tracks hist chist au\<close>: for every round of its window the tracker has the accounts and the asset
  creators of that round in a history of the whole chain.
\<close>

definition tracks :: "(nat \<Rightarrow> accounts) \<Rightarrow> (nat \<Rightarrow> AssetIndex \<Rightarrow> Address option) \<Rightarrow> accountUpdates \<Rightarrow> bool" where
  "tracks hist chist au \<longleftrightarrow> au_shape au \<and> caches_ok au \<and>
     (\<forall>n \<le> length (deltas au). \<forall>a. same_account (au_view au n a) (hist (unat (dbRound au) + n) a)) \<and>
     (\<forall>n \<le> length (deltas au). au_creators au n = chist (unat (dbRound au) + n))"

lemma roundOffset_Ok:
  assumes "roundOffset au rnd = Ok off" and "unat (dbRound au) + length (deltas au) < 2 ^ 64"
  shows "unat off \<le> length (deltas au)" "unat rnd = unat (dbRound au) + unat off"
proof -
  from assms(1) have le: "dbRound au \<le> rnd" and off: "off = rnd - dbRound au" "off \<le> of_nat (length (deltas au))"
    by (auto simp: roundOffset_def Let_def not_less split: if_splits)
  have "unat (of_nat (length (deltas au)) :: u64) = length (deltas au)"
    using assms(2) by (simp add: unat_of_nat take_bit_eq_mod)
  with off(2) show "unat off \<le> length (deltas au)" by (simp add: word_le_nat_alt)
  show "unat rnd = unat (dbRound au) + unat off"
    using le unfolding off(1) by (simp add: unat_sub word_le_nat_alt)
qed

lemma au_raw_view:
  assumes "caches_ok au" and "n \<le> length (deltas au)"
  shows "au_raw au n a = au_view au n a"
proof (cases "n = length (deltas au)")
  case True
  then show ?thesis
    using assms latest_in_None [of n "deltas au" a] by (auto simp: au_raw_def caches_ok_def au_view_def)
qed (simp add: au_raw_def au_view_def)

lemma au_lookup_hist:
  assumes "tracks hist chist au" and "roundOffset au rnd = Ok off"
  shows "\<exists>d. au_lookup au rnd a False = Ok d \<and> same_account d (hist (unat rnd) a)"
proof -
  have "unat (dbRound au) + length (deltas au) < 2 ^ 64" using assms(1) by (simp add: tracks_def au_shape_def)
  note o = roundOffset_Ok [OF assms(2) this]
  show ?thesis using assms o by (auto simp: au_lookup_def res_bind_def tracks_def au_raw_view)
qed

definition res_opt :: "('e, 'a) result \<Rightarrow> 'a option" where
  "res_opt r = (case r of Ok a \<Rightarrow> Some a | _ \<Rightarrow> None)"

lemma getAssetCreator_hist:
  assumes "tracks hist chist au" and "roundOffset au rnd = Ok off"
  shows "res_opt (getAssetCreatorForRound au rnd i) = chist (unat rnd) i"
proof -
  have "unat (dbRound au) + length (deltas au) < 2 ^ 64" using assms(1) by (simp add: tracks_def au_shape_def)
  note o = roundOffset_Ok [OF assms(2) this]
  have len: "length (assetDeltas au) = length (deltas au)" using assms(1) by (simp add: tracks_def au_shape_def)
  have cache: "caches_ok au" using assms(1) by (simp add: tracks_def)
  have ans: "res_opt (creator_answer d) = creator_opt d" for d by (simp add: creator_answer_def creator_opt_def res_opt_def)
  have db: "res_opt (lookupAssetCreator (auDB au) i) = fmlookup (dbAssetcreators (auDB au)) i"
    by (simp add: lookupAssetCreator_def res_opt_def split: option.splits)
  have "res_opt (getAssetCreatorForRound au rnd i) = au_creators au (unat off) i"
  proof (cases "unat off = length (deltas au)")
    case True
    have "case fmlookup (auAssets au) i of
        None \<Rightarrow> flush_count (assetDeltas au) i = 0
      | Some m \<Rightarrow> creator_opt m = au_creators au (length (deltas au)) i"
      using asset_cacheD [OF cache, of i] by (cases "fmlookup (auAssets au) i") simp_all
    then show ?thesis
      using True latest_in_None [of "length (deltas au)" "assetDeltas au" i] len
      by (auto simp: getAssetCreatorForRound_def assms(2) res_bind_def ans db au_creators_def split: option.splits)
  next
    case False
    then show ?thesis
      by (auto simp: getAssetCreatorForRound_def assms(2) res_bind_def ans db au_creators_def split: option.splits)
  qed
  then show ?thesis using assms(1) o by (simp add: tracks_def)
qed


section \<open>Flushing keeps the history\<close>

lemma totals_chain_append:
  "totals_chain T (xs @ ys) ts ps \<longleftrightarrow>
     totals_chain T xs ts ps \<and> length xs \<le> length ts \<and> length xs \<le> length ps \<and>
     totals_chain (if xs = [] then T else ts ! (length xs - 1)) ys (drop (length xs) ts) (drop (length xs) ps)"
proof (induction xs arbitrary: T ts ps)
  case (Cons x xs)
  then show ?case by (cases ts; cases ps) (auto simp: nth_Cons')
qed simp

lemma flush_count_take_le: "flush_count (take n ds) k \<le> flush_count ds k"
  using flush_count_split [of ds k n] flush_count_nonneg [of "drop n ds" k] by simp

text \<open>Dropping the references of the first rounds: no entry is missing, and none counts too little.\<close>

lemma drop_refs_prefix:
  fixes ds :: "('k :: linorder, 'v) fmap list"
  assumes "\<And>k. flush_count ds k \<noteq> 0 \<Longrightarrow> \<exists>v. fmlookup m k = Some v \<and> flush_count ds k \<le> cnt v"
  obtains m' where "drop_refs cnt upd (flushcounts (take n ds)) m = Ok m'"
    "\<And>k. fmlookup m' k = (let c = flush_count (take n ds) k; v = the (fmlookup m k) in
       if c = 0 then fmlookup m k else if cnt v = c then None else Some (upd (cnt v - c) v))"
proof -
  let ?ks = "flushcounts (take n ds)"
  have "\<exists>v. fmlookup m k = Some v \<and> x \<le> cnt v" if "(k, x) \<in> set ?ks" for k x
  proof -
    have x: "x = flush_count (take n ds) k" "x \<noteq> 0"
      using map_of_is_SomeI [OF map_of_flushcounts(1) that] map_of_flushcounts(2) [of "take n ds" k] by (auto split: if_splits)
    then have "flush_count ds k \<noteq> 0"
      using flush_count_take_le [of n ds k] flush_count_nonneg [of "take n ds" k] by simp
    from assms [OF this] x(1) flush_count_take_le [of n ds k] show ?thesis by (metis order_trans)
  qed
  from drop_refs_Ok [where upd = upd, OF map_of_flushcounts(1) this] obtain m' where
    m': "drop_refs cnt upd ?ks m = Ok m'" "\<forall>k. fmlookup m' k = (case map_of ?ks k of None \<Rightarrow> fmlookup m k
       | Some n \<Rightarrow> (let v = the (fmlookup m k) in if cnt v = n then None else Some (upd (cnt v - n) v)))"
    by blast
  show thesis by (rule that [OF m'(1)]) (simp add: m'(2) map_of_flushcounts Let_def)
qed

lemma accounts_refs:
  assumes "caches_ok au"
  obtains as where "drop_refs maNdeltas (\<lambda>n m. m\<lparr>maNdeltas := n\<rparr>) (flushcounts (take n (deltas au))) (auAccounts au) = Ok as"
    "\<And>a. fmlookup as a = (if flush_count (drop n (deltas au)) a = 0 then None
       else Some \<lparr>maData = au_view au (length (deltas au)) a, maNdeltas = flush_count (drop n (deltas au)) a\<rparr>)"
proof -
  have acc: "fmlookup (auAccounts au) a = (if flush_count (deltas au) a = 0 then None
       else Some \<lparr>maData = au_view au (length (deltas au)) a, maNdeltas = flush_count (deltas au) a\<rparr>)" for a
    using assms by (simp add: caches_ok_def)
  obtain as where as: "drop_refs maNdeltas (\<lambda>n m. m\<lparr>maNdeltas := n\<rparr>) (flushcounts (take n (deltas au))) (auAccounts au) = Ok as"
    and look: "\<And>k. fmlookup as k = (let c = flush_count (take n (deltas au)) k; v = the (fmlookup (auAccounts au) k) in
       if c = 0 then fmlookup (auAccounts au) k else if maNdeltas v = c then None else Some (v\<lparr>maNdeltas := maNdeltas v - c\<rparr>))"
    by (rule drop_refs_prefix [of "deltas au" "auAccounts au" maNdeltas "\<lambda>n m. m\<lparr>maNdeltas := n\<rparr>" n]) (auto simp: acc)
  show thesis
  proof (rule that [OF as])
    fix a
    show "fmlookup as a = (if flush_count (drop n (deltas au)) a = 0 then None
       else Some \<lparr>maData = au_view au (length (deltas au)) a, maNdeltas = flush_count (drop n (deltas au)) a\<rparr>)"
      using flush_count_split [of "deltas au" a n] flush_count_nonneg [of "drop n (deltas au)" a]
        flush_count_nonneg [of "take n (deltas au)" a]
      by (auto simp: look acc Let_def)
  qed
qed

lemma assets_refs:
  assumes "caches_ok au"
  obtains bs where "drop_refs ndeltas (\<lambda>n m. m\<lparr>ndeltas := n\<rparr>) (flushcounts (take n (assetDeltas au))) (auAssets au) = Ok bs"
    "\<And>i. fmlookup bs i = None \<Longrightarrow> flush_count (drop n (assetDeltas au)) i = 0"
    "\<And>i m. fmlookup bs i = Some m \<Longrightarrow>
       creator_opt m = au_creators au (length (deltas au)) i \<and> flush_count (drop n (assetDeltas au)) i \<le> ndeltas m"
proof -
  note none = asset_cacheD(1) [OF assms] and some = asset_cacheD(2) [OF assms]
  note cnt = flush_count_split [of "assetDeltas au" _ n] flush_count_nonneg [of "drop n (assetDeltas au)"]
    flush_count_nonneg [of "take n (assetDeltas au)"]
  have ex: "\<exists>v. fmlookup (auAssets au) k = Some v \<and> flush_count (assetDeltas au) k \<le> ndeltas v"
    if "flush_count (assetDeltas au) k \<noteq> 0" for k
    using none [of k] some [of k] that by (cases "fmlookup (auAssets au) k") auto
  obtain bs where bs: "drop_refs ndeltas (\<lambda>n m. m\<lparr>ndeltas := n\<rparr>) (flushcounts (take n (assetDeltas au))) (auAssets au) = Ok bs"
    and look: "\<And>k. fmlookup bs k = (let c = flush_count (take n (assetDeltas au)) k; v = the (fmlookup (auAssets au) k) in
       if c = 0 then fmlookup (auAssets au) k else if ndeltas v = c then None else Some (v\<lparr>ndeltas := ndeltas v - c\<rparr>))"
    by (rule drop_refs_prefix [of "assetDeltas au" "auAssets au" ndeltas "\<lambda>n m. m\<lparr>ndeltas := n\<rparr>" n]) (use ex in auto)
  show thesis
  proof (rule that [OF bs])
    show "flush_count (drop n (assetDeltas au)) i = 0" if "fmlookup bs i = None" for i
      using that cnt [of i] none [of i] some [of i] by (cases "fmlookup (auAssets au) i") (auto simp: look Let_def split: if_splits)
    show "creator_opt m = au_creators au (length (deltas au)) i \<and> flush_count (drop n (assetDeltas au)) i \<le> ndeltas m"
      if "fmlookup bs i = Some m" for i m
      using that cnt [of i] none [of i] some [of i]
      by (cases "fmlookup (auAssets au) i") (auto simp: look Let_def creator_opt_def split: if_splits)
  qed
qed

lemma flush_rounds_no_panic:
  "totals_chain (dbAccounttotals db) ds ts ps \<Longrightarrow> flush_rounds rt rnd ds ts ps db \<noteq> Panic e"
proof (induction ds arbitrary: rnd ts ps db)
  case (Cons d ds)
  from Cons.prems obtain t ts' p ps' where ts: "ts = t # ts'" and ps: "ps = p # ps'"
    and step: "totals_step p d (dbAccounttotals db) t" and chain: "totals_chain t ds ts' ps'"
    by (cases ts; cases ps) auto
  have one: "accountsNewRound rt (rnd + 1) d (atRewardsLevel t) p db \<noteq> Panic e"
    using step update_accounts_no_panic
    by (fastforce simp: accountsNewRound_def res_bind_def totals_step_def split: result.splits if_splits)
  show ?case
  proof (cases "accountsNewRound rt (rnd + 1) d (atRewardsLevel t) p db")
    case (Ok db1)
    with Cons.IH [of db1] chain accountsNewRound_Ok(3) [OF Ok step refl] show ?thesis
      by (simp add: ts ps res_bind_def)
  qed (use one in \<open>simp_all add: ts ps res_bind_def\<close>)
qed simp

lemma au_view_flushed:
  assumes "codec_ok rt" and "au_shape au" and "n \<le> length (deltas au)"
    and "flush_rounds rt (dbRound au) (take n (deltas au)) (tl (roundTotals au)) (tl (protos au)) (auDB au) = Ok db"
  shows "dbAcctrounds db = dbRound au + of_nat n" "dbAccounttotals db = roundTotals au ! n"
    "same_account (db_lookup db a) (au_view au n a)"
    "fmlookup (dbAssetcreators db) i = au_creators au n i"
proof -
  have chain: "totals_chain (dbAccounttotals (auDB au)) (take n (deltas au)) (tl (roundTotals au)) (tl (protos au))"
    using assms(2) totals_chain_append [of _ "take n (deltas au)" "drop n (deltas au)"] by (simp add: au_shape_def)
  have r: "dbAcctrounds (auDB au) = dbRound au" using assms(2) by (simp add: au_shape_def)
  note f = flush_rounds_Ok [OF assms(4) chain r assms(1)]
  have len: "length (take n (deltas au)) = n" using assms(3) by simp
  show "dbAcctrounds db = dbRound au + of_nat n" using f len by simp
  show "dbAccounttotals db = roundTotals au ! n"
  proof -
    have ne: "roundTotals au \<noteq> []" using assms(2) by (auto simp: au_shape_def)
    show ?thesis using f len assms(2) by (cases n) (auto simp: au_shape_def hd_conv_nth [OF ne] nth_tl)
  qed
  show "same_account (db_lookup db a) (au_view au n a)"
    using f by (simp add: len latest_in_take au_view_def assms(3) split: option.splits)
  have "assetDeltas au = map (\<lambda>d. asset_changes (entries d)) (deltas au)" using assms(2) by (simp add: au_shape_def)
  then show "fmlookup (dbAssetcreators db) i = au_creators au n i"
    using f assms(3) by (simp add: len latest_in_take au_creators_def take_map [symmetric] split: option.splits)
qed


lemma commit_shape:
  assumes "au_shape au" and "n \<le> length (deltas au)"
    and "dbAcctrounds db = dbRound au + of_nat n" "dbAccounttotals db = roundTotals au ! n"
  shows "au_shape (au\<lparr>auAccounts := as, auAssets := bs, deltas := drop n (deltas au), protos := drop n (protos au),
       roundTotals := drop n (roundTotals au), assetDeltas := drop n (assetDeltas au), auDB := db, dbRound := dbRound au + of_nat n\<rparr>)"
proof -
  have base: "unat (dbRound au + of_nat n) = unat (dbRound au) + n"
    using assms(1,2) by (intro unat_add_of_nat) (simp add: au_shape_def)
  have ne: "n < length (roundTotals au)" using assms(1,2) by (simp add: au_shape_def)
  have len: "length (take n (deltas au)) = n" using assms(2) by simp
  have "totals_chain (hd (roundTotals au)) (take n (deltas au) @ drop n (deltas au)) (tl (roundTotals au)) (tl (protos au))"
    using assms(1) by (simp add: au_shape_def)
  then have "totals_chain (if take n (deltas au) = [] then hd (roundTotals au) else tl (roundTotals au) ! (n - 1)) (drop n (deltas au))
      (drop n (tl (roundTotals au))) (drop n (tl (protos au)))"
    unfolding totals_chain_append len by blast
  moreover have "(if take n (deltas au) = [] then hd (roundTotals au) else tl (roundTotals au) ! (n - 1)) = roundTotals au ! n"
    using assms(1,2) ne by (cases n; cases "roundTotals au") auto
  ultimately show ?thesis
    using assms base hd_drop_conv_nth [OF ne]
    by (simp add: au_shape_def drop_map drop_Suc tl_drop)
qed

lemma caches_okI:
  assumes "\<And>a. fmlookup (auAccounts au) a = (if flush_count (deltas au) a = 0 then None
         else Some \<lparr>maData = au_view au (length (deltas au)) a, maNdeltas = flush_count (deltas au) a\<rparr>)"
    and "\<And>i. fmlookup (auAssets au) i = None \<Longrightarrow> flush_count (assetDeltas au) i = 0"
    and "\<And>i m. fmlookup (auAssets au) i = Some m \<Longrightarrow>
       creator_opt m = au_creators au (length (deltas au)) i \<and> flush_count (assetDeltas au) i \<le> ndeltas m"
  shows "caches_ok au"
proof -
  have "case fmlookup (auAssets au) i of None \<Rightarrow> flush_count (assetDeltas au) i = 0
      | Some m \<Rightarrow> creator_opt m = au_creators au (length (deltas au)) i \<and> flush_count (assetDeltas au) i \<le> ndeltas m" for i
    using assms(2,3) [of i] by (cases "fmlookup (auAssets au) i") simp_all
  with assms(1) show ?thesis by (simp add: caches_ok_def)
qed

definition refs_dropped ::
    "nat \<Rightarrow> accountUpdates \<Rightarrow> (Address, modifiedAccount) fmap \<Rightarrow> (AssetIndex, modifiedAsset) fmap \<Rightarrow> bool" where
  "refs_dropped n au as bs \<longleftrightarrow>
     (\<forall>a. fmlookup as a = (if flush_count (drop n (deltas au)) a = 0 then None
        else Some \<lparr>maData = au_view au (length (deltas au)) a, maNdeltas = flush_count (drop n (deltas au)) a\<rparr>)) \<and>
     (\<forall>i. fmlookup bs i = None \<longrightarrow> flush_count (drop n (assetDeltas au)) i = 0) \<and>
     (\<forall>i m. fmlookup bs i = Some m \<longrightarrow>
        creator_opt m = au_creators au (length (deltas au)) i \<and> flush_count (drop n (assetDeltas au)) i \<le> ndeltas m)"

lemma refs_Ok:
  assumes "caches_ok au"
  shows "\<exists>as bs. drop_refs maNdeltas (\<lambda>n m. m\<lparr>maNdeltas := n\<rparr>) (flushcounts (take n (deltas au))) (auAccounts au) = Ok as \<and>
    drop_refs ndeltas (\<lambda>n m. m\<lparr>ndeltas := n\<rparr>) (flushcounts (take n (assetDeltas au))) (auAssets au) = Ok bs \<and>
    refs_dropped n au as bs"
  by (rule accounts_refs [OF assms, of n], rule assets_refs [OF assms, of n]) (simp add: refs_dropped_def)

lemma flushed_tracks:
  assumes tr: "tracks hist chist au" and rt: "codec_ok rt" and n: "n \<le> length (deltas au)"
    and fl: "flush_rounds rt (dbRound au) (take n (deltas au)) (tl (roundTotals au)) (tl (protos au)) (auDB au) = Ok db"
    and refs: "refs_dropped n au as bs"
  shows "tracks hist chist (au\<lparr>auAccounts := as, auAssets := bs, deltas := drop n (deltas au), protos := drop n (protos au),
       roundTotals := drop n (roundTotals au), assetDeltas := drop n (assetDeltas au), auDB := db, dbRound := dbRound au + of_nat n\<rparr>)"
    (is "tracks hist chist ?au")
proof -
  have as: "fmlookup as a = (if flush_count (drop n (deltas au)) a = 0 then None
       else Some \<lparr>maData = au_view au (length (deltas au)) a, maNdeltas = flush_count (drop n (deltas au)) a\<rparr>)" for a
    using refs by (simp add: refs_dropped_def)
  have shape: "au_shape au" using tr by (simp add: tracks_def)
  note v = au_view_flushed [OF rt shape n fl]
  have base: "unat (dbRound au + of_nat n) = unat (dbRound au) + n"
    using shape n by (intro unat_add_of_nat) (simp add: au_shape_def)
  have len: "length (assetDeltas au) = length (deltas au)" using shape by (simp add: au_shape_def)
  let ?k = "length (deltas au) - n"
  have acc: "same_account (au_view ?au m a) (au_view au (n + m) a)" if "m \<le> ?k" for m a
    using latest_in_drop [of n m "deltas au" a] that n v(3) [of a]
    by (auto simp: au_view_def split: option.splits)
  have exact: "au_view ?au ?k a = au_view au (length (deltas au)) a" if "flush_count (drop n (deltas au)) a \<noteq> 0" for a
    using latest_in_drop [of n ?k "deltas au" a] latest_in_None [of ?k "drop n (deltas au)" a] that n
    by (auto simp: au_view_def)
  have cre: "au_creators ?au m = au_creators au (n + m)" if "m \<le> ?k" for m
    using latest_in_drop [of n m "assetDeltas au"] that n len
    by (intro ext) (auto simp: au_creators_def v(4) split: option.splits)
  have "caches_ok ?au"
    by (rule caches_okI) (use refs cre [of ?k] n in \<open>simp_all add: as exact refs_dropped_def\<close>)
  moreover have "au_shape ?au" using shape n v(1,2) by (rule commit_shape)
  moreover have "\<forall>m \<le> ?k. \<forall>a. same_account (au_view ?au m a) (hist (unat (dbRound au) + n + m) a)"
  proof (intro allI impI)
    fix m a assume m: "m \<le> ?k"
    have "same_account (au_view au (n + m) a) (hist (unat (dbRound au) + (n + m)) a)"
      using tr n m by (simp add: tracks_def)
    with acc [OF m] show "same_account (au_view ?au m a) (hist (unat (dbRound au) + n + m) a)"
      unfolding add.assoc by (rule same_account_trans)
  qed
  moreover have "\<forall>m \<le> ?k. au_creators ?au m = chist (unat (dbRound au) + n + m)"
    using cre tr n unfolding tracks_def by (simp add: add.assoc)
  ultimately show ?thesis by (simp add: tracks_def base)
qed

text \<open>Flushing never disturbs the rounds that stay in the window, and never panics.\<close>

lemma au_committedUpTo_tracks:
  assumes tr: "tracks hist chist au" and rt: "codec_ok rt"
    and run: "au_committedUpTo rt fault due rnd au = (r, au')"
  shows "tracks hist chist au' \<and> (\<forall>e. r \<noteq> Err e) \<and>
    (rnd \<le> au_latest au \<longrightarrow> (\<exists>b. r = Ok b \<and> (b = 0 \<or> b = dbRound au')))"
proof -
  let ?lb = "MaxBalLookback (last (protos au))"
  let ?n = "unat (rnd - ?lb - dbRound au)"
  have shape: "au_shape au" and cache: "caches_ok au" using tr by (simp_all add: tracks_def)
  show ?thesis
  proof (cases "?lb \<le> rnd \<and> dbRound au < rnd - ?lb \<and> rnd - ?lb \<le> au_latest au \<and> due \<and> \<not> fault \<and>
      (\<exists>db. flush_rounds rt (dbRound au) (take ?n (deltas au)) (tl (roundTotals au)) (tl (protos au)) (auDB au) = Ok db)")
    case False
    have np: "flush_rounds rt (dbRound au) (take ?n (deltas au)) (tl (roundTotals au)) (tl (protos au)) (auDB au) \<noteq> Panic e" for e
      using shape totals_chain_append [of _ "take ?n (deltas au)" "drop ?n (deltas au)"]
      by (intro flush_rounds_no_panic) (simp add: au_shape_def)
    have small: "rnd \<le> au_latest au \<Longrightarrow> ?lb \<le> rnd \<Longrightarrow> rnd - ?lb \<le> au_latest au"
      by (meson order_trans word_sub_le)
    show ?thesis
      using run False np small tr
      by (auto simp: au_committedUpTo_def Let_def not_le not_less split: if_splits result.splits)
  next
    case True
    then obtain db where fl: "flush_rounds rt (dbRound au) (take ?n (deltas au)) (tl (roundTotals au)) (tl (protos au)) (auDB au) = Ok db"
      by blast
    have lim: "unat (dbRound au) + length (deltas au) < 2 ^ 64" using shape by (simp add: au_shape_def)
    have le: "dbRound au \<le> rnd - ?lb" using True less_imp_le by blast
    have n: "?n \<le> length (deltas au)"
      using True unat_add_of_nat [OF lim] unfolding unat_sub [OF le] by (auto simp: au_latest_def word_le_nat_alt)
    obtain as bs where d: "drop_refs maNdeltas (\<lambda>n m. m\<lparr>maNdeltas := n\<rparr>) (flushcounts (take ?n (deltas au))) (auAccounts au) = Ok as"
        "drop_refs ndeltas (\<lambda>n m. m\<lparr>ndeltas := n\<rparr>) (flushcounts (take ?n (assetDeltas au))) (auAssets au) = Ok bs"
      and refs: "refs_dropped ?n au as bs"
      using refs_Ok [OF cache] by blast
    have "r = Ok (rnd - ?lb)" "au' = (au\<lparr>auAccounts := as, auAssets := bs, deltas := drop ?n (deltas au), protos := drop ?n (protos au),
       roundTotals := drop ?n (roundTotals au), assetDeltas := drop ?n (assetDeltas au), auDB := db, dbRound := dbRound au + of_nat ?n\<rparr>)"
      using run True fl d
      by (auto simp: au_committedUpTo_def drop_flushed_def Let_def res_bind_def not_le not_less split: if_splits)
    then show ?thesis using flushed_tracks [OF tr rt n fl refs] by simp
  qed
qed


section \<open>A new block\<close>

definition bump :: "Address \<times> accountDelta \<Rightarrow> accountUpdates \<Rightarrow> accountUpdates" where
  "bump = (\<lambda>(addr, data) au.
     let adeltas = getChangedAssetIndices addr data in
     au\<lparr>auAccounts := bump_account addr (new data) (auAccounts au),
        auAssets := fold (bump_asset addr) (entries adeltas) (auAssets au),
        assetDeltas := butlast (assetDeltas au) @ [last (assetDeltas au) ++\<^sub>f adeltas]\<rparr>)"

lemma new_accounts_run:
  "new_accounts proto us tot au = (Ok t, au') \<longleftrightarrow> totals_fold proto us tot = Ok t \<and> au' = fold bump us au"
proof (induction proto us tot arbitrary: au rule: new_accounts.induct)
  case (2 proto addr data rest tot)
  show ?case by (auto simp: act_simps 2 bump_def)
qed (auto simp: act_simps)

lemma totals_fold_level:
  "totals_fold proto us (T, ot) = Ok (t, ot') \<Longrightarrow> atRewardsLevel t = atRewardsLevel T"
proof (induction us arbitrary: T ot)
  case (Cons u us)
  obtain addr data where u: "u = (addr, data)" by force
  have keeps: "atRewardsLevel at' = atRewardsLevel at" if "delAccount proto d (at, o1) = Ok (at', o2) \<or> addAccount proto d (at, o1) = Ok (at', o2)"
    for d at o1 at' o2
    using that by (cases "acctStatus d") (auto simp: delAccount_def addAccount_def act_simps Let_def set_statusField_def case_prod_unfold)
  from Cons.prems obtain T1 o1 T2 o2 where "delAccount proto (old data) (T, ot) = Ok (T1, o1)"
    "addAccount proto (new data) (T1, o1) = Ok (T2, o2)" and r: "totals_fold proto us (T2, o2) = Ok (t, ot')"
    by (auto simp: u act_simps)
  with Cons.IH [OF r] keeps show ?case by metis
qed simp

lemma fold_bump_asset:
  assumes "distinct (map fst xs)"
  shows "fmlookup (fold (bump_asset addr) xs as) i =
    (case map_of xs i of None \<Rightarrow> fmlookup as i
     | Some d \<Rightarrow> Some \<lparr>created = created d, creator = addr,
                       ndeltas = (case fmlookup as i of None \<Rightarrow> 0 | Some m \<Rightarrow> ndeltas m) + 1\<rparr>)"
  using assms
proof (induction xs arbitrary: as)
  case (Cons x xs)
  obtain j d where x: "x = (j, d)" by force
  have "map_of xs j = None" using Cons.prems by (simp add: x map_of_eq_None_iff)
  then show ?case using Cons by (auto simp: x bump_asset_def split: option.splits)
qed simp

lemma bump_frame:
  "deltas (fold bump us au) = deltas au" "protos (fold bump us au) = protos au"
  "roundTotals (fold bump us au) = roundTotals au" "auDB (fold bump us au) = auDB au" "dbRound (fold bump us au) = dbRound au"
  by (induction us arbitrary: au) (auto simp: bump_def Let_def split: prod.splits)

lemma bump_assetDeltas:
  "assetDeltas (fold bump us (au\<lparr>assetDeltas := ds @ [m]\<rparr>)) = ds @ [m ++\<^sub>f asset_changes us]"
proof (induction us arbitrary: au m)
  case (Cons u us)
  obtain addr data where u: "u = (addr, data)" by force
  have "bump u (au\<lparr>assetDeltas := ds @ [m]\<rparr>) = (bump u (au\<lparr>assetDeltas := ds @ [m]\<rparr>))\<lparr>assetDeltas := ds @ [m ++\<^sub>f getChangedAssetIndices addr data]\<rparr>"
    by (simp add: u bump_def Let_def)
  then show ?case using Cons.IH [of "m ++\<^sub>f getChangedAssetIndices addr data" "bump u (au\<lparr>assetDeltas := ds @ [m]\<rparr>)"]
    by (simp add: u fmadd_assoc)
qed simp

lemma bump_accounts:
  assumes "distinct (map fst us)"
  shows "fmlookup (auAccounts (fold bump us au)) a =
    (case map_of us a of None \<Rightarrow> fmlookup (auAccounts au) a
     | Some d \<Rightarrow> Some \<lparr>maData = new d,
                       maNdeltas = (case fmlookup (auAccounts au) a of None \<Rightarrow> 0 | Some m \<Rightarrow> maNdeltas m) + 1\<rparr>)"
  using assms
proof (induction us arbitrary: au)
  case (Cons u us)
  obtain addr data where u: "u = (addr, data)" by force
  have "map_of us addr = None" using Cons.prems by (simp add: u map_of_eq_None_iff)
  then show ?case using Cons by (auto simp: u bump_def bump_account_def Let_def split: option.splits)
qed simp

definition asset_count :: "(AssetIndex, modifiedAsset) fmap \<Rightarrow> AssetIndex \<Rightarrow> int" where
  "asset_count as i = (case fmlookup as i of None \<Rightarrow> 0 | Some m \<Rightarrow> ndeltas m)"

lemma bump_asset_one:
  "fmlookup (auAssets (bump (addr, data) au)) i =
     (case fmlookup (getChangedAssetIndices addr data) i of None \<Rightarrow> fmlookup (auAssets au) i
      | Some d \<Rightarrow> Some \<lparr>created = created d, creator = addr, ndeltas = asset_count (auAssets au) i + 1\<rparr>)"
  by (simp add: bump_def Let_def fold_bump_asset distinct_entries asset_count_def split: option.splits)

lemma asset_changes_Cons:
  "fmlookup (asset_changes ((addr, data) # us)) i =
     (case fmlookup (asset_changes us) i of None \<Rightarrow> fmlookup (getChangedAssetIndices addr data) i | Some d \<Rightarrow> Some d)"
  by (auto simp: fmdom_notD split: option.splits dest: fmdomI)

lemma bump_assets_None:
  "fmlookup (asset_changes us) i = None \<Longrightarrow> fmlookup (auAssets (fold bump us au)) i = fmlookup (auAssets au) i"
proof (induction us arbitrary: au)
  case (Cons u us)
  then show ?case by (cases u) (simp add: asset_changes_Cons bump_asset_one del: asset_changes.simps split: option.splits)
qed simp

lemma bump_assets_Some:
  "fmlookup (asset_changes us) i = Some d \<Longrightarrow>
     \<exists>m. fmlookup (auAssets (fold bump us au)) i = Some m \<and> creator_opt m = creator_opt d \<and> asset_count (auAssets au) i < ndeltas m"
proof (induction us arbitrary: au)
  case (Cons u us)
  obtain addr data where u: "u = (addr, data)" by force
  have le: "asset_count (auAssets au) i \<le> asset_count (auAssets (bump u au)) i"
    unfolding u asset_count_def [of "auAssets (bump _ _)"] bump_asset_one
    by (cases "fmlookup (getChangedAssetIndices addr data) i") (simp_all add: asset_count_def)
  show ?case
  proof (cases "fmlookup (asset_changes us) i")
    case (Some d')
    then have "d' = d" using Cons.prems by (simp add: u asset_changes_Cons del: asset_changes.simps)
    with Cons.IH [of "bump u au"] Some le show ?thesis by (auto intro: order_le_less_trans)
  next
    case None
    then have g: "fmlookup (getChangedAssetIndices addr data) i = Some d"
      using Cons.prems by (simp add: u asset_changes_Cons del: asset_changes.simps)
    then show ?thesis
      using bump_assets_None [OF None, of "bump u au"] changed_creator [OF g]
      by (simp add: u bump_asset_one creator_opt_def)
  qed
qed simp

lemma au_newBlock_Ok:
  assumes "au_newBlock blk delta au = (Ok u, au')" and "Block_Round blk = au_latest au + 1" and "au_latest au < - 1"
  obtains t ot where
    "totals_fold (ConsensusProtocol blk) (entries (accts delta))
       (Totals_applyRewards (RewardsLevel (bhRewards (hdr delta))) (last (roundTotals au), ot_new)) = Ok (t, ot)"
    "\<not> Overflowed ot" "All (last (roundTotals au)) = All t"
    "au' = (fold bump (entries (accts delta)) (au\<lparr>deltas := deltas au @ [accts delta], protos := protos au @ [ConsensusProtocol blk],
         assetDeltas := assetDeltas au @ [fmempty]\<rparr>))\<lparr>roundTotals := roundTotals au @ [t]\<rparr>"
proof -
  have less: "\<not> au_latest au + 1 \<le> au_latest au"
    using unat_Suc_below [OF assms(3)] by (simp add: word_le_nat_alt)
  let ?au = "au\<lparr>deltas := deltas au @ [accts delta], protos := protos au @ [ConsensusProtocol blk],
         assetDeltas := assetDeltas au @ [fmempty]\<rparr>"
  from assms(1,2) less obtain a t ot where "All (last (roundTotals au)) = Ok a" "All t = Ok a" "\<not> Overflowed ot"
    "totals_fold (ConsensusProtocol blk) (entries (accts delta))
       (Totals_applyRewards (RewardsLevel (bhRewards (hdr delta))) (last (roundTotals au), ot_new)) = Ok (t, ot)"
    "au' = (fold bump (entries (accts delta)) ?au)\<lparr>roundTotals := roundTotals (fold bump (entries (accts delta)) ?au) @ [t]\<rparr>"
    by (auto simp: au_newBlock_def Let_def act_simps new_accounts_run split: if_splits)
  then show ?thesis by (intro that) (simp_all add: bump_frame)
qed

section \<open>A new block extends the history\<close>

definition creators_after :: "(AssetIndex \<Rightarrow> Address option) \<Rightarrow> StateDelta \<Rightarrow> AssetIndex \<Rightarrow> Address option" where
  "creators_after c delta i =
     (case fmlookup (asset_changes (entries (accts delta))) i of Some d \<Rightarrow> creator_opt d | None \<Rightarrow> c i)"

lemma latest_in_snoc:
  "latest_in (ds @ [d]) (Suc (length ds)) k = (case fmlookup d k of Some v \<Rightarrow> Some v | None \<Rightarrow> latest_in ds (length ds) k)"
  by (simp split: option.splits)

lemma flush_count_snoc: "flush_count (ds @ [d]) k = flush_count ds k + (if fmlookup d k = None then 0 else 1)"
  by (simp add: flush_count_def)

text \<open>What a new block adds to the tracker.\<close>

definition extends :: "accountUpdates \<Rightarrow> StateDelta \<Rightarrow> ConsensusParams \<Rightarrow> AccountTotals \<Rightarrow> accountUpdates \<Rightarrow> bool" where
  "extends au delta p t au' \<longleftrightarrow>
     deltas au' = deltas au @ [accts delta] \<and> protos au' = protos au @ [p] \<and> roundTotals au' = roundTotals au @ [t] \<and>
     auDB au' = auDB au \<and> dbRound au' = dbRound au \<and>
     assetDeltas au' = assetDeltas au @ [asset_changes (entries (accts delta))] \<and>
     totals_step p (accts delta) (last (roundTotals au)) t \<and>
     (\<forall>a. fmlookup (auAccounts au') a =
       (case fmlookup (accts delta) a of None \<Rightarrow> fmlookup (auAccounts au) a
        | Some d \<Rightarrow> Some \<lparr>maData = new d,
             maNdeltas = (case fmlookup (auAccounts au) a of None \<Rightarrow> 0 | Some m \<Rightarrow> maNdeltas m) + 1\<rparr>)) \<and>
     (\<forall>i. fmlookup (asset_changes (entries (accts delta))) i = None \<longrightarrow> fmlookup (auAssets au') i = fmlookup (auAssets au) i) \<and>
     (\<forall>i d. fmlookup (asset_changes (entries (accts delta))) i = Some d \<longrightarrow>
       (\<exists>m. fmlookup (auAssets au') i = Some m \<and> creator_opt m = creator_opt d \<and> asset_count (auAssets au) i < ndeltas m))"

lemma newBlock_extends:
  assumes "au_newBlock blk delta au = (Ok u, au')" and "Block_Round blk = au_latest au + 1" and "au_latest au < - 1"
  obtains t where "extends au delta (ConsensusProtocol blk) t au'" "atRewardsLevel t = RewardsLevel (bhRewards (hdr delta))"
    "All (last (roundTotals au)) = All t"
  using assms
proof (rule au_newBlock_Ok)
  fix t ot
  let ?us = "entries (accts delta)" and ?lvl = "RewardsLevel (bhRewards (hdr delta))"
  let ?au = "au\<lparr>deltas := deltas au @ [accts delta], protos := protos au @ [ConsensusProtocol blk],
         assetDeltas := assetDeltas au @ [fmempty]\<rparr>"
  assume tot: "totals_fold (ConsensusProtocol blk) ?us (Totals_applyRewards ?lvl (last (roundTotals au), ot_new)) = Ok (t, ot)"
    and ov: "\<not> Overflowed ot" and all: "All (last (roundTotals au)) = All t"
    and au': "au' = (fold bump ?us ?au)\<lparr>roundTotals := roundTotals au @ [t]\<rparr>"
  obtain T o1 where T: "Totals_applyRewards ?lvl (last (roundTotals au), ot_new) = (T, o1)" by force
  have lvl: "atRewardsLevel t = ?lvl"
    using totals_fold_level [OF tot [unfolded T]] T by (auto simp: Totals_applyRewards_def Let_def case_prod_unfold)
  then have step: "totals_step (ConsensusProtocol blk) (accts delta) (last (roundTotals au)) t"
    using tot ov by (auto simp: totals_step_def)
  have ad: "assetDeltas (fold bump ?us ?au) = assetDeltas au @ [asset_changes ?us]"
    using bump_assetDeltas [where ds = "assetDeltas au" and m = fmempty and us = ?us and au = ?au] by simp
  have "extends au delta (ConsensusProtocol blk) t au'"
    unfolding extends_def au'
    using step ad bump_assets_None [of ?us _ ?au] bump_assets_Some [of ?us _ _ ?au]
    by (simp add: bump_frame bump_accounts [OF distinct_entries] split: option.splits)
  then show ?thesis using lvl all by (rule that)
qed

lemma extends_view:
  assumes "extends au delta p t au'" and "n \<le> length (deltas au)" and "length (assetDeltas au) = length (deltas au)"
  shows "au_view au' n = au_view au n" "au_creators au' n = au_creators au n"
    "au_view au' (Suc (length (deltas au))) a = (case fmlookup (accts delta) a of Some d \<Rightarrow> new d | None \<Rightarrow> au_view au (length (deltas au)) a)"
    "au_creators au' (Suc (length (deltas au))) = creators_after (au_creators au (length (deltas au))) delta"
proof -
  have f: "deltas au' = deltas au @ [accts delta]" "auDB au' = auDB au"
      "assetDeltas au' = assetDeltas au @ [asset_changes (entries (accts delta))]"
    using assms(1) by (simp_all add: extends_def)
  show "au_view au' n = au_view au n" "au_creators au' n = au_creators au n"
    using assms(2,3) by (simp_all add: au_view_def au_creators_def f fun_eq_iff split: option.splits)
  show "au_view au' (Suc (length (deltas au))) a = (case fmlookup (accts delta) a of Some d \<Rightarrow> new d | None \<Rightarrow> au_view au (length (deltas au)) a)"
    by (simp add: au_view_def f latest_in_snoc del: latest_in.simps split: option.splits)
  show "au_creators au' (Suc (length (deltas au))) = creators_after (au_creators au (length (deltas au))) delta"
    using latest_in_snoc [of "assetDeltas au" "asset_changes (entries (accts delta))"] assms(3)
    by (simp add: au_creators_def creators_after_def f fun_eq_iff del: latest_in.simps split: option.splits)
qed

lemma extends_caches:
  assumes ext: "extends au delta p t au'" and cache: "caches_ok au" and len: "length (assetDeltas au) = length (deltas au)"
  shows "caches_ok au'"
proof (rule caches_okI)
  have f: "deltas au' = deltas au @ [accts delta]" "assetDeltas au' = assetDeltas au @ [asset_changes (entries (accts delta))]"
    using ext by (simp_all add: extends_def)
  note v = extends_view(3,4) [OF ext le_refl len]
  have acc: "fmlookup (auAccounts au) a = (if flush_count (deltas au) a = 0 then None
       else Some \<lparr>maData = au_view au (length (deltas au)) a, maNdeltas = flush_count (deltas au) a\<rparr>)" for a
    using cache by (simp add: caches_ok_def)
  show "fmlookup (auAccounts au') a = (if flush_count (deltas au') a = 0 then None
         else Some \<lparr>maData = au_view au' (length (deltas au')) a, maNdeltas = flush_count (deltas au') a\<rparr>)" for a
  proof -
    have "fmlookup (auAccounts au') a = (case fmlookup (accts delta) a of None \<Rightarrow> fmlookup (auAccounts au) a
        | Some d \<Rightarrow> Some \<lparr>maData = new d,
             maNdeltas = (case fmlookup (auAccounts au) a of None \<Rightarrow> 0 | Some m \<Rightarrow> maNdeltas m) + 1\<rparr>)"
      using ext by (simp add: extends_def)
    then show ?thesis
      using flush_count_nonneg [of "deltas au" a]
      by (cases "fmlookup (accts delta) a") (auto simp: f flush_count_snoc acc v(1))
  qed
  let ?ch = "fmlookup (asset_changes (entries (accts delta)))"
  show "flush_count (assetDeltas au') i = 0" if "fmlookup (auAssets au') i = None" for i
  proof -
    have "?ch i = None" using that ext by (cases "?ch i") (fastforce simp: extends_def)+
    moreover from this have "fmlookup (auAssets au) i = None" using that ext by (simp add: extends_def)
    ultimately show ?thesis using asset_cacheD(1) [OF cache] by (simp add: f flush_count_snoc)
  qed
  show "creator_opt m = au_creators au' (length (deltas au')) i \<and> flush_count (assetDeltas au') i \<le> ndeltas m"
    if "fmlookup (auAssets au') i = Some m" for i m
  proof (cases "?ch i")
    case None
    then have "fmlookup (auAssets au) i = Some m" using ext that by (simp add: extends_def)
    from asset_cacheD(2) [OF cache this] None show ?thesis by (simp add: f flush_count_snoc v(2) creators_after_def)
  next
    case (Some d)
    then have m: "creator_opt m = creator_opt d" "asset_count (auAssets au) i < ndeltas m"
      using ext that by (fastforce simp: extends_def)+
    have "flush_count (assetDeltas au) i \<le> asset_count (auAssets au) i"
      using asset_cacheD [OF cache, of i] by (cases "fmlookup (auAssets au) i") (simp_all add: asset_count_def)
    then show ?thesis using m Some by (simp add: f flush_count_snoc v(2) creators_after_def)
  qed
qed

lemma extends_shape:
  assumes ext: "extends au delta p t au'" and shape: "au_shape au" and lim: "unat (dbRound au) + Suc (length (deltas au)) < 2 ^ 64"
  shows "au_shape au'"
proof -
  have ne: "roundTotals au \<noteq> []" "protos au \<noteq> []" using shape by (auto simp: au_shape_def)
  have l: "length (tl (roundTotals au)) = length (deltas au)" "length (tl (protos au)) = length (deltas au)"
    using shape by (simp_all add: au_shape_def)
  have last: "(if deltas au = [] then hd (roundTotals au) else (tl (roundTotals au) @ [t]) ! (length (deltas au) - 1)) = last (roundTotals au)"
    using ne l by (cases "roundTotals au") (auto simp: nth_append last_conv_nth)
  have prefix: "totals_chain T ds (ts @ [t]) (ps @ [p])" if "totals_chain T ds ts ps" for T ds ts ps
    using that by (induction T ds ts ps rule: totals_chain.induct) auto
  have "totals_chain (hd (roundTotals au)) (deltas au @ [accts delta]) (tl (roundTotals au) @ [t]) (tl (protos au) @ [p])"
    unfolding totals_chain_append last
    using prefix shape ext l by (simp add: au_shape_def extends_def)
  then show ?thesis
    using ext shape ne lim by (simp add: au_shape_def extends_def)
qed

text \<open>The tracker after a new block has the history extended by the block's effect.\<close>

lemma newBlock_tracks:
  assumes tr: "tracks hist chist au" and run: "au_newBlock blk delta au = (Ok u, au')"
    and rnd: "Block_Round blk = au_latest au + 1" "au_latest au < - 1"
  defines "L \<equiv> unat (au_latest au)"
  shows "tracks (hist(Suc L := after_delta (hist L) delta)) (chist(Suc L := creators_after (chist L) delta)) au'"
  using run rnd
proof (rule newBlock_extends)
  fix t
  assume ext: "extends au delta (ConsensusProtocol blk) t au'"
  let ?n = "length (deltas au)"
  have shape: "au_shape au" and cache: "caches_ok au" using tr by (simp_all add: tracks_def)
  have len: "length (assetDeltas au) = ?n" and lim: "unat (dbRound au) + ?n < 2 ^ 64"
    using shape by (simp_all add: au_shape_def)
  have L: "L = unat (dbRound au) + ?n" unfolding L_def au_latest_def by (rule unat_add_of_nat [OF lim])
  have lim': "unat (dbRound au) + Suc ?n < 2 ^ 64"
  proof -
    have "unat (au_latest au + 1) < 2 ^ 64" using unsigned_less [of "au_latest au + 1"] by simp
    then show ?thesis using unat_Suc_below [OF rnd(2)] L by (simp add: L_def)
  qed
  have f: "length (deltas au') = Suc ?n" "dbRound au' = dbRound au" using ext by (simp_all add: extends_def)
  have last: "same_account (au_view au ?n a) (hist L a)" for a using tr by (simp add: tracks_def L)
  have "same_account (au_view au' m a) ((hist(Suc L := after_delta (hist L) delta)) (unat (dbRound au) + m) a)" if "m \<le> Suc ?n" for m a
  proof (cases "m = Suc ?n")
    case True
    then show ?thesis using last extends_view(3) [OF ext le_refl len, of a]
      by (simp add: L after_delta_def split: option.splits)
  next
    case False
    with that have "m \<le> ?n" by simp
    then show ?thesis using tr by (simp add: extends_view(1) [OF ext _ len] L tracks_def)
  qed
  moreover have "au_creators au' m = (chist(Suc L := creators_after (chist L) delta)) (unat (dbRound au) + m)" if "m \<le> Suc ?n" for m
  proof (cases "m = Suc ?n")
    case True
    then show ?thesis using tr by (simp add: extends_view(4) [OF ext le_refl len] L tracks_def)
  next
    case False
    with that have "m \<le> ?n" by simp
    then show ?thesis using tr by (simp add: extends_view(2) [OF ext _ len] L tracks_def)
  qed
  ultimately show ?thesis
    using extends_shape [OF ext shape lim'] extends_caches [OF ext cache len] f by (simp add: tracks_def)
qed


section \<open>Runs of the tracker\<close>

text \<open>
  The states the tracker goes through with the accounts and asset creators after every round: blocks arrive in order,
  and rounds are written to the database at any time, with any outcome of the transaction.
\<close>

inductive tracker_reaches ::
    "(AccountData \<Rightarrow> AccountData) \<Rightarrow> (nat \<Rightarrow> accounts) \<Rightarrow> (nat \<Rightarrow> AssetIndex \<Rightarrow> Address option) \<Rightarrow> accountUpdates \<Rightarrow> bool"
  for rt :: "AccountData \<Rightarrow> AccountData" where
  loaded: "tracks hist chist au \<Longrightarrow> deltas au = [] \<Longrightarrow> tracker_reaches rt hist chist au"
| block: "tracker_reaches rt hist chist au \<Longrightarrow> au_newBlock blk delta au = (Ok u, au') \<Longrightarrow>
    Block_Round blk = au_latest au + 1 \<Longrightarrow> au_latest au < - 1 \<Longrightarrow> L = unat (au_latest au) \<Longrightarrow>
    tracker_reaches rt (hist(Suc L := after_delta (hist L) delta)) (chist(Suc L := creators_after (chist L) delta)) au'"
| commit: "tracker_reaches rt hist chist au \<Longrightarrow> au_committedUpTo rt fault due rnd au = (r, au') \<Longrightarrow> tracker_reaches rt hist chist au'"

lemma tracker_reaches_tracks:
  assumes "tracker_reaches rt hist chist au" and rt: "codec_ok rt"
  shows "tracks hist chist au"
  using assms(1)
proof induction
  case (block hist chist au blk delta u au' L)
  then show ?case using newBlock_tracks by metis
next
  case (commit hist chist au fault due rnd r au')
  then show ?case using au_committedUpTo_tracks [OF _ rt] by blast
qed

end
