(* ===== verification/Acceptance.thy ===== *)
theory Acceptance
  imports AcctUpdates_Laws
begin

text \<open>
  The evaluator and the account tracker together: the totals do not overflow while the money of
  the ledger fits its bounds, every account a block writes is settled by the new rewards level, the
  old values in the effect of a block are those of the tracker, and so the tracker takes every
  block that the evaluator accepts.
\<close>


section \<open>When the totals do not overflow\<close>

lemma ot_Sub_fits: "unat b \<le> unat a \<Longrightarrow> Overflowed (snd (ot_Sub a b t)) = Overflowed t"
  using OSub_fits [of a b] by (auto simp: ot_Sub_def ot_note_def split: prod.splits)

lemma ot_Add_fits: "unat a + unat b < 2 ^ 64 \<Longrightarrow> Overflowed (snd (ot_Add a b t)) = Overflowed t"
  using OAdd_fits [of a b] by (auto simp: ot_Add_def ot_note_def split: prod.splits)

lemma ot_Mul_fits: "unat a * unat b < 2 ^ 64 \<Longrightarrow> Overflowed (snd (ot_Mul a b t)) = Overflowed t"
  using OMul_fits [of a b] by (auto simp: ot_Mul_def ot_note_def split: prod.splits)

lemma units_worth: "units p u \<le> worth p lvl u"
  by (simp add: units_def worth_def trans_le_add1)

lemma of_status_le: "of_status st f (m a) \<le> sum_status st f m"
  unfolding sum_status_def by (rule member_le_sum) simp_all

lemma sum_status_le_total: "sum_status st (worth p lvl) m \<le> total_worth p lvl m"
  unfolding sum_status_def total_worth_def by (rule sum_mono) (simp add: of_status_def)

lemma sum_units_le_total: "sum_status st (units p) m \<le> total_worth p lvl m"
  unfolding sum_status_def total_worth_def
  by (rule sum_mono) (use units_worth in \<open>auto simp: of_status_def\<close>)

lemma worth_le_total: "worth p lvl (m a) \<le> total_worth p lvl m"
  unfolding total_worth_def by (rule member_le_sum) simp_all

text \<open>An account the ledger can settle at a rewards level.\<close>

definition settled_by :: "u64 \<Rightarrow> AccountData \<Rightarrow> bool" where
  "settled_by lvl d \<longleftrightarrow> acctStatus d \<in> {Online, Offline, NotParticipating} \<and>
     (acctStatus d \<noteq> NotParticipating \<longrightarrow> RewardsBase d \<le> lvl)"

lemma Money_runs:
  assumes "settled_by lvl d" and "worth p lvl d < 2 ^ 64" and "RewardUnit p \<noteq> 0"
  obtains x z where "Money p lvl d = Ok (x, z)"
  using WithUpdatedRewards_Ok_iff_ok [of p lvl d] assms
  by (auto simp: rewards_ok_def settled_by_def Money_def act_simps)

lemma delAccount_runs:
  assumes "totals_ok p m at" and "settled_by (atRewardsLevel at) (m a)" and "total_worth p (atRewardsLevel at) m < 2 ^ 64"
    and "RewardUnit p \<noteq> 0"
  obtains at' ot' where "delAccount p (m a) (at, ot) = Ok (at', ot')" "Overflowed ot' = Overflowed ot"
proof -
  let ?st = "acctStatus (m a)"
  have "worth p (atRewardsLevel at) (m a) < 2 ^ 64" using worth_le_total assms(3) by (rule le_less_trans)
  then obtain x z where mo: "Money p (atRewardsLevel at) (m a) = Ok (x, z)"
    using Money_runs [OF assms(2) _ assms(4)] by blast
  obtain n where ru: "RewardUnits p (acctMicroAlgos (m a)) = Ok n" using assms(4) by (simp add: RewardUnits_def)
  obtain ac where s: "statusField ?st at = Ok ac" and ok: "count_ok p (atRewardsLevel at) m ?st ac"
    using assms(1,2) by (cases ?st) (auto simp: statusField_def totals_ok_def settled_by_def)
  have "unat x \<le> unat (acMoney ac)" "unat n \<le> unat (acRewardUnits ac)"
    using ok of_status_le [of ?st "worth p (atRewardsLevel at)" m a] of_status_le [of ?st "units p" m a]
      Money_worth [OF mo] RewardUnits_units [OF ru] by (simp_all add: count_ok_def of_status_def)
  then show ?thesis
    using s mo ru ot_Sub_fits [of x "acMoney ac" ot] ot_Sub_fits [of n "acRewardUnits ac"]
    by (intro that) (simp add: delAccount_def res_bind_def ot_SubA_def case_prod_unfold Let_def, simp)
qed

lemma addAccount_runs:
  assumes "totals_without p m a at" and "settled_by (atRewardsLevel at) u"
    and "total_worth p (atRewardsLevel at) (m(a := u)) < 2 ^ 64" and "RewardUnit p \<noteq> 0"
  obtains at' ot' where "addAccount p u (at, ot) = Ok (at', ot')" "Overflowed ot' = Overflowed ot"
proof -
  let ?st = "acctStatus u" and ?m = "m(a := u)" and ?w = "worth p (atRewardsLevel at)"
  have "?w u < 2 ^ 64" using worth_le_total [of p "atRewardsLevel at" ?m a] assms(3) by simp
  then obtain x z where mo: "Money p (atRewardsLevel at) u = Ok (x, z)"
    using Money_runs [OF assms(2) _ assms(4)] by blast
  obtain n where ru: "RewardUnits p (acctMicroAlgos u) = Ok n" using assms(4) by (simp add: RewardUnits_def)
  obtain ac where s: "statusField ?st at = Ok ac" and ok: "count_without p (atRewardsLevel at) m a ?st ac"
    using assms(1,2) by (cases ?st) (auto simp: statusField_def totals_without_def settled_by_def)
  have "unat (acMoney ac) + unat x = sum_status ?st ?w ?m" "unat (acRewardUnits ac) + unat n = sum_status ?st (units p) ?m"
    using ok sum_status_upd [of ?st ?w m a u] sum_status_upd [of ?st "units p" m a u]
      Money_worth [OF mo] RewardUnits_units [OF ru] by (simp_all add: count_without_def of_status_def)
  then have "unat (acMoney ac) + unat x < 2 ^ 64" "unat (acRewardUnits ac) + unat n < 2 ^ 64"
    using sum_status_le_total [of ?st p "atRewardsLevel at" ?m] sum_units_le_total [of ?st p ?m "atRewardsLevel at"] assms(3)
    by simp_all
  then show ?thesis
    using s mo ru ot_Add_fits [of "acMoney ac" x ot] ot_Add_fits [of "acRewardUnits ac" n]
    by (intro that) (simp add: addAccount_def res_bind_def ot_AddA_def case_prod_unfold Let_def, simp)
qed

lemma Totals_applyRewards_runs:
  assumes ok: "totals_ok p m at" and below: "bases_below (atRewardsLevel at) m" and le: "atRewardsLevel at \<le> lvl"
    and fits: "total_worth p lvl m < 2 ^ 64"
  shows "Overflowed (snd (Totals_applyRewards lvl (at, ot))) = Overflowed ot"
proof -
  obtain d ot1 where d: "ot_Sub lvl (atRewardsLevel at) ot = (d, ot1)" by force
  have d1: "Overflowed ot1 = Overflowed ot" "unat d = unat lvl - unat (atRewardsLevel at)"
  proof -
    have "snd (OSub lvl (atRewardsLevel at)) = False" using le OSub_fits [of lvl] by (simp add: word_le_nat_alt)
    then show "Overflowed ot1 = Overflowed ot" "unat d = unat lvl - unat (atRewardsLevel at)"
      using d OSub_nat [of lvl "atRewardsLevel at" d] le
      by (cases "OSub lvl (atRewardsLevel at)", auto simp: ot_Sub_def ot_note_def word_le_nat_alt)+
  qed
  have one: "Overflowed (snd (AlgoCount_applyRewards d ac ot')) = Overflowed ot'"
    if "count_ok p (atRewardsLevel at) m st ac" and "st \<noteq> NotParticipating" for ac st ot'
  proof -
    have eq: "unat (acMoney ac) + unat (acRewardUnits ac) * unat d = sum_status st (worth p lvl) m"
      using that sum_status_level [OF below le, of st p] d1(2) by (simp add: count_ok_def)
    obtain r t1 where r: "ot_Mul (acRewardUnits ac) d ot' = (r, t1)" by force
    have mul: "unat (acRewardUnits ac) * unat d < 2 ^ 64"
      using eq sum_status_le_total [of st p lvl m] fits by simp
    have "Overflowed t1 = Overflowed ot'" "unat r = unat (acRewardUnits ac) * unat d"
      using ot_Mul_fits [OF mul, of ot'] r OMul_fits [of "acRewardUnits ac" d] OMul_nat [of "acRewardUnits ac" d r] mul
      by (cases "OMul (acRewardUnits ac) d", auto simp: ot_Mul_def ot_note_def)+
    then show ?thesis
      using ot_Add_fits [of "acMoney ac" r t1] eq sum_status_le_total [of st p lvl m] fits r
      by (simp add: AlgoCount_applyRewards_def ot_AddA_def case_prod_unfold Let_def)
  qed
  have "count_ok p (atRewardsLevel at) m Online (atOnline at)" "count_ok p (atRewardsLevel at) m Offline (atOffline at)"
    using ok by (simp_all add: totals_ok_def)
  from one [OF this(1), of ot1] one [OF this(2)] show ?thesis
    using d d1 by (simp add: Totals_applyRewards_def case_prod_unfold Let_def)
qed

lemma All_runs:
  assumes "totals_ok p m at" and "total_worth p (atRewardsLevel at) m < 2 ^ 64"
  obtains x where "All at = Ok x" "unat x = total_worth p (atRewardsLevel at) m"
proof -
  let ?w = "worth p (atRewardsLevel at)"
  have sum: "sum_status Online ?w m + sum_status Offline ?w m + sum_status NotParticipating ?w m = total_worth p (atRewardsLevel at) m"
    using assms(1) sum_status_total [of m ?w] by (simp add: totals_ok_def total_worth_def)
  have c: "unat (acMoney (atOnline at)) = sum_status Online ?w m" "unat (acMoney (atOffline at)) = sum_status Offline ?w m"
      "unat (acMoney (atNotParticipating at)) = sum_status NotParticipating ?w m"
    using assms(1) by (simp_all add: totals_ok_def count_ok_def)
  obtain y where y: "OAdd (acMoney (atOnline at)) (acMoney (atOffline at)) = (y, False)"
    using OAdd_fits [of "acMoney (atOnline at)" "acMoney (atOffline at)"] c sum assms(2)
    by (cases "OAdd (acMoney (atOnline at)) (acMoney (atOffline at))") auto
  obtain x where x: "OAdd (acMoney (atNotParticipating at)) y = (x, False)"
    using OAdd_fits [of "acMoney (atNotParticipating at)" y] OAdd_nat [OF y] c sum assms(2)
    by (cases "OAdd (acMoney (atNotParticipating at)) y") auto
  have "All at = Ok x" using x y by (simp add: All_def Participating_def OAddA_def res_bind_def)
  then show ?thesis using All_total_worth [OF assms(1)] that by blast
qed


section \<open>A new block is accepted\<close>

fun write_all :: "(Address \<times> accountDelta) list \<Rightarrow> accounts \<Rightarrow> accounts" where
  "write_all [] m = m"
| "write_all ((a, d) # us) m = write_all us (m(a := new d))"

lemma write_all_apply:
  "distinct (map fst us) \<Longrightarrow> write_all us m a = (case map_of us a of Some d \<Rightarrow> new d | None \<Rightarrow> m a)"
proof (induction us arbitrary: m)
  case (Cons x us)
  then have "write_all us (m(fst x := new (snd x))) a = (case map_of us a of Some d \<Rightarrow> new d | None \<Rightarrow> (m(fst x := new (snd x))) a)"
    by auto
  moreover have "a = fst x \<Longrightarrow> map_of us a = None" using Cons.prems by (auto simp: map_of_eq_None_iff)
  ultimately show ?case by (cases x) (auto split: option.splits)
qed simp

lemma write_all_entries: "write_all (entries (accts delta)) m = after_delta m delta"
  by (rule ext) (simp add: write_all_apply distinct_entries after_delta_def)

lemma total_worth_upd_le: "total_worth p lvl (m(a := u)) \<le> total_worth p lvl m + worth p lvl u"
  using sum_fun_upd_UNIV [of "worth p lvl" m a u] by (simp add: total_worth_def)

lemma totals_fold_runs:
  assumes "totals_ok p m T" and "\<not> Overflowed ot" and "RewardUnit p \<noteq> 0" and "distinct (map fst us)"
    and "\<forall>(a, d) \<in> set us. old d = m a \<and> settled_by (atRewardsLevel T) (m a) \<and> settled_by (atRewardsLevel T) (new d)"
    and "total_worth p (atRewardsLevel T) m + (\<Sum>(a, d)\<leftarrow>us. worth p (atRewardsLevel T) (new d)) < 2 ^ 64"
  shows "\<exists>t ot'. totals_fold p us (T, ot) = Ok (t, ot') \<and> \<not> Overflowed ot' \<and> totals_ok p (write_all us m) t \<and>
    atRewardsLevel t = atRewardsLevel T"
  using assms
proof (induction us arbitrary: m T ot)
  case (Cons x us)
  obtain a d where x: "x = (a, d)" by force
  let ?lvl = "atRewardsLevel T"
  define m' where "m' = m(a := new d)"
  have d: "old d = m a" "settled_by ?lvl (m a)" "settled_by ?lvl (new d)" using Cons.prems x by auto
  have fit: "total_worth p ?lvl m < 2 ^ 64" using Cons.prems(6) by simp
  obtain T1 ot1 where del: "delAccount p (m a) (T, ot) = Ok (T1, ot1)" "\<not> Overflowed ot1"
    using delAccount_runs [OF Cons.prems(1) d(2) fit Cons.prems(3), of ot] Cons.prems(2) by auto
  from delAccount_ok [OF del Cons.prems(1)] have T1: "totals_without p m a T1" "atRewardsLevel T1 = ?lvl" by auto
  have fit': "total_worth p ?lvl m' + (\<Sum>(a, d)\<leftarrow>us. worth p ?lvl (new d)) < 2 ^ 64"
    using Cons.prems(6) total_worth_upd_le [of p ?lvl m a "new d"] by (simp add: x m'_def)
  obtain T2 ot2 where add: "addAccount p (new d) (T1, ot1) = Ok (T2, ot2)" "\<not> Overflowed ot2"
    using addAccount_runs [OF T1(1), of "new d" ot1] T1(2) d(3) fit' Cons.prems(3) del(2) by (auto simp: m'_def)
  have known: "known_status m" using Cons.prems(1) by (simp add: totals_ok_def)
  from addAccount_ok [OF add T1(1) known] have T2: "totals_ok p m' T2" "atRewardsLevel T2 = ?lvl" using T1(2) by (auto simp: m'_def)
  have "\<forall>(b, e) \<in> set us. old e = m' b \<and> settled_by ?lvl (m' b) \<and> settled_by ?lvl (new e)"
    using Cons.prems(4,5) x by (fastforce simp: image_iff m'_def)
  then show ?case
    using Cons.IH [OF T2(1) add(2) Cons.prems(3), unfolded T2(2)] Cons.prems(4) fit' del add
    by (simp add: x d(1) res_bind_def m'_def [symmetric])
qed simp

lemma sum_written: "(\<Sum>(a, d)\<leftarrow>entries (accts delta). worth p lvl (new d)) \<le> total_worth p lvl (after_delta m delta)"
proof -
  let ?us = "entries (accts delta)"
  have eq: "new d = after_delta m delta a" if "(a, d) \<in> set ?us" for a d
    using that by (simp add: set_entries after_delta_def)
  have "(\<Sum>(a, d)\<leftarrow>?us. worth p lvl (new d)) = (\<Sum>a\<leftarrow>map fst ?us. worth p lvl (after_delta m delta a))"
    using eq by (intro arg_cong [where f = sum_list]) (auto simp: o_def)
  also have "\<dots> = (\<Sum>a\<in>set (map fst ?us). worth p lvl (after_delta m delta a))"
    by (rule sum_list_distinct_conv_sum_set [OF distinct_entries])
  also have "\<dots> \<le> total_worth p lvl (after_delta m delta)"
    unfolding total_worth_def by (rule sum_mono2) simp_all
  finally show ?thesis .
qed

text \<open>
  What the tracker needs of the effect of a block so that it takes it: the accounts before are the
  ones the totals count, the old values in the delta are theirs, every account is settled by the
  new level, and the block neither creates nor destroys money.
\<close>

definition acceptable :: "ConsensusParams \<Rightarrow> accounts \<Rightarrow> AccountTotals \<Rightarrow> StateDelta \<Rightarrow> bool" where
  "acceptable p m T delta \<longleftrightarrow>
     (let lvl = RewardsLevel (bhRewards (hdr delta)) in
      totals_ok p m T \<and> bases_below (atRewardsLevel T) m \<and> atRewardsLevel T \<le> lvl \<and> RewardUnit p \<noteq> 0 \<and>
      (\<forall>a d. fmlookup (accts delta) a = Some d \<longrightarrow> old d = m a) \<and> (\<forall>a. settled_by lvl (after_delta m delta a)) \<and>
      total_worth p lvl (after_delta m delta) = total_worth p (atRewardsLevel T) m \<and>
      total_worth p lvl m + total_worth p lvl (after_delta m delta) < 2 ^ 64)"

lemma acceptable_totals:
  assumes acc: "acceptable p m T delta"
  defines "lvl \<equiv> RewardsLevel (bhRewards (hdr delta))"
  obtains t ot x where "totals_fold p (entries (accts delta)) (Totals_applyRewards lvl (T, ot_new)) = Ok (t, ot)"
    "\<not> Overflowed ot" "totals_ok p (after_delta m delta) t" "atRewardsLevel t = lvl" "All T = Ok x" "All t = Ok x"
proof -
  have T: "totals_ok p m T" "bases_below (atRewardsLevel T) m" "atRewardsLevel T \<le> lvl" "RewardUnit p \<noteq> 0"
    and olds: "\<And>a d. fmlookup (accts delta) a = Some d \<Longrightarrow> old d = m a"
    and news: "\<And>a. settled_by lvl (after_delta m delta a)"
    and same: "total_worth p lvl (after_delta m delta) = total_worth p (atRewardsLevel T) m"
    and fit: "total_worth p lvl m + total_worth p lvl (after_delta m delta) < 2 ^ 64"
    using acc unfolding acceptable_def lvl_def Let_def by blast+
  obtain T1 ot1 where run: "Totals_applyRewards lvl (T, ot_new) = (T1, ot1)" by force
  have ot1: "\<not> Overflowed ot1"
    using Totals_applyRewards_runs [OF T(1-3), of ot_new] fit run by simp
  from Totals_applyRewards_ok [OF run ot1 T(1,2)] have T1: "totals_ok p m T1" "atRewardsLevel T1 = lvl" by auto
  have "settled_by lvl (m a)" for a
    using T(1,2,3) by (auto simp: settled_by_def totals_ok_def known_status_def bases_below_def intro: order_trans)
  moreover have "settled_by lvl (new d)" if "fmlookup (accts delta) a = Some d" for a d
    using news [of a] that by (simp add: after_delta_def)
  ultimately have "\<forall>(a, d) \<in> set (entries (accts delta)). old d = m a \<and> settled_by (atRewardsLevel T1) (m a) \<and> settled_by (atRewardsLevel T1) (new d)"
    using olds by (auto simp: set_entries T1(2))
  from totals_fold_runs [OF T1(1) ot1 T(4) distinct_entries this] obtain t ot where t: "totals_fold p (entries (accts delta)) (T1, ot1) = Ok (t, ot)" "\<not> Overflowed ot"
      "totals_ok p (after_delta m delta) t" "atRewardsLevel t = lvl"
    using sum_written [where delta = delta and p = p and lvl = lvl and m = m] fit T1(2)
    by (auto simp: write_all_entries)
  obtain x y where "All T = Ok x" "unat x = total_worth p (atRewardsLevel T) m" "All t = Ok y" "unat y = total_worth p lvl (after_delta m delta)"
    using All_runs [OF T(1)] All_runs [OF t(3)] same fit t(4) by (metis add_lessD1 add.commute)
  then have "All T = Ok x" "All t = Ok x" using same by (simp_all add: word_unat_eq_iff)
  then show ?thesis using that [OF _ t(2-4)] t(1) run by simp
qed

lemma newBlock_runs:
  assumes acc: "acceptable (ConsensusProtocol blk) m (last (roundTotals au)) delta"
    and rnd: "Block_Round blk = au_latest au + 1" "au_latest au < - 1"
  shows "\<exists>au'. au_newBlock blk delta au = (Ok (), au') \<and> totals_ok (ConsensusProtocol blk) (after_delta m delta) (last (roundTotals au')) \<and>
    atRewardsLevel (last (roundTotals au')) = RewardsLevel (bhRewards (hdr delta))"
proof -
  have less: "\<not> au_latest au + 1 \<le> au_latest au"
    using unat_Suc_below [OF rnd(2)] by (simp add: word_le_nat_alt)
  obtain t ot x where t: "totals_fold (ConsensusProtocol blk) (entries (accts delta))
        (Totals_applyRewards (RewardsLevel (bhRewards (hdr delta))) (last (roundTotals au), ot_new)) = Ok (t, ot)"
    "\<not> Overflowed ot" "totals_ok (ConsensusProtocol blk) (after_delta m delta) t" "All (last (roundTotals au)) = Ok x" "All t = Ok x"
    "atRewardsLevel t = RewardsLevel (bhRewards (hdr delta))"
    using acceptable_totals [OF acc] by metis
  define au1 where "au1 = fold bump (entries (accts delta))
      (au\<lparr>deltas := deltas au @ [accts delta], protos := protos au @ [ConsensusProtocol blk], assetDeltas := assetDeltas au @ [fmempty]\<rparr>)"
  have "au_newBlock blk delta au = (Ok (), au1\<lparr>roundTotals := roundTotals au1 @ [t]\<rparr>)"
    using t rnd(1) less by (auto simp: au_newBlock_def Let_def act_simps new_accounts_run au1_def)
  then show ?thesis using t by simp
qed


section \<open>What a block writes\<close>

text \<open>
  A rule for each construct: an action that starts with the state invariant \<open>I\<close> and succeeds ends
  with it and returns a value with \<open>Q\<close>.
\<close>

definition act_yields :: "('s \<Rightarrow> bool) \<Rightarrow> ('a \<Rightarrow> bool) \<Rightarrow> ('s, 'e, 'a) act \<Rightarrow> bool" where
  "act_yields I Q m \<longleftrightarrow> (\<forall>s b s'. m s = (Ok b, s') \<longrightarrow> I s \<longrightarrow> I s' \<and> Q b)"

named_theorems act_yields_intros \<open>introduction rules for what an action yields\<close>

lemma act_yieldsD: "act_yields I Q m \<Longrightarrow> m s = (Ok b, s') \<Longrightarrow> I s \<Longrightarrow> I s' \<and> Q b"
  by (simp add: act_yields_def)

lemma act_yields_bind:
  "act_yields I Q m \<Longrightarrow> (\<And>b. Q b \<Longrightarrow> act_yields I R (f b)) \<Longrightarrow> act_yields I R (act_bind m f)"
  unfolding act_yields_def act_bind_Ok by blast

lemma act_yields_then:
  "act_yields I (\<lambda>_. True) m \<Longrightarrow> (\<And>b. act_yields I R (f b)) \<Longrightarrow> act_yields I R (act_bind m f)"
  by (rule act_yields_bind) simp_all

lemma act_yields_pure [act_yields_intros]:
  "R a \<Longrightarrow> act_yields I R (act_return a)" "act_yields I R (act_err e)" "act_yields I R (act_panic e)"
  "act_yields I (\<lambda>_. True) (act_read g)" "act_yields I (\<lambda>_. True) (act_lift r)"
  by (simp_all add: act_yields_def act_simps)

lemma act_yields_when [act_yields_intros]: "act_yields I (\<lambda>_. True) m \<Longrightarrow> act_yields I (\<lambda>_. True) (act_when c m)"
  by (simp add: act_yields_def act_simps)

lemma act_yields_if [act_yields_intros]: "(c \<Longrightarrow> act_yields I R m) \<Longrightarrow> (\<not> c \<Longrightarrow> act_yields I R n) \<Longrightarrow> act_yields I R (if c then m else n)"
  by simp

lemma act_yields_option [act_yields_intros]:
  "act_yields I R m \<Longrightarrow> (\<And>x. act_yields I R (f x)) \<Longrightarrow> act_yields I R (case y of None \<Rightarrow> m | Some x \<Rightarrow> f x)"
  by (cases y) simp_all

lemma act_yields_prod [act_yields_intros]:
  "(\<And>x y. act_yields I R (f x y)) \<Longrightarrow> act_yields I R (case z of (x, y) \<Rightarrow> f x y)"
  by (cases z) simp

lemma act_yields_Let [act_yields_intros]: "(\<And>x. x = y \<Longrightarrow> act_yields I R (f x)) \<Longrightarrow> act_yields I R (Let y f)"
  by simp

subsection \<open>Settled accounts\<close>

text \<open>Changes of an account that cannot unsettle it.\<close>

lemma settled_by_simps [simp]:
  "settled_by lvl (d\<lparr>acctMicroAlgos := x\<rparr>) = settled_by lvl d"
  "settled_by lvl (d\<lparr>acctAssets := y\<rparr>) = settled_by lvl d" "settled_by lvl (d\<lparr>acctAssetParams := z\<rparr>) = settled_by lvl d"
  "settled_by lvl (d\<lparr>VoteID := v\<rparr>) = settled_by lvl d" "settled_by lvl (d\<lparr>SelectionID := w\<rparr>) = settled_by lvl d"
  "settled_by lvl (d\<lparr>VoteFirstValid := q\<rparr>) = settled_by lvl d" "settled_by lvl (d\<lparr>VoteLastValid := q\<rparr>) = settled_by lvl d"
  "settled_by lvl (d\<lparr>acctVoteKeyDilution := k\<rparr>) = settled_by lvl d" "settled_by lvl AccountData_zero"
  by (simp_all add: settled_by_def AccountData_zero_def)

lemma settled_by_status:
  "settled_by lvl d \<Longrightarrow> acctStatus d \<noteq> NotParticipating \<Longrightarrow> st \<in> {Online, Offline, NotParticipating} \<Longrightarrow> settled_by lvl (d\<lparr>acctStatus := st\<rparr>)"
  by (auto simp: settled_by_def)

lemma settled_by_updated: "WithUpdatedRewards p lvl d = Ok d' \<Longrightarrow> settled_by lvl d \<Longrightarrow> settled_by lvl d'"
  using WithUpdatedRewards_OkD(2,5) [of p lvl d d'] by (simp add: settled_by_def)

definition all_settled :: "u64 \<Rightarrow> roundCowState \<Rightarrow> bool" where
  "all_settled lvl cs \<longleftrightarrow> rewardsLevel cs = lvl \<and> (\<forall>a. settled_by lvl (acct cs a))"

lemma all_settled_put: "all_settled lvl cs \<Longrightarrow> settled_by lvl n \<Longrightarrow> all_settled lvl (put a d n cs)"
  by (simp add: all_settled_def)

lemma all_settledD: "all_settled lvl cs \<Longrightarrow> cow_lookup cs a = Ok d \<Longrightarrow> settled_by lvl d"
  using acct_lookup by (auto simp: all_settled_def)

abbreviation settled_record :: "u64 \<Rightarrow> BalanceRecord \<Rightarrow> bool" where
  "settled_record lvl r \<equiv> settled_by lvl (brData r)"

lemma Get_yields: "act_yields (all_settled lvl) (settled_record lvl) (cow_Get a pend)"
  unfolding act_yields_def cow_Get_def
  by (auto simp: act_simps all_settledD settled_by_updated all_settled_def split: if_splits)

lemma Get_unchecked_yields:
  "act_yields (all_settled lvl) (settled_record lvl) (Get_unchecked cowBalances a pend)"
  using Get_yields [of lvl a pend]
  by (auto simp: act_yields_def Get_unchecked_def BalanceRecord_zero_def cow_Get_def split: prod.splits result.splits)

lemmas bind_Get_yields [act_yields_intros] =
  act_yields_bind [OF Get_yields] act_yields_bind [OF Get_unchecked_yields]

lemma Put_yields [act_yields_intros]:
  "settled_record lvl r \<Longrightarrow> act_yields (all_settled lvl) (\<lambda>_. True) (cow_Put r)"
  by (auto simp: act_yields_def intro: all_settled_put dest!: cow_PutD)

lemma Creator_yields [act_yields_intros]: "act_yields (all_settled lvl) (\<lambda>_. True) (cow_GetAssetCreator i)"
  by (simp add: act_yields_def cow_GetAssetCreator_def)

lemma Move_yields [act_yields_intros]: "act_yields (all_settled lvl) (\<lambda>_. True) (cow_Move src dst amt fr tr)"
proof -
  have "all_settled lvl cs1" if "move_from src amt fr cs = (Ok w, cs1)" "all_settled lvl cs" for cs w cs1
    using that all_settledD settled_by_updated by (auto elim!: move_fromE intro!: all_settled_put simp: all_settled_def)
  moreover have "all_settled lvl cs1" if "move_to dst amt tr cs = (Ok w, cs1)" "all_settled lvl cs" for cs w cs1
    using that all_settledD settled_by_updated by (auto elim!: move_toE intro!: all_settled_put simp: all_settled_def)
  ultimately show ?thesis by (fastforce simp: act_yields_def elim!: moveE)
qed

lemma getParams_yields [act_yields_intros]: "act_yields (all_settled lvl) (\<lambda>_. True) (getParams cowBalances i)"
  unfolding getParams_def cowBalances_sel by (rule act_yields_intros act_yields_then | simp)+

lemma takeOut_yields [act_yields_intros]: "act_yields (all_settled lvl) (\<lambda>_. True) (takeOut cowBalances a i n f)"
  unfolding takeOut_def cowBalances_sel by (rule act_yields_intros act_yields_then | simp)+

lemma putIn_yields [act_yields_intros]: "act_yields (all_settled lvl) (\<lambda>_. True) (putIn cowBalances a i n f)"
  unfolding putIn_def cowBalances_sel by (rule act_yields_intros act_yields_then | simp)+

lemma payment_yields: "act_yields (all_settled lvl) (\<lambda>_. True) (payment_apply cowBalances p h ad)"
  unfolding payment_apply_def payment_pay_def payment_close_def cowBalances_sel by (rule act_yields_intros act_yields_then | simp)+

lemma keyreg_yields: "act_yields (all_settled lvl) (\<lambda>_. True) (keyreg_apply cowBalances k h spec)"
  unfolding keyreg_apply_def cowBalances_sel
  by (rule act_yields_intros act_yields_then | simp add: settled_by_status)+

lemma assetConfig_yields: "act_yields (all_settled lvl) (\<lambda>_. True) (assetConfig_apply cowBalances c h n)"
  unfolding assetConfig_apply_def cowBalances_sel by (rule act_yields_intros act_yields_then | simp)+

lemma assetTransfer_yields: "act_yields (all_settled lvl) (\<lambda>_. True) (assetTransfer_apply cowBalances c h)"
  unfolding assetTransfer_apply_def transfer_source_def allocate_slot_def close_slot_def cowBalances_sel
  by (rule act_yields_intros act_yields_then | simp)+

lemma assetFreeze_yields: "act_yields (all_settled lvl) (\<lambda>_. True) (assetFreeze_apply cowBalances c h)"
  unfolding assetFreeze_apply_def cowBalances_sel by (rule act_yields_intros act_yields_then | simp)+

lemmas fields_yield = payment_yields keyreg_yields assetConfig_yields assetTransfer_yields assetFreeze_yields

lemma Apply_settled:
  assumes "Transaction_Apply cowBalances tx spec ctr cs = (Ok ad, cs')" and "all_settled lvl cs"
  shows "all_settled lvl cs'"
proof -
  have fields: "act_yields (all_settled lvl) (\<lambda>_. True) (apply_fields cowBalances tx spec ctr d)" for d
    unfolding apply_fields_def Let_def by (cases "txType tx") (simp_all add: act_yields_intros act_yields_then fields_yield)
  have "act_yields (all_settled lvl) (\<lambda>_. True) (Transaction_Apply cowBalances tx spec ctr)"
    unfolding Transaction_Apply_def cowBalances_sel by (rule act_yields_intros act_yields_then fields | simp)+
  from act_yieldsD [OF this assms] show ?thesis by simp
qed

subsection \<open>Old values\<close>

text \<open>The old value in a delta is the account of the parent layer.\<close>

definition olds_ok :: "roundCowState \<Rightarrow> bool" where
  "olds_ok cs \<longleftrightarrow> (\<forall>a d. fmlookup (accts (mods cs)) a = Some d \<longrightarrow> parent_lookup (lookupParent cs) a = Ok (old d))"

lemma olds_ok_put: "olds_ok cs \<Longrightarrow> cow_lookup cs a = Ok d \<Longrightarrow> olds_ok (put a d n cs)"
  by (auto simp: olds_ok_def put_def cow_lookup_def Let_def split: option.splits if_splits)

lemma olds_ok_child: "olds_ok (child p)"
  by (simp add: olds_ok_def)

lemma olds_ok_commit:
  assumes "descends c p" and "olds_ok p" and "olds_ok c"
  shows "olds_ok (commitToParent c p)"
  unfolding olds_ok_def
proof (intro allI impI)
  fix a d
  assume d: "fmlookup (accts (mods (commitToParent c p))) a = Some d"
  have c: "parent_lookup (lookupParent c) a = cow_lookup p a" using assms(1) by (simp add: descends_def as_parent_def)
  show "parent_lookup (lookupParent (commitToParent c p)) a = Ok (old d)"
  proof (cases "fmlookup (accts (mods p)) a")
    case None
    with d have "fmlookup (accts (mods c)) a = Some d" by (auto simp: commitToParent_def Let_def split: if_splits)
    then show ?thesis using None assms(3) c by (simp add: olds_ok_def commitToParent_def Let_def cow_lookup_def)
  next
    case (Some e)
    with d have "old d = old e" by (auto simp: commitToParent_def Let_def split: if_splits)
    then show ?thesis using Some assms(2) by (simp add: olds_ok_def commitToParent_def Let_def)
  qed
qed

lemma Apply_olds: "Transaction_Apply cowBalances tx spec ctr cs = (Ok ad, cs') \<Longrightarrow> olds_ok cs \<Longrightarrow> olds_ok cs'"
  by (rule Transaction_Apply_keeps_inv [OF calls_keep_cow]) (auto intro: olds_ok_put)

subsection \<open>Whole blocks\<close>

definition books_ok :: "u64 \<Rightarrow> roundCowState \<Rightarrow> bool" where
  "books_ok lvl cs \<longleftrightarrow> all_settled lvl cs \<and> olds_ok cs"

lemma transaction_books:
  assumes "transaction env eval txn ad grp gi (cow, c) = (Ok txib, (cow', c'))" and "books_ok lvl cow"
  shows "books_ok lvl cow'"
  using assms
proof (elim transactionE)
  fix ad' cow1
  assume "Transaction_Apply cowBalances (Txn txn) (eval_spec (evBlock eval)) (txnCounter cow) cow = (Ok ad', cow1)"
    and cow': "cow' = addTx (txnHash (eeHashes env)) (Txn txn) cow1"
  then have "all_settled lvl cow1" "olds_ok cow1"
    using assms(2) by (auto simp: books_ok_def intro: Apply_settled Apply_olds)
  then show ?thesis
    unfolding cow' books_ok_def all_settled_def olds_ok_def by simp
qed

lemma eval_groups_books:
  assumes "eval_groups env d i groups eval = (Ok u, eval')"
  shows "books_ok lvl (evState eval) \<longrightarrow> books_ok lvl (evState eval')"
  using assms
proof (induction rule: eval_groups_induct)
  case (Cons grp rest eval eval1 eval2)
  have "books_ok lvl (evState eval1)" if "books_ok lvl (evState eval)"
    using Cons.hyps(1) that
  proof (rule transactionGroup_keeps)
    show "books_ok lvl p \<Longrightarrow> books_ok lvl (child p)" for p
      by (simp add: books_ok_def all_settled_def olds_ok_child child_shows)
    show "descends cow p \<Longrightarrow> books_ok lvl p \<Longrightarrow> books_ok lvl cow \<Longrightarrow> books_ok lvl (commitToParent cow p)" for p cow
      by (simp add: books_ok_def all_settled_def olds_ok_commit commit_shows)
  qed (rule transaction_books)
  with Cons.IH show ?case by blast
qed simp

lemma withdraw_rewards_books:
  assumes run: "withdraw_rewards proto gh h prev totals cs = (Ok u, cs')" and ok: "books_ok lvl cs"
  shows "books_ok lvl cs'"
  using run
proof (rule withdraw_rewardsE)
  fix r1 r2 cs1 n and owed :: u64 and algos d
  assume g: "cow_Get (RewardsPool (bhRewards prev)) True cs = (Ok r1, cs)"
    and w: "workaroundOverspentRewards gh (RewardsPool (bhRewards prev)) r1 (bhRound h) cs = (Ok r2, cs1)"
    and l: "cow_lookup cs1 (brAddr r2) = Ok d"
    and cs': "cs' = put (brAddr r2) d ((brData r2)\<lparr>acctMicroAlgos := algos\<rparr>) cs1"
  have I: "all_settled lvl cs" "olds_ok cs" using ok by (simp_all add: books_ok_def)
  have r1: "settled_record lvl r1" using act_yieldsD [OF Get_yields g I(1)] by simp
  have mv: "all_settled lvl s' \<and> olds_ok s'" if "cow_Move a b amt fr tr s = (Ok w, s')" "all_settled lvl s" "olds_ok s" for a b amt fr tr s w s'
    using that act_yieldsD [OF Move_yields] by (auto elim!: moveE move_fromE move_toE intro!: olds_ok_put)
  have gt: "s' = s \<and> settled_record lvl r" if "cow_Get a p s = (Ok r, s')" "all_settled lvl s" for a p s r s'
    using act_yieldsD [OF Get_yields that] that by (auto simp: cow_Get_def)
  have "all_settled lvl cs1 \<and> olds_ok cs1 \<and> settled_record lvl r2"
    using w I r1 mv gt
    by (auto simp: workaroundOverspentRewards_def act_simps split: if_splits) metis+
  then show ?thesis unfolding cs' using l by (simp add: books_ok_def all_settled_put olds_ok_put)
qed


lemma startEvaluator_books:
  assumes run: "startEvaluator env l h validate generate tc = Ok eval"
    and led: "ledger_shows l p prev m" and rnd: "bhRound h = bhRound prev + 1" "bhRound h \<noteq> 0"
  shows "books_ok (rewardsLevel (evState eval)) (evState eval) \<and>
    RewardsLevel (bhRewards prev) \<le> rewardsLevel (evState eval)"
proof -
  have pos: "0 < bhRound h" using rnd(2) by (simp add: word_neq_0_conv)
  from run pos show ?thesis
  proof (rule startEvaluatorE)
    fix proto pool s and prev' h' :: BlockHeader and at
    let ?cs = "makeRoundCowState (base_as_parent \<lparr>baseL = l, baseRnd = bhRound h - 1, baseTxnCount = TxnCounter prev', baseProto = proto\<rparr>) h'"
    assume prev': "leBlockHdr l (bhRound h - 1) = Ok prev'"
      and w: "withdraw_rewards proto (leGenesisHash l) h' prev' at ?cs = (Ok (), s)"
      and eval: "eval = \<lparr>evState = s, evValidate = validate, evGenerate = generate, evTxcache = tc,
        evPrevHeader = prev', evProto = proto, evGenesisHash = leGenesisHash l,
        evBlock = \<lparr>blkHeader = h', blkPayset = [], blkPayProxySet = []\<rparr>, evBlockTxBytes = 0, evL = l\<rparr>"
    have "prev' = prev" using prev' led rnd(1) by (simp add: ledger_shows_def)
    have lvl: "rewardsLevel s = RewardsLevel (bhRewards h')" "rewardsLevel ?cs = RewardsLevel (bhRewards h')"
      using withdraw_rewards_frame [OF w] by (simp_all add: rewardsLevel_def makeRoundCowState_def StateDelta_empty_def)
    have le: "RewardsLevel (bhRewards prev) \<le> RewardsLevel (bhRewards h')"
      using withdraw_rewards_pays [OF w] \<open>prev' = prev\<close> by metis
    have "parent_lookup (lookupParent ?cs) a = Ok (m a)" "accts (mods ?cs) = fmempty" for a
      using led rnd(1) by (simp_all add: ledger_shows_def makeRoundCowState_def base_as_parent_def StateDelta_empty_def)
    then have acct: "acct ?cs a = m a" "fmlookup (accts (mods ?cs)) a = None" for a
      by (simp_all add: acct_def cow_lookup_def)
    have "settled_by (RewardsLevel (bhRewards h')) (m a)" for a
      using led le by (auto simp: ledger_shows_def settled_by_def totals_ok_def known_status_def bases_below_def intro: order_trans)
    then have "books_ok (RewardsLevel (bhRewards h')) ?cs"
      by (simp add: books_ok_def all_settled_def olds_ok_def lvl acct)
    then show ?thesis using withdraw_rewards_books [OF w] lvl le eval by simp
  qed
qed

lemma Ledger_eval_acceptable:
  assumes run: "Ledger_eval env l d blk validate tc = Ok delta"
    and led: "ledger_shows l p prev m" and p: "Consensus (CurrentProtocol (bhUpgradeState (blkHeader blk))) = Some p"
    and rnd: "bhRound (blkHeader blk) = bhRound prev + 1" "bhRound (blkHeader blk) \<noteq> 0"
    and T: "leTotals l (bhRound prev) = Ok T" and unit: "RewardUnit p \<noteq> 0"
    and fit: "total_worth p (RewardsLevel (bhRewards (blkHeader blk))) m < 2 ^ 63"
  shows "acceptable p m T delta \<and> hdr delta = blkHeader blk"
  using run
proof (rule Ledger_evalE)
  fix eval groups eval'
  assume s: "startEvaluator env l (blkHeader blk) validate False tc = Ok eval"
    and g: "eval_groups env d 0 groups eval = (Ok (), eval')" and delta: "delta = mods (evState eval')"
  let ?lvl = "RewardsLevel (bhRewards (blkHeader blk))"
  have pos: "0 < bhRound (blkHeader blk)" using rnd(2) by (simp add: word_neq_0_conv)
  have prev: "leBlockHdr l (bhRound (blkHeader blk) - 1) = Ok prev" using led rnd(1) by (simp add: ledger_shows_def)
  note st = startEvaluator_state [OF s pos prev]
  have h: "hdr delta = blkHeader blk" using st eval_groups_frame [OF g] by (simp add: delta ev_ok_def)
  have lvl: "rewardsLevel (evState eval) = ?lvl" using st by (simp add: ev_ok_def rewardsLevel_def)
  have parent: "parent_lookup (lookupParent (evState eval')) a = Ok (m a)" for a
    using st led rnd(1) eval_groups_parent [OF g] by (simp add: ledger_shows_def)
  then have acc: "acct (evState eval') = after_delta m delta" unfolding delta by (rule acct_after_delta)
  note start = startEvaluator_books [OF s led rnd, unfolded lvl]
  then have books: "books_ok ?lvl (evState eval')" using eval_groups_books [OF g] by blast
  have at: "totals_ok p m T" "bases_below (atRewardsLevel T) m" "atRewardsLevel T = RewardsLevel (bhRewards prev)"
    using led T by (auto simp: ledger_shows_def)
  have cons: "total_worth p ?lvl (after_delta m delta) = total_worth p (RewardsLevel (bhRewards prev)) m"
    using Ledger_eval_conserves [OF run led p rnd] .
  have "total_worth p (RewardsLevel (bhRewards prev)) m \<le> total_worth p ?lvl m"
    using total_worth_level [of m "RewardsLevel (bhRewards prev)" ?lvl p] at start by (simp add: totals_ok_def)
  moreover have "\<forall>a. settled_by ?lvl (after_delta m delta a)"
    using books acc by (simp add: books_ok_def all_settled_def)
  moreover have "\<forall>a d. fmlookup (accts delta) a = Some d \<longrightarrow> old d = m a"
    using books parent by (auto simp: books_ok_def olds_ok_def delta)
  ultimately show ?thesis using at start cons fit unit h by (simp add: acceptable_def Let_def)
qed

text \<open>The part of the ledger that the evaluator reads from the account tracker.\<close>

definition serves :: "accountUpdates \<Rightarrow> ledgerForEvaluator \<Rightarrow> bool" where
  "serves au l \<longleftrightarrow> leLookup l = (\<lambda>rnd a. au_lookup au rnd a True) \<and>
     leLookupWithoutRewards l = (\<lambda>rnd a. au_lookup au rnd a False) \<and> leTotals l = au_totals au \<and>
     leGetAssetCreatorForRound l = getAssetCreatorForRound au"

text \<open>
  The books of the tracker are balanced for a protocol: the totals of the latest round are those of
  its accounts, at the rewards level of the latest header, and no account is ahead of that level.
\<close>

definition balanced :: "ConsensusParams \<Rightarrow> BlockHeader \<Rightarrow> accountUpdates \<Rightarrow> bool" where
  "balanced p h au \<longleftrightarrow> au_latest au = bhRound h \<and> atRewardsLevel (last (roundTotals au)) = RewardsLevel (bhRewards h) \<and>
     totals_ok p (au_view au (length (deltas au))) (last (roundTotals au)) \<and>
     bases_below (RewardsLevel (bhRewards h)) (au_view au (length (deltas au)))"

lemma latest_offset:
  assumes "au_shape au"
  shows "roundOffset au (au_latest au) = Ok (of_nat (length (deltas au)))" "unat (of_nat (length (deltas au)) :: u64) = length (deltas au)"
proof -
  have lim: "unat (dbRound au) + length (deltas au) < 2 ^ 64" using assms by (simp add: au_shape_def)
  show n: "unat (of_nat (length (deltas au)) :: u64) = length (deltas au)"
    using lim by (simp add: unat_of_nat)
  have "dbRound au \<le> au_latest au" using unat_add_of_nat [OF lim] by (simp add: au_latest_def word_le_nat_alt)
  then show "roundOffset au (au_latest au) = Ok (of_nat (length (deltas au)))"
    by (simp add: roundOffset_def au_latest_def)
qed

lemma served_shows:
  assumes tr: "tracks hist chist au" and sv: "serves au l" and bal: "balanced p prev au" and prev: "leBlockHdr l (bhRound prev) = Ok prev"
  shows "ledger_shows l p prev (au_view au (length (deltas au))) \<and> leTotals l (bhRound prev) = Ok (last (roundTotals au))"
proof -
  have shape: "au_shape au" and cache: "caches_ok au" using tr by (simp_all add: tracks_def)
  note off = latest_offset [OF shape]
  have rnd: "bhRound prev = au_latest au" using bal by (simp add: balanced_def)
  have len: "length (roundTotals au) = Suc (length (deltas au))" using shape by (simp add: au_shape_def)
  then have "last (roundTotals au) = roundTotals au ! length (deltas au)"
    by (cases "roundTotals au" rule: rev_cases) (simp_all add: nth_append)
  then have tot: "au_totals au (au_latest au) = Ok (last (roundTotals au))"
    using off by (simp add: au_totals_def res_bind_def)
  have raw: "au_lookup au (au_latest au) a False = Ok (au_view au (length (deltas au)) a)" for a
    using off au_raw_view [OF cache] by (simp add: au_lookup_def res_bind_def)
  show ?thesis
    using sv bal prev tot raw by (simp add: ledger_shows_def serves_def balanced_def rnd)
qed

text \<open>
  The tracker takes every block the evaluator accepts on the tracker's own data: it does not panic,
  its history is extended by the effect of the block, and its books stay balanced.
\<close>

lemma evaluated_block_taken:
  assumes tr: "tracks hist chist au" and sv: "serves au l" and bal: "balanced p prev au"
    and prev: "leBlockHdr l (bhRound prev) = Ok prev" and run: "Ledger_eval env l d blk validate tc = Ok delta"
    and p: "Consensus (CurrentProtocol (bhUpgradeState (blkHeader blk))) = Some p" and unit: "RewardUnit p \<noteq> 0"
    and rnd: "bhRound (blkHeader blk) = bhRound prev + 1" "bhRound prev < - 1"
    and fit: "total_worth p (RewardsLevel (bhRewards (blkHeader blk))) (au_view au (length (deltas au))) < 2 ^ 63"
  shows "\<exists>au'. au_newBlock blk delta au = (Ok (), au') \<and> balanced p (blkHeader blk) au' \<and>
    tracks (hist(Suc (unat (bhRound prev)) := after_delta (hist (unat (bhRound prev))) delta))
      (chist(Suc (unat (bhRound prev)) := creators_after (chist (unat (bhRound prev))) delta)) au'"
proof -
  let ?m = "au_view au (length (deltas au))"
  have L: "au_latest au = bhRound prev" using bal by (simp add: balanced_def)
  have nz: "bhRound (blkHeader blk) \<noteq> 0" using rnd unat_Suc_below [of "bhRound prev"] by (metis nat.distinct(1) unat_0)
  have cp: "ConsensusProtocol blk = p" using p by (simp add: ConsensusProtocol_def Consensus_or_zero_def)
  note served = served_shows [OF tr sv bal prev]
  from Ledger_eval_acceptable [OF run _ p rnd(1) nz _ unit fit] served
  have acc: "acceptable p ?m (last (roundTotals au)) delta" and h: "hdr delta = blkHeader blk" by blast+
  obtain au' where new: "au_newBlock blk delta au = (Ok (), au')" "totals_ok p (after_delta ?m delta) (last (roundTotals au'))"
      "atRewardsLevel (last (roundTotals au')) = RewardsLevel (bhRewards (blkHeader blk))"
    using newBlock_runs [of blk ?m au delta] acc rnd L h cp by (auto simp: Block_Round_def)
  have brnd: "Block_Round blk = au_latest au + 1" "au_latest au < - 1" using rnd L by (simp_all add: Block_Round_def)
  note tr' = newBlock_tracks [OF tr new(1) brnd, unfolded L]
  obtain t where ext: "extends au delta (ConsensusProtocol blk) t au'" using new(1) brnd by (rule newBlock_extends)
  have shape: "au_shape au" using tr by (simp add: tracks_def)
  have len: "length (assetDeltas au) = length (deltas au)" "length (deltas au') = Suc (length (deltas au))" "dbRound au' = dbRound au"
    using shape ext by (simp_all add: au_shape_def extends_def)
  have view: "au_view au' (length (deltas au')) = after_delta ?m delta"
    using extends_view(3) [OF ext le_refl len(1)] by (simp add: fun_eq_iff len(2) after_delta_def)
  have "au_latest au' = bhRound (blkHeader blk)" using len L rnd by (simp add: au_latest_def)
  moreover have "bases_below (RewardsLevel (bhRewards (blkHeader blk))) (after_delta ?m delta)"
    using acc h by (auto simp: acceptable_def settled_by_def bases_below_def Let_def)
  ultimately have "balanced p (blkHeader blk) au'" using new view by (simp add: balanced_def)
  then show ?thesis using new(1) tr' by blast
qed


section \<open>Minimum balances of a block\<close>

lemma NextRewardsState_pool: "NextRewardsState s rnd p bal n = Ok s' \<Longrightarrow> RewardsPool s' = RewardsPool s \<and> FeeSink s' = FeeSink s"
  by (auto simp: NextRewardsState_def next_rate_def next_level_def Let_def act_simps split: if_splits prod.splits)

lemma eval_groups_balances:
  assumes "eval_groups env d i groups eval = (Ok u, eval')"
  shows "balances_ok (evProto eval) (eval_spec (evBlock eval)) (evState eval) \<longrightarrow>
    balances_ok (evProto eval) (eval_spec (evBlock eval)) (evState eval')"
  using assms
proof (induction rule: eval_groups_induct)
  case (Cons grp rest eval eval1 eval2)
  then show ?case
    using transactionGroup_balances [OF Cons(1)] transactionGroup_frame(3,4) [OF Cons(1)] by (simp add: eval_spec_def)
qed simp

text \<open>Starting a block writes the rewards pool only, but for the two rounds of testnet that the bank helps out.\<close>

lemma startEvaluator_balances:
  assumes "startEvaluator env l h True generate tc = Ok eval" and "0 < bhRound h" and "leGenesisHash l \<noteq> testnetGenesisHash"
  shows "balances_ok (evProto eval) (eval_spec (evBlock eval)) (evState eval)"
  using assms(1,2)
proof (rule startEvaluatorE)
  fix proto prev at pool s and h' :: BlockHeader
  assume chk: "True \<Longrightarrow> check_header (eeHashes env) proto (leGenesisHash l) h' prev (acctMicroAlgos pool) at = Ok ()"
    and w: "withdraw_rewards proto (leGenesisHash l) h' prev at
       (makeRoundCowState (base_as_parent \<lparr>baseL = l, baseRnd = bhRound h - 1, baseTxnCount = TxnCounter prev, baseProto = proto\<rparr>) h') =
       (Ok (), s)" (is "withdraw_rewards _ _ _ _ _ ?s0 = _")
    and eval: "eval = \<lparr>evState = s, evValidate = True, evGenerate = generate, evTxcache = tc,
        evPrevHeader = prev, evProto = proto, evGenesisHash = leGenesisHash l,
        evBlock = \<lparr>blkHeader = h', blkPayset = [], blkPayProxySet = []\<rparr>, evBlockTxBytes = 0, evL = l\<rparr>"
  have pool: "RewardsPool (bhRewards h') = RewardsPool (bhRewards prev)"
    using chk by (auto simp: check_header_def act_simps NextRewardsState_pool split: if_splits)
  have "fmdom (accts (mods s)) = {|RewardsPool (bhRewards prev)|}"
    using w
  proof (rule withdraw_rewardsE)
    fix r1 r2 cs1 n d and owed algos :: u64
    assume g: "cow_Get (RewardsPool (bhRewards prev)) True ?s0 = (Ok r1, ?s0)"
      and wa: "workaroundOverspentRewards (leGenesisHash l) (RewardsPool (bhRewards prev)) r1 (bhRound h') ?s0 = (Ok r2, cs1)"
      and s: "s = put (brAddr r2) d ((brData r2)\<lparr>acctMicroAlgos := algos\<rparr>) cs1"
    have "r2 = r1 \<and> cs1 = ?s0"
      using wa assms(3) by (auto simp: workaroundOverspentRewards_def act_simps split: if_splits)
    then show ?thesis
      using cow_Get_updated(2) [OF g] by (simp add: s put_def makeRoundCowState_def StateDelta_empty_def split: option.splits)
  qed
  then show ?thesis using pool by (simp add: eval balances_ok_def eval_spec_def)
qed

lemma Ledger_eval_balances:
  assumes run: "Ledger_eval env l d blk True tc = Ok delta" and led: "ledger_shows l p prev m"
    and p: "Consensus (CurrentProtocol (bhUpgradeState (blkHeader blk))) = Some p"
    and rnd: "bhRound (blkHeader blk) = bhRound prev + 1" "bhRound (blkHeader blk) \<noteq> 0"
    and net: "leGenesisHash l \<noteq> testnetGenesisHash"
    and a: "after_delta m delta a \<noteq> m a" "a \<noteq> FeeSink (bhRewards (blkHeader blk))" "a \<noteq> RewardsPool (bhRewards (blkHeader blk))"
  shows "balance_ok p (RewardsLevel (bhRewards (blkHeader blk))) (after_delta m delta a)"
  using run
proof (rule Ledger_evalE)
  fix eval groups eval'
  assume s: "startEvaluator env l (blkHeader blk) True False tc = Ok eval"
    and g: "eval_groups env d 0 groups eval = (Ok (), eval')" and delta: "delta = mods (evState eval')"
  have pos: "0 < bhRound (blkHeader blk)" using rnd(2) by (simp add: word_neq_0_conv)
  have prev: "leBlockHdr l (bhRound (blkHeader blk) - 1) = Ok prev" using led rnd(1) by (simp add: ledger_shows_def)
  note st = startEvaluator_state [OF s pos prev] and fr = eval_groups_frame [OF g]
  have "parent_lookup (lookupParent (evState eval')) a = Ok (m a)" for a
    using st led rnd(1) eval_groups_parent [OF g] by (simp add: ledger_shows_def)
  then have acc: "acct (evState eval') = after_delta m delta" unfolding delta by (rule acct_after_delta)
  have "balances_ok p (eval_spec (evBlock eval)) (evState eval')"
    using eval_groups_balances [OF g] startEvaluator_balances [OF s pos net] st p by simp
  moreover have "a |\<in>| fmdom (accts delta)" using a(1) by (auto simp: after_delta_def fmdom_notD split: option.splits intro: fmdomI)
  moreover have "rewardsLevel (evState eval') = RewardsLevel (bhRewards (blkHeader blk))"
    using st fr by (simp add: ev_ok_def rewardsLevel_def)
  ultimately show ?thesis using a(2,3) st acc by (simp add: balances_ok_def eval_spec_def delta)
qed

end
