(* ===== verification/Upgrades.thy ===== *)
theory Upgrades
  imports Bookkeeping
begin

text \<open>
  Laws of the protocol upgrades and of generated headers (\<open>data/bookkeeping/block.go\<close>): the
  state machine that proposes, votes on and switches protocols, and that the header
  \<open>MakeBlock\<close> builds on a previous header passes \<open>PreCheck\<close> against it.
\<close>

section \<open>Protocol table\<close>

text \<open>What every entry of the table satisfies; checked by evaluation, once.\<close>

definition upgrade_params_ok :: "ConsensusParams \<Rightarrow> bool" where
  "upgrade_params_ok p \<longleftrightarrow> UpgradeVoteRounds p \<noteq> 0 \<and>
     UpgradeVoteRounds p < 2 ^ 32 \<and> UpgradeWaitRounds p < 2 ^ 32 \<and> MaxTimestampIncrement p < 2 ^ 32 \<and>
     list_all (\<lambda>(v, b). v \<noteq> [] \<and> int (length v) \<le> MaxVersionStringLen p) (ApprovedUpgrades p)"

lemma table_upgrade_params: "list_all (\<lambda>(v, p). upgrade_params_ok p) Consensus_table"
  by code_simp

lemma Consensus_upgrade_params: "Consensus v = Some p \<Longrightarrow> upgrade_params_ok p"
  using table_upgrade_params by (auto simp: Consensus_def list_all_iff dest!: map_of_SomeD)

section \<open>The upgrade state machine\<close>

text \<open>
  The state in the header of round \<open>r\<close>: without a proposal everything is cleared; with one its
  switch is still to come, and once voting is over it has the votes.
\<close>

definition upgrade_ok :: "Round \<Rightarrow> UpgradeState \<Rightarrow> bool" where
  "upgrade_ok r s \<longleftrightarrow>
     (if NextProtocol s = [] then
        NextProtocolApprovals s = 0 \<and> NextProtocolVoteBefore s = 0 \<and> NextProtocolSwitchOn s = 0
      else
        r < NextProtocolSwitchOn s \<and> NextProtocolVoteBefore s \<le> NextProtocolSwitchOn s \<and>
        (NextProtocolVoteBefore s \<le> r \<longrightarrow>
           UpgradeThreshold (Consensus_or_zero (CurrentProtocol s)) \<le> NextProtocolApprovals s))"

text \<open>The votes of a chain, the latest first: the version last proposed and the approvals it got since.\<close>

fun last_proposal :: "UpgradeVote list \<Rightarrow> ConsensusVersion" where
  "last_proposal [] = []"
| "last_proposal (v # vs) = (if UpgradePropose v \<noteq> [] then UpgradePropose v else last_proposal vs)"

fun approval_count :: "UpgradeVote list \<Rightarrow> nat" where
  "approval_count [] = 0"
| "approval_count (v # vs) =
     (if UpgradeApprove v then 1 else 0) + (if UpgradePropose v \<noteq> [] then 0 else approval_count vs)"

lemma approval_count_le: "approval_count vs \<le> length vs"
  by (induction vs) auto

inductive upgrade_reachable :: "Round \<Rightarrow> UpgradeState \<Rightarrow> UpgradeVote list \<Rightarrow> bool" where
  start: "NextProtocol s = [] \<Longrightarrow> NextProtocolApprovals s = 0 \<Longrightarrow> NextProtocolVoteBefore s = 0 \<Longrightarrow>
    NextProtocolSwitchOn s = 0 \<Longrightarrow> upgrade_reachable r s []"
| step: "upgrade_reachable r s vs \<Longrightarrow> r < 2 ^ 63 \<Longrightarrow> applyUpgradeVote s (r + 1) vote = Ok s' \<Longrightarrow>
    upgrade_reachable (r + 1) s' (vote # vs)"

definition votes_ok :: "UpgradeState \<Rightarrow> UpgradeVote list \<Rightarrow> bool" where
  "votes_ok s vs \<longleftrightarrow> NextProtocol s \<noteq> [] \<longrightarrow>
     NextProtocol s = last_proposal vs \<and> unat (NextProtocolApprovals s) = approval_count vs"

lemma next_round:
  fixes r :: Round
  assumes "r < 2 ^ 63"
  shows "unat (r + 1) = Suc (unat r)" "r + 1 \<noteq> 0" "r < r + 1"
  using unat_Suc_below [OF assms] by (auto simp: word_less_nat_alt)

lemma deadlines:
  fixes r v w :: u64
  assumes "r < 2 ^ 63" and "v < 2 ^ 32" and "w < 2 ^ 32" and "v \<noteq> 0"
  shows "r + 1 < r + 1 + v" "r + 1 + v \<le> r + 1 + v + w" "r + 1 < r + 1 + v + w"
proof -
  have lim: "unat r < 2 ^ 63" "unat v < 2 ^ 32" "unat w < 2 ^ 32" "0 < unat v"
    using assms by (simp_all add: word_less_nat_alt unat_gt_0)
  have "unat (r + 1 + v) = Suc (unat r) + unat v" "unat (r + 1 + v + w) = Suc (unat r) + unat v + unat w"
    using next_round(1) [OF assms(1)] lim by (simp_all add: unat_plus_if_size word_size)
  then show "r + 1 < r + 1 + v" "r + 1 + v \<le> r + 1 + v + w" "r + 1 < r + 1 + v + w"
    using next_round(1) [OF assms(1)] lim by (simp_all add: word_less_nat_alt word_le_nat_alt)
qed

lemma next_le:
  fixes r x :: u64
  assumes "r < 2 ^ 63"
  shows "r + 1 \<le> x \<longleftrightarrow> r < x"
  using next_round(1) [OF assms] by (simp add: word_le_nat_alt word_less_nat_alt Suc_le_eq)

text \<open>A vote either changes nothing, approves the proposal, or makes one.\<close>

lemma vote_cases [consumes 2, case_names none approve propose]:
  assumes "propose_upgrade p r vote s = Ok s1" and "approve_upgrade r vote s1 = Ok s2"
  obtains "UpgradePropose vote = []" "\<not> UpgradeApprove vote" "s2 = s"
  | "UpgradePropose vote = []" "UpgradeApprove vote" "NextProtocol s \<noteq> []" "r < NextProtocolVoteBefore s"
    "s2 = s\<lparr>NextProtocolApprovals := NextProtocolApprovals s + 1\<rparr>"
  | "UpgradePropose vote \<noteq> []" "NextProtocol s = []"
    "s2 = s\<lparr>NextProtocol := UpgradePropose vote, NextProtocolApprovals := (if UpgradeApprove vote then 1 else 0),
        NextProtocolVoteBefore := r + UpgradeVoteRounds p,
        NextProtocolSwitchOn := r + UpgradeVoteRounds p + UpgradeWaitRounds p\<rparr>"
proof (cases "UpgradePropose vote = []")
  case True
  then have s1: "s1 = s" using assms(1) by (simp add: propose_upgrade_def)
  show ?thesis
  proof (cases "UpgradeApprove vote")
    case ap: True
    with assms(2) show ?thesis
      by (intro that(2) [OF True ap]) (simp_all add: approve_upgrade_def s1 not_le split: if_split_asm)
  next
    case ap: False
    with assms(2) show ?thesis by (intro that(1) [OF True ap]) (simp add: approve_upgrade_def s1)
  qed
next
  case False
  have new: "NextProtocol s = []" and s1: "s1 = s\<lparr>NextProtocol := UpgradePropose vote, NextProtocolApprovals := 0,
      NextProtocolVoteBefore := r + UpgradeVoteRounds p,
      NextProtocolSwitchOn := r + UpgradeVoteRounds p + UpgradeWaitRounds p\<rparr>"
    using assms(1) False by (simp_all add: propose_upgrade_def split: if_split_asm)
  have "s2 = s1\<lparr>NextProtocolApprovals := (if UpgradeApprove vote then 1 else 0)\<rparr>"
  proof (cases "UpgradeApprove vote")
    case True
    with assms(2) show ?thesis by (simp add: approve_upgrade_def s1 split: if_split_asm)
  next
    case False
    with assms(2) have "s2 = s1" by (simp add: approve_upgrade_def)
    with False show ?thesis by (simp add: s1)
  qed
  then show ?thesis by (intro that(3) [OF False new]) (simp add: s1 UpgradeState.equality)
qed

definition upgrade_close :: "ConsensusParams \<Rightarrow> Round \<Rightarrow> UpgradeState \<Rightarrow> UpgradeState" where
  "upgrade_close p r s =
     (let s = (if r = NextProtocolVoteBefore s \<and> NextProtocolApprovals s < UpgradeThreshold p then clear_proposal s else s) in
      if r = NextProtocolSwitchOn s then clear_proposal (s\<lparr>CurrentProtocol := NextProtocol s\<rparr>) else s)"

lemma applyUpgradeVoteE:
  assumes "applyUpgradeVote s r vote = Ok s'"
  obtains p s1 s2 where "Consensus (CurrentProtocol s) = Some p"
    "propose_upgrade p r vote s = Ok s1" "approve_upgrade r vote s1 = Ok s2" "s' = upgrade_close p r s2"
  using assms unfolding applyUpgradeVote_def upgrade_close_def
  by (auto simp: act_simps Let_def split: option.splits)

text \<open>A state whose vote and switch are not overdue, before the round is closed.\<close>

definition pending_ok :: "ConsensusParams \<Rightarrow> Round \<Rightarrow> UpgradeState \<Rightarrow> bool" where
  "pending_ok p r s \<longleftrightarrow>
     (if NextProtocol s = [] then NextProtocolApprovals s = 0 \<and> NextProtocolVoteBefore s = 0 \<and> NextProtocolSwitchOn s = 0
      else r \<le> NextProtocolSwitchOn s \<and> NextProtocolVoteBefore s \<le> NextProtocolSwitchOn s \<and>
        (NextProtocolVoteBefore s < r \<longrightarrow> UpgradeThreshold p \<le> NextProtocolApprovals s))"

lemma close_ok:
  assumes "Consensus (CurrentProtocol s) = Some p" and "r \<noteq> 0" and "pending_ok p r s"
  shows "upgrade_ok r (upgrade_close p r s)"
    and "CurrentProtocol (upgrade_close p r s) \<noteq> CurrentProtocol s \<Longrightarrow>
      upgrade_close p r s = clear_proposal (s\<lparr>CurrentProtocol := NextProtocol s\<rparr>) \<and>
      NextProtocol s \<noteq> [] \<and> NextProtocolSwitchOn s = r \<and> UpgradeThreshold p \<le> NextProtocolApprovals s"
proof -
  have t: "Consensus_or_zero (CurrentProtocol s) = p" using assms(1) by (simp add: Consensus_or_zero_def)
  show "upgrade_ok r (upgrade_close p r s)"
  proof (cases "NextProtocol s = []")
    case True
    then show ?thesis using assms by (simp add: pending_ok_def upgrade_close_def upgrade_ok_def clear_proposal_def)
  next
    case False
    then show ?thesis
      using assms t by (auto simp: pending_ok_def upgrade_close_def upgrade_ok_def clear_proposal_def Let_def not_less)
  qed
  show "CurrentProtocol (upgrade_close p r s) \<noteq> CurrentProtocol s \<Longrightarrow>
      upgrade_close p r s = clear_proposal (s\<lparr>CurrentProtocol := NextProtocol s\<rparr>) \<and>
      NextProtocol s \<noteq> [] \<and> NextProtocolSwitchOn s = r \<and> UpgradeThreshold p \<le> NextProtocolApprovals s"
  proof -
    assume ch: "CurrentProtocol (upgrade_close p r s) \<noteq> CurrentProtocol s"
    have not: "\<not> (r = NextProtocolVoteBefore s \<and> NextProtocolApprovals s < UpgradeThreshold p)"
      using ch assms(2) by (auto simp: upgrade_close_def clear_proposal_def)
    with ch have sw: "NextProtocolSwitchOn s = r" by (simp add: upgrade_close_def split: if_split_asm)
    then have "NextProtocol s \<noteq> []" using assms(2,3) by (auto simp: pending_ok_def)
    moreover have "UpgradeThreshold p \<le> NextProtocolApprovals s"
      using not sw assms(3) calculation by (auto simp: pending_ok_def not_less order.order_iff_strict)
    ultimately show ?thesis using not sw by (auto simp: upgrade_close_def Let_def)
  qed
qed

lemma vote_pending:
  assumes v: "propose_upgrade p (r + 1) vote s = Ok s1" "approve_upgrade (r + 1) vote s1 = Ok s2"
    and p: "Consensus (CurrentProtocol s) = Some p" and ok: "upgrade_ok r s" and r: "r < 2 ^ 63"
  shows "pending_ok p (r + 1) s2 \<and> CurrentProtocol s2 = CurrentProtocol s \<and> (NextProtocolSwitchOn s2 = r + 1 \<longrightarrow> s2 = s)"
proof -
  have dl: "r + 1 < r + 1 + UpgradeVoteRounds p" "r + 1 + UpgradeVoteRounds p \<le> r + 1 + UpgradeVoteRounds p + UpgradeWaitRounds p"
      "r + 1 < r + 1 + UpgradeVoteRounds p + UpgradeWaitRounds p"
    using deadlines [OF r, of "UpgradeVoteRounds p" "UpgradeWaitRounds p"] Consensus_upgrade_params [OF p]
    by (auto simp: upgrade_params_ok_def)
  have t: "Consensus_or_zero (CurrentProtocol s) = p" using p by (simp add: Consensus_or_zero_def)
  note le = next_le [OF r]
  have lt: "x < r + 1 \<longleftrightarrow> x \<le> r" for x :: u64
    using next_round(1) [OF r] by (simp add: word_le_nat_alt word_less_nat_alt less_Suc_eq_le)
  from v show ?thesis
  proof (cases rule: vote_cases)
    case none
    then show ?thesis using ok t by (simp add: pending_ok_def upgrade_ok_def le lt split: if_splits)
  next
    case approve
    have "NextProtocolVoteBefore s \<le> NextProtocolSwitchOn s" using approve(3) ok by (simp add: upgrade_ok_def)
    then have "NextProtocolSwitchOn s \<noteq> r + 1" using approve(4) by (metis not_le)
    moreover have "\<not> NextProtocolVoteBefore s \<le> r" using approve(4) next_round(3) [OF r] by (metis less_trans not_le)
    moreover note approve
    ultimately show ?thesis using ok t by (simp add: pending_ok_def upgrade_ok_def le lt)
  next
    case propose
    define vb sw where "vb = r + 1 + UpgradeVoteRounds p" and "sw = r + 1 + UpgradeVoteRounds p + UpgradeWaitRounds p"
    have "r + 1 < vb" "vb \<le> sw" "r + 1 < sw" using dl by (simp_all add: vb_def sw_def)
    then show ?thesis using propose unfolding sw_def [symmetric] unfolding vb_def [symmetric] by (auto simp: pending_ok_def)
  qed
qed

lemma upgrade_step:
  assumes ok: "upgrade_ok r s" and r: "r < 2 ^ 63" and app: "applyUpgradeVote s (r + 1) vote = Ok s'"
  shows "upgrade_ok (r + 1) s' \<and> (CurrentProtocol s' \<noteq> CurrentProtocol s \<longrightarrow>
      CurrentProtocol s' = NextProtocol s \<and> NextProtocol s \<noteq> [] \<and> NextProtocolSwitchOn s = r + 1 \<and> NextProtocol s' = [] \<and>
      UpgradeThreshold (Consensus_or_zero (CurrentProtocol s)) \<le> NextProtocolApprovals s)"
proof -
  obtain p s1 s2 where p: "Consensus (CurrentProtocol s) = Some p"
    and v: "propose_upgrade p (r + 1) vote s = Ok s1" "approve_upgrade (r + 1) vote s1 = Ok s2"
    and s': "s' = upgrade_close p (r + 1) s2"
    using app by (rule applyUpgradeVoteE)
  have t: "Consensus_or_zero (CurrentProtocol s) = p" using p by (simp add: Consensus_or_zero_def)
  have pend: "pending_ok p (r + 1) s2" and cur: "CurrentProtocol s2 = CurrentProtocol s"
    and same: "NextProtocolSwitchOn s2 = r + 1 \<Longrightarrow> s2 = s"
    using vote_pending [OF v p ok r] by simp_all
  note c = close_ok [OF _ next_round(2) [OF r] pend, folded s', unfolded cur, OF p]
  show ?thesis using c same t by (auto simp: clear_proposal_def)
qed

lemma upgrade_votes:
  assumes vs: "votes_ok s vs" and len: "length vs \<le> unat r" and r: "r < 2 ^ 63" and app: "applyUpgradeVote s (r + 1) vote = Ok s'"
  shows "votes_ok s' (vote # vs)"
proof -
  obtain p s1 s2 where v: "propose_upgrade p (r + 1) vote s = Ok s1" "approve_upgrade (r + 1) vote s1 = Ok s2"
    and s': "s' = upgrade_close p (r + 1) s2"
    using app by (rule applyUpgradeVoteE)
  have "unat r < 2 ^ 63" using r by (simp add: word_less_nat_alt)
  then have ap: "unat (NextProtocolApprovals s + 1) = Suc (unat (NextProtocolApprovals s))"
    if "unat (NextProtocolApprovals s) = approval_count vs"
    using that approval_count_le [of vs] len by (simp add: unat_plus_if_size word_size)
  from v have "votes_ok s2 (vote # vs)"
  proof (cases rule: vote_cases)
    case approve
    then show ?thesis using vs ap by (simp add: votes_ok_def)
  qed (use vs in \<open>simp_all add: votes_ok_def\<close>)
  then show ?thesis by (auto simp: s' upgrade_close_def clear_proposal_def votes_ok_def Let_def)
qed

lemma upgrade_reachable_ok:
  "upgrade_reachable r s vs \<Longrightarrow> upgrade_ok r s \<and> votes_ok s vs \<and> length vs \<le> unat r"
proof (induction rule: upgrade_reachable.induct)
  case (step r s vs vote s')
  then show ?case using upgrade_step [of r s vote s'] upgrade_votes [of s vs r vote s'] next_round(1) [of r] by simp
qed (simp_all add: upgrade_ok_def votes_ok_def)

section \<open>Generated headers\<close>

lemma make_vote_valid:
  assumes p: "Consensus (CurrentProtocol s) = Some p" and ok: "upgrade_ok r s" and r: "r < 2 ^ 63" and s: "s = bhUpgradeState prev"
  shows "\<exists>s'. applyUpgradeVote s (r + 1) (make_vote p (r + 1) prev) = Ok s'"
proof -
  note pp = Consensus_upgrade_params [OF p]
  have dl: "r + 1 < r + 1 + UpgradeVoteRounds p"
    using deadlines [OF r, of "UpgradeVoteRounds p" "UpgradeWaitRounds p"] pp by (auto simp: upgrade_params_ok_def)
  have "\<exists>s1 s2. propose_upgrade p (r + 1) (make_vote p (r + 1) prev) s = Ok s1 \<and> approve_upgrade (r + 1) (make_vote p (r + 1) prev) s1 = Ok s2"
  proof (cases "NextProtocol s = []")
    case True
    then have vb: "NextProtocolVoteBefore s = 0" using ok by (simp add: upgrade_ok_def)
    show ?thesis
    proof (cases "filter snd (ApprovedUpgrades p)")
      case Nil
      then have "make_vote p (r + 1) prev = UpgradeVote_zero" using True vb s by (simp add: make_vote_def)
      then show ?thesis by (simp add: propose_upgrade_def approve_upgrade_def UpgradeVote_zero_def)
    next
      case (Cons kb rest)
      obtain k b where kb: "kb = (k, b)" by force
      have "(k, b) \<in> set (ApprovedUpgrades p)" using Cons kb by (metis filter_is_subset list.set_intros(1) subsetD)
      then have k: "k \<noteq> []" "int (length k) \<le> MaxVersionStringLen p"
        using pp by (auto simp: upgrade_params_ok_def list_all_iff)
      have "make_vote p (r + 1) prev = UpgradeVote_zero\<lparr>UpgradePropose := k, UpgradeApprove := True\<rparr>"
        using True vb s Cons kb by (simp add: make_vote_def)
      then show ?thesis using k dl True by (simp add: propose_upgrade_def approve_upgrade_def)
    qed
  next
    case False
    then have "UpgradePropose (make_vote p (r + 1) prev) = []" "UpgradeApprove (make_vote p (r + 1) prev) \<longrightarrow> r + 1 < NextProtocolVoteBefore s"
      using s by (auto simp: make_vote_def UpgradeVote_zero_def Let_def split: if_split_asm)
    then show ?thesis using False by (auto simp: propose_upgrade_def approve_upgrade_def not_le)
  qed
  then show ?thesis using p by (auto simp: applyUpgradeVote_def res_bind_def Let_def)
qed

lemma clamp_in_range:
  assumes "0 <s TimeStamp prev \<Longrightarrow> TimeStamp prev \<le>s TimeStamp prev + MaxTimestampIncrement params"
    and "TimeStamp bh = clamp_timestamp now (TimeStamp prev) (MaxTimestampIncrement params)"
  shows "check_timestamp params prev bh = Ok ()"
  using assms by (auto simp: check_timestamp_def clamp_timestamp_def word_sless_alt word_sle_eq)

lemma timestamp_increment:
  fixes t i :: i64
  assumes "0 <s t" and "t <s 2 ^ 62" and "i < 2 ^ 32"
  shows "t \<le>s t + i"
proof -
  have "0 < sint t" "sint t < 2 ^ 62" using assms(1,2) by (simp_all add: word_sless_alt)
  moreover have "uint i < 2 ^ 32" using assms(3) by (simp add: word_less_def)
  then have "sint i = uint i"
    using order_trans [OF _ uint_ge_0 [of i], of "- (2 ^ 63)"] by (simp add: sint_uint signed_take_bit_int_eq_self_iff)
  moreover have i: "0 \<le> sint i" "sint i < 2 ^ 32"
    using calculation uint_ge_0 [of i] \<open>uint i < 2 ^ 32\<close> by linarith+
  have "- (2 ^ 63) \<le> sint t + sint i" "sint t + sint i < 2 ^ 63" using calculation(1,2) i by simp_all
  then have "sint (t + i) = sint t + sint i"
    unfolding sint_word_ariths by (intro signed_take_bit_int_eq_self) simp_all
  with i show ?thesis by (simp add: word_sle_eq)
qed

lemma Payset_Commit_empty: "length (sha256 Hs []) = 32 \<Longrightarrow> \<exists>d. Payset_Commit Hs [] flat = Ok d"
  by (simp add: Payset_Commit_def Root_def add_leaves_def CurrentRoot_def RootAtSnapshot_def LeafCount_def
      New_def NewInMemoryMerkleTree_def act_bind_def act_return_def)

lemma MakeBlock_Ok:
  assumes p: "Consensus (CurrentProtocol (bhUpgradeState prev)) = Some p"
    and ok: "upgrade_ok (bhRound prev) (bhUpgradeState prev)" and r: "bhRound prev < 2 ^ 63"
    and up: "Consensus (NextProtocol (bhUpgradeState prev)) \<noteq> None \<or> NextProtocolSwitchOn (bhUpgradeState prev) \<noteq> bhRound prev + 1"
    and sha: "length (sha256 Hs []) = 32" and ts: "TimeStamp prev <s 2 ^ 62"
  shows "\<exists>blk. MakeBlock Hs now prev = Ok blk \<and> upgrade_ok (bhRound prev + 1) (bhUpgradeState (blkHeader blk)) \<and>
    (PreCheck Hs (blkHeader blk) prev = Ok () \<longleftrightarrow>
       bhGenesisID prev \<noteq> [] \<and> (SupportGenesisHash (ConsensusProtocol blk) \<longleftrightarrow> bhGenesisHash prev \<noteq> 0))"
proof -
  obtain s' where s': "applyUpgradeVote (bhUpgradeState prev) (bhRound prev + 1) (make_vote p (bhRound prev + 1) prev) = Ok s'"
    using make_vote_valid [OF p ok r refl] by blast
  note st = upgrade_step [OF ok r s']
  obtain q where q: "Consensus (CurrentProtocol s') = Some q"
    using st p up by (metis option.exhaust)
  obtain d where d: "Payset_Commit Hs [] (PaysetCommitFlat q) = Ok d" using Payset_Commit_empty [OF sha] by blast
  have "0 <s TimeStamp prev \<Longrightarrow> TimeStamp prev \<le>s TimeStamp prev + MaxTimestampIncrement q"
    using timestamp_increment [OF _ ts] Consensus_upgrade_params [OF q] by (simp add: upgrade_params_ok_def)
  note ts = clamp_in_range [OF this]
  show ?thesis
    using p s' q d st
    by (auto simp: MakeBlock_def Let_def res_bind_def PreCheck_def ts check_genesis_def ConsensusProtocol_def Consensus_or_zero_def)
qed

end
