(* ===== verification/Crypto_Properties.thy ===== *)
theory Crypto_Properties
  imports Bookkeeping
begin

text \<open>
  Properties of the Merkle tree, of multisignatures and of the encoding of transactions in a block.
\<close>

section \<open>Merkle trees\<close>

text \<open>
  The trees a client can reach: leaves are added and roots and audit paths of any snapshot, valid or
  not, are asked for, in any order; \<open>leaves\<close> are the hashes of the leaves so far.
\<close>

inductive tree_run :: "LogHasher \<Rightarrow> hash list \<Rightarrow> InMemoryMerkleTree \<Rightarrow> bool" for h where
  start: "tree_run h [] NewInMemoryMerkleTree"
| leaf: "tree_run h leaves mt \<Longrightarrow> HashLeaf h x = Ok e \<Longrightarrow> tree_run h (leaves @ [e]) (snd (AddLeaf h x mt))"
| root: "tree_run h leaves mt \<Longrightarrow> tree_run h leaves (snd (RootAtSnapshot h s mt))"
| path: "tree_run h leaves mt \<Longrightarrow> tree_run h leaves (snd (PathToRootAtSnapshot h n s mt))"

lemma PathToRootAtSnapshot_refuses:
  assumes "mt_ok h leaves mt" and "\<not> (0 < n \<and> n \<le> s \<and> s \<le> length leaves)"
  shows "PathToRootAtSnapshot h n s mt = (Ok [], mt)"
  using assms by (auto simp: PathToRootAtSnapshot_def act_bind_def LeafCount_run act_return_def)

lemma tree_run_ok: "tree_run h leaves mt \<Longrightarrow> mt_ok h leaves mt"
proof (induction rule: tree_run.induct)
  case start
  show ?case by (rule mt_ok_new)
next
  case (leaf leaves mt x e)
  then obtain mt' where "addLeafHash e mt = (Ok (Suc (length leaves), e), mt')" "mt_ok h (leaves @ [e]) mt'"
    using addLeafHash_run by blast
  then show ?case using leaf by (simp add: AddLeaf_def act_bind_def act_lift_def)
next
  case (root leaves mt s)
  then show ?case using RootAtSnapshot_run [of h leaves mt s] by auto
next
  case (path leaves mt n s)
  then show ?case
    using PathToRootAtSnapshot_run [of h leaves mt n s] PathToRootAtSnapshot_refuses [of h leaves mt n s]
    by (cases "0 < n \<and> n \<le> s \<and> s \<le> length leaves") auto
qed

definition sample_hasher :: LogHasher where
  "sample_hasher = New (\<lambda>bs. 0xff # bs)"

lemma sample_tree_run: "\<exists>mt. tree_run sample_hasher [[0xff, 0, 5], [0xff, 0, 6], [0xff, 0, 7]] mt"
proof -
  have h: "HashLeaf sample_hasher x = Ok (0xff # 0 # x)" for x
    by (simp add: sample_hasher_def New_def LeafHashPrefix_def)
  note step = tree_run.leaf [OF _ h]
  show ?thesis using step [OF step [OF step [OF tree_run.start, of "[5]"], of "[6]"], of "[7]"] by auto
qed

text \<open>
  C18: After any sequence of insertions and queries, the root of every past or present snapshot
  that the lazily updated tree answers is the tree hash of RFC 6962 over the leaves of that
  snapshot, and a snapshot of the future gives the empty answer; no query panics.
\<close>

theorem RootAtSnapshot_tree_hash:
  assumes "tree_run h leaves mt"
  shows "fst (RootAtSnapshot h s mt) = Ok (if s \<le> length leaves then tree_hash h (take s leaves) else [])"
  using RootAtSnapshot_run [OF tree_run_ok [OF assms], of s] by auto

theorem RootAtSnapshot_tree_hash_witness:
  "\<exists>mt. tree_run sample_hasher [[0xff, 0, 5], [0xff, 0, 6], [0xff, 0, 7]] mt \<and>
     fst (RootAtSnapshot sample_hasher 3 mt) =
       Ok (HashChildren sample_hasher (HashChildren sample_hasher [0xff, 0, 5] [0xff, 0, 6]) [0xff, 0, 7])"
  using sample_tree_run RootAtSnapshot_tree_hash [of sample_hasher "[[0xff, 0, 5], [0xff, 0, 6], [0xff, 0, 7]]" _ 3]
  by (auto simp: tree_hash_def numeral_eq_Suc)

text \<open>
  C19: After any sequence of insertions and queries, the audit path of a leaf of a snapshot exists
  and, folded with the hash of the leaf by the rule of RFC 6962, gives the root of the snapshot.
\<close>

theorem audit_path_proves_leaf:
  assumes "tree_run h leaves mt" and "0 < n" "n \<le> s" "s \<le> length leaves"
  shows "\<exists>path. fst (PathToRootAtSnapshot h n s mt) = Ok path \<and>
    path_root h (n - 1) (s - 1) (leaves ! (n - 1)) (map Value path) = tree_hash h (take s leaves)"
  using PathToRootAtSnapshot_run [OF tree_run_ok [OF assms(1)] assms(2-4)] by auto

theorem audit_path_proves_leaf_witness:
  "\<exists>mt path. tree_run sample_hasher [[0xff, 0, 5], [0xff, 0, 6], [0xff, 0, 7]] mt \<and>
     fst (PathToRootAtSnapshot sample_hasher 2 3 mt) = Ok path \<and>
     path_root sample_hasher 1 2 [0xff, 0, 6] (map Value path) =
       HashChildren sample_hasher (HashChildren sample_hasher [0xff, 0, 5] [0xff, 0, 6]) [0xff, 0, 7]"
  using sample_tree_run audit_path_proves_leaf [of sample_hasher "[[0xff, 0, 5], [0xff, 0, 6], [0xff, 0, 7]]" _ 2 3]
  by (fastforce simp: tree_hash_def numeral_eq_Suc)

section \<open>Multisignatures\<close>

text \<open>
  C20: Verification accepts a multisignature exactly when it has version 1, the address is the
  hash of its version, threshold and keys, at most 255 keys are listed, the first entry is not
  blank, and at least the threshold of entries carry signatures, all of them valid; in particular
  the 8-bit counter of the code does not wrap into acceptance.
\<close>

theorem MultisigVerify_accepts_iff: "fst (MultisigVerify H V msg addr sig) \<longleftrightarrow> msig_valid H V msg addr sig"
  by (rule MultisigVerify_iff)

definition sample_key :: "PublicKey \<Rightarrow> string SecretKey" where
  "sample_key k = \<lparr>SignatureVerifier = k, skSign = (\<lambda>msg. ucast k + 1000)\<rparr>"

definition sample_verifier :: "string verifier" where
  "sample_verifier k msg sg = (sg = ucast k + 1000)"

definition sample_partial :: "PublicKey \<Rightarrow> MultisigSig" where
  "sample_partial k = \<lparr>msVersion = 1, msThreshold = 2,
     Subsigs = Some (map (\<lambda>i. \<lparr>Key = i, subSig = (if i = k then ucast k + 1000 else 0)\<rparr>) [11, 12, 13])\<rparr>"

lemma sample_partial_signs:
  "k \<in> {11, 12, 13} \<Longrightarrow> MultisigSign (\<lambda>_. 77) msg 77 1 2 [11, 12, 13] (sample_key k) = Ok (sample_partial k)"
  by (auto simp: MultisigSign_def MultisigAddrGen_def sample_key_def sample_partial_def res_bind_def)

text \<open>
  C21: When enough distinct owners of listed keys sign, assembling their partial signatures
  succeeds and the result verifies.  The signature scheme is correct on the signers' keys and gives
  no signature that is all zero, the value the code reserves for a missing one.
\<close>

theorem sign_assemble_verifies:
  assumes "list_all2 (\<lambda>sk sig. MultisigSign H msg addr 1 t pk sk = Ok sig) sks sigs"
    and "\<forall>sk\<in>set sks. V (SignatureVerifier sk) msg (skSign sk msg) \<and> skSign sk msg \<noteq> 0"
    and "unat t \<le> card (SignatureVerifier ` set sks)"
    and "2 \<le> length sks" and "length pk \<le> 255" and "pk ! 0 \<noteq> 0"
  shows "\<exists>msig. MultisigAssemble sigs = Ok msig \<and> fst (MultisigVerify H V msg addr msig)"
  unfolding MultisigVerify_iff by (rule sign_assemble_valid) (use assms in auto)

theorem sign_assemble_verifies_witness:
  "\<exists>msig. MultisigAssemble [sample_partial 11, sample_partial 13] = Ok msig \<and>
     fst (MultisigVerify (\<lambda>_. 77) sample_verifier ''msg'' 77 msig)"
proof (rule sign_assemble_verifies [where sks = "[sample_key 11, sample_key 13]" and t = 2 and pk = "[11, 12, 13]"])
  show "list_all2 (\<lambda>sk sig. MultisigSign (\<lambda>_. 77) ''msg'' 77 1 2 [11, 12, 13] sk = Ok sig)
      [sample_key 11, sample_key 13] [sample_partial 11, sample_partial 13]"
    by (simp add: sample_partial_signs)
  show "\<forall>sk\<in>set [sample_key 11, sample_key 13].
      sample_verifier (SignatureVerifier sk) ''msg'' (skSign sk ''msg'') \<and> skSign sk ''msg'' \<noteq> 0"
    by (simp add: sample_key_def sample_verifier_def)
qed (simp_all add: sample_key_def)

text \<open>
  C22: Two multisignatures merge exactly when they have the same version, threshold and keys and never hold different
  signatures at one position; the merge then has the same version, threshold and keys and holds, position by
  position, the signatures of both and no others.
\<close>

theorem merge_collects_signatures:
  "MultisigMerge a b = Ok c \<longleftrightarrow>
     msVersion b = msVersion a \<and> msVersion c = msVersion a \<and> msThreshold b = msThreshold a \<and> msThreshold c = msThreshold a \<and>
     Subsigs c \<noteq> None \<and> map Key (elems (Subsigs b)) = map Key (elems (Subsigs a)) \<and>
     map Key (elems (Subsigs c)) = map Key (elems (Subsigs a)) \<and> signed_at c = signed_at a \<union> signed_at b"
  by (rule MultisigMerge_iff)

section \<open>Transactions in a block\<close>

text \<open>
  C23: What the encoding of a signed transaction in a block leaves out (the genesis fields) the
  decoding puts back: decoding an encoded transaction gives the transaction, without its caches,
  and its apply data, under every protocol whose blocks hold signed transactions in this form (version 11 and later).
\<close>

theorem EncodeSignedTxn_roundtrip:
  assumes "EncodeSignedTxn bh st ad = Ok stb"
    and "SupportSignedTxnInBlock (Consensus_or_zero (CurrentProtocol (bhUpgradeState bh)))"
  shows "DecodeSignedTxn bh stb = Ok (SignedTxn_ResetCaches st, ad)"
  using assms by (rule encode_decode)

definition sample_block_header :: BlockHeader where
  "sample_block_header = BlockHeader_zero\<lparr>bhGenesisID := ''net'', bhGenesisHash := 9,
     bhUpgradeState := UpgradeState_zero\<lparr>CurrentProtocol := ConsensusV19\<rparr>\<rparr>"

definition sample_signed :: SignedTxn where
  "sample_signed = SignedTxn_zero\<lparr>Txn := Transaction_zero\<lparr>txHeader := Header_zero\<lparr>txGenesisID := ''net'', txGenesisHash := 9\<rparr>\<rparr>\<rparr>"

lemma sample_block_supports:
  "SupportSignedTxnInBlock (Consensus_or_zero (CurrentProtocol (bhUpgradeState sample_block_header)))"
  by code_simp

theorem EncodeSignedTxn_roundtrip_witness:
  "\<exists>stb. EncodeSignedTxn sample_block_header sample_signed ApplyData_zero = Ok stb \<and>
     DecodeSignedTxn sample_block_header stb = Ok (SignedTxn_ResetCaches sample_signed, ApplyData_zero)"
proof -
  obtain stb where stb: "EncodeSignedTxn sample_block_header sample_signed ApplyData_zero = Ok stb"
    by (simp add: EncodeSignedTxn_def sample_block_supports Let_def)
      (simp add: sample_block_header_def sample_signed_def)
  then show ?thesis using EncodeSignedTxn_roundtrip [OF stb sample_block_supports] by blast
qed

text \<open>
  C24: The groups of a payset are the one way to cut it, without loss and in order, into nonempty groups of
  one group field each, single transactions where that field is zero, such that no two neighbouring groups have the
  same nonzero field: a group is never split.
\<close>

theorem SignedTxnsToGroups_partition:
  "SignedTxnsToGroups txns = gs \<longleftrightarrow>
     SignedTxnGroupsFlatten gs = txns \<and> list_all (well_grouped (\<lambda>st. Group (txHeader (Txn st)))) gs \<and>
     separated (\<lambda>st. Group (txHeader (Txn st))) gs"
proof
  assume "SignedTxnsToGroups txns = gs"
  then show "SignedTxnGroupsFlatten gs = txns \<and> list_all (well_grouped (\<lambda>st. Group (txHeader (Txn st)))) gs \<and>
      separated (\<lambda>st. Group (txHeader (Txn st))) gs"
    using split_groups_well [of "[]" "\<lambda>st. Group (txHeader (Txn st))" "[]" txns]
      split_groups_separated [of "\<lambda>st. Group (txHeader (Txn st))" "[]" "[]" txns]
    by (auto simp: SignedTxnGroupsFlatten_def SignedTxnsToGroups_def foldl_append_concat concat_split_groups list_all_iff)
next
  assume "SignedTxnGroupsFlatten gs = txns \<and> list_all (well_grouped (\<lambda>st. Group (txHeader (Txn st)))) gs \<and>
      separated (\<lambda>st. Group (txHeader (Txn st))) gs"
  then show "SignedTxnsToGroups txns = gs"
    using split_groups_unique [of "\<lambda>st. Group (txHeader (Txn st))" gs]
    by (auto simp: SignedTxnGroupsFlatten_def SignedTxnsToGroups_def foldl_append_concat)
qed

text \<open>
  The equality of logic signatures does not compare the programs: two of them with different
  programs are equal when their signatures and arguments are.
\<close>

lemma Lsig_Equal_ignores_logic:
  "Lsig_Equal (LogicSig_zero\<lparr>Logic := [1]\<rparr>) (LogicSig_zero\<lparr>Logic := [2]\<rparr>)"
  by (simp add: Lsig_Equal_def LogicSig_zero_def Msig_Equal_def)

end
