(* ===== verification/Teal_Properties.thy ===== *)
theory Teal_Properties
  imports Teal_Exec
begin

text \<open>Properties of the virtual machine for logic signatures.\<close>

definition sample_params :: EvalParams where
  "sample_params = \<lparr>epTxn = SignedTxn_zero, epProto = Some v19, epTxnGroup = [], epGroupIndex = 0, epFirstValidTimeStamp = 0\<rparr>"

definition sample_crypto :: teal_crypto where
  "sample_crypto = \<lparr>tcSHA256 = (\<lambda>bs. bs), tcKeccak256 = (\<lambda>bs. bs), tcSHA512_256 = (\<lambda>bs. bs),
     tcProgramHash = (\<lambda>_. 0), tcVerify = (\<lambda>_ _ _. False), tcTxnHash = (\<lambda>_. 0)\<rparr>"

text \<open>
  C25: No program, well-formed or not, makes the interpreter panic: the recovery in \<open>Eval\<close> is never
  needed, because every index the operators take into the stack, the program, the constants and the
  scratch space is in range.
\<close>

theorem Eval_never_panics:
  assumes "length prog < 2 ^ 63"
  shows "(\<forall>e. eval_body tc prog params \<noteq> Panic e) \<and> Eval tc prog params = eval_body tc prog params"
  using eval_body_no_panic [OF assms, of tc params]
  by (cases "eval_body tc prog params") (auto simp: Eval_body recovered_def)

theorem Eval_never_panics_witness:
  "Eval sample_crypto [1, 0x48] sample_params = eval_body sample_crypto [1, 0x48] sample_params"
  using Eval_never_panics [of "[1, 0x48]" sample_crypto sample_params] by simp

text \<open>
  C26: The static check is sound for the execution: when \<open>Check\<close> accepts a program with a cost within
  the protocol's limit, no evaluation of it, on any transaction and arguments, is stopped for its cost, for
  jumping back, for an unknown opcode or for missing immediate bytes.
\<close>

theorem Check_bounds_Eval:
  assumes "Check prog params' = Ok c" and "epProto params' = epProto params" and "length prog < 2 ^ 63"
    and "\<forall>p. epProto params = Some p \<longrightarrow> c \<le> unat (LogicSigMaxCost p)"
  shows "Eval tc prog params \<notin> Err ` static_errors"
  using Check_bounds_eval [OF assms] by blast

lemma sample_check: "Check [1, 0] sample_params = Ok 1"
  by code_simp

lemma sample_max: "LogicSigMaxCost v19 = 20000"
  by code_simp

theorem Check_bounds_Eval_witness:
  "Check [1, 0] sample_params = Ok 1 \<and> Eval sample_crypto [1, 0] sample_params \<notin> Err ` static_errors"
  using Check_bounds_Eval [OF sample_check, of sample_params sample_crypto] sample_check sample_max
  by (simp add: sample_params_def)

text \<open>
  C27: The 128-bit product of two 64-bit values is exact: the two words pushed by the operator are the
  quotient and the remainder of the product by two to the 64, and the operator never fails.
\<close>

theorem mulw_is_exact:
  "\<exists>high low. opMulwImpl x y = Ok (high, low) \<and> unat high * 2 ^ 64 + unat low = unat x * unat y"
  by (rule opMulwImpl_exact)

text \<open>
  C28: Converting an integer on the stack to bytes and back restores the machine.
\<close>

theorem itob_btoi_roundtrip:
  assumes "stack cx = y # r" and "Bytes y = None"
  shows "res_bind (opItob tc cx) (opBtoi tc) = Ok cx"
proof -
  have "length (PutUint64 (Uint y)) = 8" by (simp add: PutUint64_def)
  then show ?thesis
    using assms by (simp add: opItob_def opBtoi_def with_top_def res_bind_def btoi_itob Let_def)
qed

theorem itob_btoi_roundtrip_witness:
  "res_bind (opItob sample_crypto (start_context sample_params [] 1 0 0\<lparr>stack := [\<lparr>Uint = 258, Bytes = None\<rparr>]\<rparr>)) (opBtoi sample_crypto) =
     Ok (start_context sample_params [] 1 0 0\<lparr>stack := [\<lparr>Uint = 258, Bytes = None\<rparr>]\<rparr>)"
  by (rule itob_btoi_roundtrip [where y = "\<lparr>Uint = 258, Bytes = None\<rparr>" and r = "[]"]) simp_all

end
