(* ===== verification/Account_Properties.thy ===== *)
theory Account_Properties
  imports Cow Totals
begin

text \<open>
  Properties of accounts and transactions: arithmetic, deferred rewards, the effect of every
  transaction on the ledger's view of accounts, the layers of that view, and the totals.
\<close>

section \<open>Concrete inputs\<close>

text \<open>A small ledger state on which the statements with hypotheses are exercised.\<close>

definition sample_account :: "u64 \<Rightarrow> AccountData" where
  "sample_account n = MakeAccountData Online n"

definition sample_base :: roundCowParent where
  "sample_base =
     \<lparr>parent_lookup = (\<lambda>a. Ok (if a = 1 then sample_account 10000000 else
                             if a = 2 then sample_account 2000000 else AccountData_zero)),
      parent_isDup = (\<lambda>_ _ _ _. Ok False),
      parent_txnCounter = 0,
      parent_getAssetCreator = (\<lambda>_. Err (Errorf ''asset does not exist''))\<rparr>"

definition sample_header :: BlockHeader where
  "sample_header = BlockHeader_zero\<lparr>bhRound := 5, bhRewards := RewardsState_zero\<lparr>RewardsLevel := 3\<rparr>\<rparr>"

definition sample_cow :: roundCowState where
  "sample_cow = \<lparr>lookupParent = sample_base, cowProto = v19, mods = StateDelta_empty sample_header\<rparr>"

definition sample_spec :: SpecialAddresses where
  "sample_spec = \<lparr>spFeeSink = 7, spRewardsPool = 8\<rparr>"

definition sample_pay :: Transaction where
  "sample_pay = Transaction_zero\<lparr>txType := PaymentTx,
     txHeader := Header_zero\<lparr>Sender := 1, Fee := 1000, FirstValid := 1, LastValid := 9\<rparr>,
     txPayment := PaymentTxnFields_zero\<lparr>Receiver := 2, Amount := 500000\<rparr>\<rparr>"

definition is_Ok :: "('e, 'a) result \<Rightarrow> bool" where
  "is_Ok r = (case r of Ok _ \<Rightarrow> True | _ \<Rightarrow> False)"

lemma is_OkE:
  assumes "is_Ok (fst (m s))"
  obtains x s' where "m s = (Ok x, s')"
  using assms by (cases "m s") (auto simp: is_Ok_def split: result.splits)

lemma sample_pay_runs: "is_Ok (fst (Transaction_Apply cowBalances sample_pay sample_spec 0 sample_cow))"
  by code_simp

section \<open>Transactions on the ledger's view\<close>

text \<open>
  C13: A transaction that applies to the copy-on-write view neither creates nor destroys money:
  the balances of all accounts together with their pending rewards stay the same, for every
  transaction type.
\<close>

theorem cow_Apply_conserves_money:
  assumes "Transaction_Apply cowBalances tx spec ctr cs = (Ok ad, cs')"
  shows "total_worth (cowProto cs) (rewardsLevel cs) (acct cs') =
    total_worth (cowProto cs) (rewardsLevel cs) (acct cs)"
  using cow.Transaction_Apply_keeps [OF assms] by (auto simp: cow.wealth_def)

theorem cow_Apply_conserves_money_witness:
  "\<exists>ad cs'. Transaction_Apply cowBalances sample_pay sample_spec 0 sample_cow = (Ok ad, cs') \<and>
     total_worth v19 3 (acct cs') = total_worth v19 3 (acct sample_cow)"
proof -
  obtain ad cs' where run: "Transaction_Apply cowBalances sample_pay sample_spec 0 sample_cow = (Ok ad, cs')"
    using sample_pay_runs by (rule is_OkE)
  moreover have "cowProto sample_cow = v19" "rewardsLevel sample_cow = 3"
    by (simp_all add: sample_cow_def rewardsLevel_def sample_header_def)
  ultimately show ?thesis using cow_Apply_conserves_money [OF run] by auto
qed

definition sample_asset :: AssetParams where
  "sample_asset = AssetParams_zero\<lparr>apTotal := 100, apManager := 1, apClawback := 1\<rparr>"

definition sample_create :: Transaction where
  "sample_create = Transaction_zero\<lparr>txType := AssetConfigTx,
     txHeader := Header_zero\<lparr>Sender := 1, Fee := 1000, FirstValid := 1, LastValid := 9\<rparr>,
     txAssetConfig := AssetConfigTxnFields_zero\<lparr>ccAssetParams := sample_asset\<rparr>\<rparr>"

lemma sample_create_runs: "is_Ok (fst (Transaction_Apply cowBalances sample_create sample_spec 0 sample_cow))"
  by code_simp

lemma sample_cow_accounts:
  "acct sample_cow a = (if a = 1 then sample_account 10000000 else if a = 2 then sample_account 2000000 else AccountData_zero)"
  by (simp add: acct_def cow_lookup_def sample_cow_def sample_base_def StateDelta_empty_def)

lemma sample_no_assets: "acctAssets (acct sample_cow a) = None" "acctAssetParams (acct sample_cow a) = None"
  by (simp_all add: sample_cow_accounts sample_account_def MakeAccountData_def AccountData_zero_def)

text \<open>
  C14: A transaction keeps the assets in order: of every asset exactly the issued units are held, every
  creator has a slot for its own asset, and asset indices stay at most the transaction counter, so that the
  index of a new asset is fresh.
\<close>

theorem cow_Apply_keeps_assets:
  assumes "Transaction_Apply cowBalances tx spec ctr cs = (Ok ad, cs')"
    and "assets_ok (unat ctr) (acct cs)" and "Suc (unat ctr) < 2 ^ 64"
  shows "assets_ok (Suc (unat ctr)) (acct cs')"
  using assms by (rule cow.Transaction_Apply_assets_ok)

theorem cow_Apply_keeps_assets_witness:
  "\<exists>ad cs'. Transaction_Apply cowBalances sample_create sample_spec 0 sample_cow = (Ok ad, cs') \<and>
     assets_ok 0 (acct sample_cow) \<and> assets_ok 1 (acct cs')"
proof -
  obtain ad cs' where run: "Transaction_Apply cowBalances sample_create sample_spec 0 sample_cow = (Ok ad, cs')"
    using sample_create_runs by (rule is_OkE)
  moreover have ok: "assets_ok (unat (0 :: u64)) (acct sample_cow)"
    by (simp add: assets_ok_def supply_ok_def indices_upto_def creators_hold_def held_def issued_def
        units_held_def units_issued_def holding_amount_def gget_def sample_no_assets)
  ultimately show ?thesis using cow_Apply_keeps_assets [OF run ok] by simp
qed

text \<open>
  C15: A transaction takes money from its sender only: no other account, the fee sink and the rewards
  pool included, is worth less afterwards.
\<close>

theorem only_sender_loses_money:
  assumes "Transaction_Apply cowBalances tx spec ctr cs = (Ok ad, cs')" and "a \<noteq> Sender (txHeader tx)"
  shows "worth (cowProto cs) (rewardsLevel cs) (acct cs a) \<le> worth (cowProto cs) (rewardsLevel cs) (acct cs' a)"
  using cow.Transaction_Apply_not_debited [OF assms] by simp

theorem only_sender_loses_money_witness:
  "\<exists>ad cs'. Transaction_Apply cowBalances sample_pay sample_spec 0 sample_cow = (Ok ad, cs') \<and>
     worth (cowProto sample_cow) (rewardsLevel sample_cow) (acct sample_cow 2) \<le>
     worth (cowProto sample_cow) (rewardsLevel sample_cow) (acct cs' 2)"
proof -
  obtain ad cs' where run: "Transaction_Apply cowBalances sample_pay sample_spec 0 sample_cow = (Ok ad, cs')"
    using sample_pay_runs by (rule is_OkE)
  then show ?thesis using only_sender_loses_money [OF run, of 2] by (simp add: sample_pay_def)
qed

definition sample_asset_base :: roundCowParent where
  "sample_asset_base = sample_base\<lparr>
     parent_lookup := (\<lambda>a. Ok (if a = 1 then (sample_account 10000000)
           \<lparr>acctAssets := Some (fmap_of_list [(5, \<lparr>ahAmount = 70, ahFrozen = False\<rparr>)]),
            acctAssetParams := Some (fmap_of_list [(5, sample_asset)])\<rparr>
         else if a = 2 then (sample_account 2000000)
           \<lparr>acctAssets := Some (fmap_of_list [(5, \<lparr>ahAmount = 30, ahFrozen = False\<rparr>)])\<rparr>
         else AccountData_zero)),
     parent_getAssetCreator := (\<lambda>i. if i = 5 then Ok 1 else Err (Errorf ''asset does not exist''))\<rparr>"

definition sample_asset_cow :: roundCowState where
  "sample_asset_cow = sample_cow\<lparr>lookupParent := sample_asset_base\<rparr>"

definition sample_clawback :: Transaction where
  "sample_clawback = Transaction_zero\<lparr>txType := AssetTransferTx,
     txHeader := Header_zero\<lparr>Sender := 1, Fee := 1000, FirstValid := 1, LastValid := 9\<rparr>,
     txAssetTransfer := \<lparr>XferAsset = 5, AssetAmount = 20, AssetSender = 2, AssetReceiver = 1, AssetCloseTo = 0\<rparr>\<rparr>"

lemma sample_clawback_runs:
  "case Transaction_Apply cowBalances sample_clawback sample_spec 0 sample_asset_cow of
     (r, cs') \<Rightarrow> is_Ok r \<and> units_held 5 (acct cs' 2) = 10 \<and> units_held 5 (acct sample_asset_cow 2) = 30"
  by code_simp

text \<open>
  C16: Nobody but the sender of a transaction loses units of an asset, except to the asset's clawback
  address, or as the creator whose asset its manager destroys.
\<close>

theorem units_taken_by_right_only:
  assumes "Transaction_Apply cowBalances tx spec ctr cs = (Ok ad, cs')" and "a \<noteq> Sender (txHeader tx)"
    and "units_held i (acct cs' a) < units_held i (acct cs a)"
  shows "txType tx = AssetTransferTx \<and> a = AssetSender (txAssetTransfer tx) \<and>
      i = XferAsset (txAssetTransfer tx) \<and>
      (\<exists>c p. gget (acctAssetParams (acct cs c)) i = Some p \<and> apClawback p = Sender (txHeader tx)) \<or>
    txType tx = AssetConfigTx \<and> i = ConfigAsset (txAssetConfig tx) \<and>
      ccAssetParams (txAssetConfig tx) = AssetParams_zero \<and>
      (\<exists>p. gget (acctAssetParams (acct cs a)) i = Some p \<and> apManager p = Sender (txHeader tx))"
  using assms by (rule cow.Transaction_Apply_units)

theorem units_taken_by_right_only_witness:
  "\<exists>ad cs'. Transaction_Apply cowBalances sample_clawback sample_spec 0 sample_asset_cow = (Ok ad, cs') \<and>
     units_held 5 (acct cs' 2) < units_held 5 (acct sample_asset_cow 2) \<and>
     (\<exists>c p. gget (acctAssetParams (acct sample_asset_cow c)) 5 = Some p \<and> apClawback p = 1)"
proof -
  obtain ad cs' where run: "Transaction_Apply cowBalances sample_clawback sample_spec 0 sample_asset_cow = (Ok ad, cs')"
    and less: "units_held 5 (acct cs' 2) < units_held 5 (acct sample_asset_cow 2)"
    using sample_clawback_runs by (auto simp: is_Ok_def split: prod.splits result.splits)
  have "txHeader sample_clawback = Header_zero\<lparr>Sender := 1, Fee := 1000, FirstValid := 1, LastValid := 9\<rparr>"
    "txType sample_clawback = AssetTransferTx"
    by (simp_all add: sample_clawback_def)
  with units_taken_by_right_only [OF run _ less] run less show ?thesis by auto
qed

section \<open>Rewards\<close>

text \<open>
  C29: Updating the rewards of an account succeeds exactly when its reward base is not ahead of the
  level and its balance with the pending rewards fits 64 bits (an account out of the rewards always
  succeeds); then the new balance is the old one plus the pending rewards, nothing is pending any more, and
  assets and status are kept.
\<close>

theorem WithUpdatedRewards_exact:
  "case WithUpdatedRewards proto lvl u of
     Ok u' \<Rightarrow> rewards_ok proto lvl u \<and> unat (acctMicroAlgos u') = worth proto lvl u \<and> pending_rewards proto lvl u' = 0 \<and>
       acctStatus u' = acctStatus u \<and> acctAssets u' = acctAssets u \<and> acctAssetParams u' = acctAssetParams u
   | _ \<Rightarrow> \<not> rewards_ok proto lvl u"
proof (cases "WithUpdatedRewards proto lvl u")
  case (Ok u')
  then show ?thesis
    using WithUpdatedRewards_Ok_iff_ok [of proto lvl u] WithUpdatedRewards_OkD [OF Ok]
      WithUpdatedRewards_settles(1) [OF Ok, of "acctMicroAlgos u'"] by auto
qed (use WithUpdatedRewards_Ok_iff_ok [of proto lvl u] in auto)

text \<open>
  C30: When the sums fit 64 bits, the reward level of the next round and its residue share out the rate
  and the old residue exactly over the reward units.
\<close>

theorem next_level_distributes_exactly:
  assumes "unat (RewardsRate s) + unat (RewardsResidue s) < 2 ^ 64"
    and "unat (RewardsLevel s) + (unat (RewardsRate s) + unat (RewardsResidue s)) div unat n < 2 ^ 64"
    and "n \<noteq> 0"
  shows "(unat (RewardsLevel (next_level s n res)) - unat (RewardsLevel s)) * unat n +
      unat (RewardsResidue (next_level s n res)) = unat (RewardsRate s) + unat (RewardsResidue s)"
  using next_level_exact [OF assms] by simp

theorem next_level_distributes_exactly_witness:
  "let s = RewardsState_zero\<lparr>RewardsRate := 100, RewardsResidue := 7, RewardsLevel := 3\<rparr> in
   (unat (RewardsLevel (next_level s 10 s)) - 3) * 10 + unat (RewardsResidue (next_level s 10 s)) = 107"
  using next_level_distributes_exactly [of "RewardsState_zero\<lparr>RewardsRate := 100, RewardsResidue := 7, RewardsLevel := 3\<rparr>" 10]
  by (simp add: RewardsState_zero_def)

text \<open>
  C31: The overflow tracker reports an overflow of a sum, a difference or a product exactly when the
  result does not fit (or one was reported before), and otherwise the 64-bit result is the mathematical one.
\<close>

theorem tracked_arithmetic_exact:
  "(case ot_Add a b t of (r, t') \<Rightarrow>
      if Overflowed t \<or> 2 ^ 64 \<le> unat a + unat b then Overflowed t' else \<not> Overflowed t' \<and> unat r = unat a + unat b) \<and>
   (case ot_Sub a b t of (r, t') \<Rightarrow>
      if Overflowed t \<or> unat a < unat b then Overflowed t' else \<not> Overflowed t' \<and> unat r + unat b = unat a) \<and>
   (case ot_Mul a b t of (r, t') \<Rightarrow>
      if Overflowed t \<or> 2 ^ 64 \<le> unat a * unat b then Overflowed t' else \<not> Overflowed t' \<and> unat r = unat a * unat b)"
proof (intro conjI)
  show "case ot_Add a b t of (r, t') \<Rightarrow>
      if Overflowed t \<or> 2 ^ 64 \<le> unat a + unat b then Overflowed t' else \<not> Overflowed t' \<and> unat r = unat a + unat b"
    using OAdd_fits [of a b] OAdd_nat [of a b "fst (OAdd a b)"] by (cases "OAdd a b") (auto simp: ot_Add_def ot_note_def)
  show "case ot_Sub a b t of (r, t') \<Rightarrow>
      if Overflowed t \<or> unat a < unat b then Overflowed t' else \<not> Overflowed t' \<and> unat r + unat b = unat a"
    using OSub_fits [of a b] OSub_nat [of a b "fst (OSub a b)"] by (cases "OSub a b") (auto simp: ot_Sub_def ot_note_def)
  show "case ot_Mul a b t of (r, t') \<Rightarrow>
      if Overflowed t \<or> 2 ^ 64 \<le> unat a * unat b then Overflowed t' else \<not> Overflowed t' \<and> unat r = unat a * unat b"
    using OMul_fits [of a b] OMul_nat [of a b "fst (OMul a b)"] by (cases "OMul a b") (auto simp: ot_Mul_def ot_note_def)
qed

section \<open>Layers\<close>

text \<open>
  C17: Committing a child layer to its parent makes the parent show exactly what the child showed: the
  same accounts, asset creators, duplicate answers and transaction counter.  The child has the parent's header, its
  leases have not expired, and its transactions are new.
\<close>

theorem commit_shows_child:
  assumes "descends c p" and "leases_live c" and "fmdom (Txids (mods c)) |\<inter>| fmdom (Txids (mods p)) = {||}"
  shows "cow_lookup (commitToParent c p) = cow_lookup c \<and>
    getAssetCreator (commitToParent c p) = getAssetCreator c \<and>
    cow_isDup (commitToParent c p) = cow_isDup c \<and> txnCounter (commitToParent c p) = txnCounter c"
  using commit_shows(1,2) [OF assms(1)] commit_isDup [OF assms(1,2)] commit_counter [OF assms(1,3)] by blast

definition sample_child :: roundCowState where
  "sample_child = addTx (\<lambda>_. 99) sample_pay (put 1 (sample_account 10000000) (sample_account 9499000) (child sample_cow))"

theorem commit_shows_child_witness:
  "cow_lookup (commitToParent sample_child sample_cow) 1 = Ok (sample_account 9499000) \<and>
   txnCounter (commitToParent sample_child sample_cow) = txnCounter sample_child"
proof -
  have mods: "hdr (mods sample_child) = sample_header"
      "txleases (mods sample_child) = fmupd \<lparr>sender = 1, lease = 0\<rparr> 9 fmempty"
      "fmdom (Txids (mods sample_child)) = {|ID (\<lambda>_. 99) sample_pay|}"
    by (simp_all add: sample_child_def addTx_def put_def Let_def sample_cow_def sample_pay_def Header_zero_def)
  have 1: "descends sample_child sample_cow"
    by (simp add: sample_child_def descends_def addTx_def put_def Let_def)
  have 2: "leases_live sample_child" by (simp add: leases_live_def mods sample_header_def split: if_splits)
  have 3: "fmdom (Txids (mods sample_child)) |\<inter>| fmdom (Txids (mods sample_cow)) = {||}"
    by (simp add: mods sample_cow_def)
  have "cow_lookup sample_child 1 = Ok (sample_account 9499000)"
    by (simp add: sample_child_def cow_lookup_def addTx_def put_def Let_def)
  then show ?thesis using commit_shows_child [OF 1 2 3] by simp
qed

section \<open>Totals\<close>

lemma addAccount_keeps_overflow:
  "addAccount p u (at, ot) = Ok (at', ot') \<Longrightarrow> \<not> Overflowed ot' \<Longrightarrow> \<not> Overflowed ot"
  by (auto simp: addAccount_def act_simps case_prod_unfold Let_def ot_defs ot_note_def split: if_splits)

text \<open>
  C32: The running totals stay the sums over all accounts: replacing one account in the totals, when nothing
  overflows, gives the totals of the new accounts, and \<open>All\<close> is then the money of all accounts with their
  pending rewards.
\<close>

theorem totals_follow_accounts:
  assumes "totals_ok p m at"
    and "delAccount p (m a) (at, ot) = Ok (at1, ot1)" and "addAccount p u (at1, ot1) = Ok (at2, ot2)" and "\<not> Overflowed ot2"
  shows "totals_ok p (m(a := u)) at2 \<and>
    (case All at2 of Ok x \<Rightarrow> unat x = total_worth p (atRewardsLevel at) (m(a := u)) | _ \<Rightarrow> True)"
proof -
  have "known_status m" using assms(1) by (simp add: totals_ok_def)
  moreover have ok: "\<not> Overflowed ot1" using assms(3,4) by (rule addAccount_keeps_overflow)
  moreover note del = delAccount_ok [OF assms(2) ok assms(1)]
  ultimately have add: "totals_ok p (m(a := u)) at2 \<and> atRewardsLevel at2 = atRewardsLevel at"
    using addAccount_ok [OF assms(3,4)] by auto
  then show ?thesis using All_total_worth [of p "m(a := u)" at2] by (auto split: result.splits)
qed

definition sample_totals :: AccountTotals where
  "sample_totals = (let z = \<lparr>acMoney = 0, acRewardUnits = 0\<rparr> in
     \<lparr>atOnline = z, atOffline = z, atNotParticipating = z, atRewardsLevel = 3\<rparr>)"

lemma sample_totals_run:
  "is_Ok (res_bind (delAccount v19 AccountData_zero (sample_totals, ot_new)) (\<lambda>t.
     res_bind (addAccount v19 (sample_account 10000000) t) (\<lambda>(at, ot). if Overflowed ot then Err ErrNoSpace else Ok at)))"
  by code_simp

theorem totals_follow_accounts_witness:
  "\<exists>at. totals_ok v19 ((\<lambda>_. AccountData_zero)(1 := sample_account 10000000)) at"
proof -
  have "totals_ok v19 (\<lambda>_. AccountData_zero) sample_totals"
    by (simp add: totals_ok_def count_ok_def known_status_def sum_status_def of_status_def worth_def pending_rewards_def
        units_def sample_totals_def AccountData_zero_def Let_def)
  moreover obtain at1 ot1 at2 ot2 where "delAccount v19 AccountData_zero (sample_totals, ot_new) = Ok (at1, ot1)"
      "addAccount v19 (sample_account 10000000) (at1, ot1) = Ok (at2, ot2)" "\<not> Overflowed ot2"
    using sample_totals_run by (auto simp: is_Ok_def res_bind_def split: result.splits if_splits)
  ultimately show ?thesis using totals_follow_accounts [of v19 "\<lambda>_. AccountData_zero" sample_totals 1] by blast
qed

end
