(* ===== verification/Spec2Isabelle.thy ===== *)
theory Spec2Isabelle
  imports Agreement_Properties Player Acceptance Upgrades TxTail Crypto_Properties Teal_Properties Account_Properties
begin

text \<open>
  A verification of the ledger and of the agreement protocol of the go-algorand fork in \<open>src/\<close>: from the
  arithmetic on amounts up to the evaluation of blocks and the account tracker that stores their effects, and
  from votes up to the player that decides on a block.

  \<^bold>\<open>How Go is modelled.\<close>  \<open>Prelude\<close> has the outcome of a Go call, \<open>result\<close> (a value, an error or a panic), and a
  method on a mutable receiver, \<open>act\<close>, which returns the receiver on every outcome, so that writes before an error
  stay.  \<open>uint64\<close> is \<open>u64\<close> and wraps, \<open>int64\<close> is \<open>i64\<close>, a 32-byte array is a \<open>256 word\<close>, a map is a finite map (\<open>gomap\<close>
  where the code tells a nil map from an empty one), an interface is a record of its methods.  Where the code ranges over a
  map the model visits it in ascending order, unless a comment says why the order does not matter.

  \<^bold>\<open>The ledger.\<close>

  \<^item> \<open>Config\<close> (\<open>config/config.go\<close>, \<open>protocol/consensus.go\<close>): the table of protocol versions.  \<open>Basics\<close>
    (\<open>data/basics\<close>): checked arithmetic, with the locale \<open>checked_arith\<close> for its three operations, amounts, accounts and
    deferred rewards.
  \<^item> \<open>Transactions\<close>, \<open>Apply\<close>, \<open>SignedTxns\<close> (\<open>data/transactions\<close>): transactions, what they do to balances through the interface
    \<open>transactions.Balances\<close>, signed transactions.  The locale \<open>balances\<close> states what a provider of the interface
    promises; \<open>Apply_Laws\<close> proves inside it that every transaction conserves money and keeps the books of assets, and who can
    lose by it.
  \<^item> \<open>Multisig\<close> (\<open>crypto/multisig.go\<close>), \<open>Merkle\<close> and \<open>Merkle_Laws\<close> (\<open>crypto/merkle\<close>): multisignatures, and the lazily hashed tree
    against the tree hash of RFC 6962.
  \<^item> \<open>Bookkeeping\<close> and \<open>Upgrades\<close> (\<open>data/bookkeeping/block.go\<close>, \<open>data/transactions/aggregates.go\<close>): headers, rewards, protocol
    upgrades, and the encoding of transactions in a block.
  \<^item> \<open>Teal\<close>, \<open>Teal_Laws\<close>, \<open>Teal_Exec\<close> (\<open>data/transactions/logic/eval.go\<close>): the stack machine of logic signatures and its
    static check.  \<open>Verify\<close> (\<open>data/transactions/verify/txn.go\<close>): the signature checks.
  \<^item> \<open>Cow\<close> (\<open>ledger/cow.go\<close>): the layers transactions work on; it interprets \<open>balances\<close>, so what \<open>Apply_Laws\<close> proves
    holds of the ledger's own view.  \<open>Totals\<close> (\<open>ledger/totals.go\<close>): running sums over all accounts.
  \<^item> \<open>Evaluator\<close> and \<open>Evaluator_Laws\<close> (\<open>ledger/eval.go\<close>): starting a block, transactions, groups, the end of a block,
    generating and validating blocks.
  \<^item> \<open>TxTail\<close> (\<open>ledger/txtail.go\<close>): recent transactions and leases.  \<open>AcctUpdates\<close> and \<open>AcctUpdates_Laws\<close>
    (\<open>ledger/acctupdates.go\<close>, \<open>ledger/accountdb.go\<close>): the accounts of recent rounds over a database of an old round.
    \<open>Acceptance\<close> puts the evaluator and the account tracker together.

  The account tracker answers lookups for the evaluator; the evaluator applies groups on a child layer, commits them, and
  ends with the effect of the block, which the account tracker and the recent transactions take as a new block.

  \<^bold>\<open>Agreement\<close> (\<open>agreement/\<close>, \<open>data/committee/credential.go\<close>).  \<open>Agreement\<close> has votes, bundles, proposals, certificates,
  events and actions with their making and verification; \<open>Vote_Machine\<close> the tracker of the votes of a step;
  \<open>Proposal_Machine\<close> the tracker of the proposals of a period and the contracts of the machines; \<open>Router\<close> the tree of
  machines with the store of payloads, the aggregator and the proposal manager; \<open>Player\<close> every handler of the player.  A
  machine is a record, a handler an \<open>act\<close> on it, an event a datatype, a dispatch a call down the tree.
  \<open>Vote_Counting\<close> and \<open>Vote_Bundles\<close> hold the laws of the vote tracker.

  \<^bold>\<open>What is shown.\<close>  This theory has the properties that span components: a block the evaluator accepts is taken by the
  account tracker, conserves the money of all accounts, holds only new transactions and keeps minimum balances; lookups
  answer from the history of all accounts; accepted groups are whole; protocols change only with enough approvals; made
  headers pass the checks; the duplicate check answers from the history; verified transactions are authorized by their sender.
  \<open>Account_Properties\<close> has those of accounts and single transactions, \<open>Crypto_Properties\<close> of trees, multisignatures and
  the encoding in a block, \<open>Teal_Properties\<close> of the stack machine, \<open>Agreement_Properties\<close> of quorums and the bundles that prove
  them.

  \<^bold>\<open>Loops.\<close>  There is no fuel.  Loops over lists are structural; loops with another measure have a termination proof
  (the stack machine counts its steps, the static check moves forward, \<open>forget_below\<close> counts to a bound).  The loops over
  rounds in \<open>TxTail\<close> with an inclusive 64-bit bound, and the chain of events of \<open>player_handle\<close>, are option-valued partial functions, \<open>None\<close>
  standing for a call that never returns; for the duplicate check it is proved exactly when that happens.

  \<^bold>\<open>Parameters.\<close>  Hashes, signatures, the verifiable random function, sortition, the codec and the lengths of encodings come from
  libraries and are arguments.  The SQL tables of the accounts are finite maps on which a statement has its documented
  effect.

  \<^bold>\<open>Not modelled.\<close>  Network, daemons, REST, wallets, key storage, block storage and the crash database are I/O; the service
  around the player and the transaction pool are goroutines and timing; the assembler of the stack machine is text processing.
\<close>

section \<open>A concrete ledger\<close>

definition sample_pool :: AccountData where
  "sample_pool = MakeAccountData NotParticipating 1000000000"

definition sample_totals_now :: AccountTotals where
  "sample_totals_now = \<lparr>atOnline = \<lparr>acMoney = 10000030, acRewardUnits = 10\<rparr>, atOffline = \<lparr>acMoney = 0, acRewardUnits = 0\<rparr>,
     atNotParticipating = \<lparr>acMoney = 1000000000, acRewardUnits = 1000\<rparr>, atRewardsLevel = 3\<rparr>"

definition sample_db :: acctdb where
  "sample_db = \<lparr>dbAccountbase = fmap_of_list [(1, sample_account 10000000), (8, sample_pool)], dbAssetcreators = fmempty,
     dbAccounttotals = sample_totals_now, dbAcctrounds = 4\<rparr>"

definition sample_tracker :: accountUpdates where
  "sample_tracker = \<lparr>auDB = sample_db, dbRound = 4, deltas = [], auAccounts = fmempty, assetDeltas = [], auAssets = fmempty,
     protos = [v19], roundTotals = [sample_totals_now]\<rparr>"

definition sample_rewards :: "u64 \<Rightarrow> RewardsState" where
  "sample_rewards lvl = RewardsState_zero\<lparr>FeeSink := 7, RewardsPool := 8, RewardsLevel := lvl, RewardsRate := 13, RewardsRecalculationRound := 1000\<rparr>"

definition sample_state :: UpgradeState where
  "sample_state = UpgradeState_zero\<lparr>CurrentProtocol := ConsensusV19\<rparr>"

definition sample_prev :: BlockHeader where
  "sample_prev = BlockHeader_zero\<lparr>bhRound := 4, TimeStamp := 100, bhGenesisID := ''net'', bhGenesisHash := 9,
     bhRewards := sample_rewards 3, bhUpgradeState := sample_state, TxnCounter := 20\<rparr>"

definition sample_env :: eval_env where
  "sample_env = \<lparr>eeHashes = \<lparr>txnHash = (\<lambda>tx. ucast (Amount (txPayment tx))), hdrHash = (\<lambda>_. 77), paysetHash = (\<lambda>_. 88), proxySetHash = (\<lambda>_. 0),
       groupHash = (\<lambda>g. sum_list (TxGroupHashes g)), bytesHash = (\<lambda>_. 0), sha256 = (\<lambda>bs. bs)\<rparr>,
     eeVerifiers = \<lparr>vTxn = (\<lambda>_ _ s. s = 5), vProgram = (\<lambda>_ _ _. False), vHash = (\<lambda>_. 0),
       vTeal = \<lparr>tcSHA256 = (\<lambda>bs. bs), tcKeccak256 = (\<lambda>bs. bs), tcSHA512_256 = (\<lambda>bs. bs), tcProgramHash = (\<lambda>_. 0),
          tcVerify = (\<lambda>_ _ _. False), tcTxnHash = (\<lambda>_. 0)\<rparr>\<rparr>,
     eeEncodeTxib = (\<lambda>_. 250), eeEncodeTxsib = (\<lambda>_. 100)\<rparr>"

definition sample_ledger :: ledgerForEvaluator where
  "sample_ledger = \<lparr>leGenesisHash = 9, leBlockHdr = (\<lambda>r. if r = 4 then Ok sample_prev else Err (ErrNoEntry r 4 4)),
     leLookup = (\<lambda>rnd a. au_lookup sample_tracker rnd a True), leTotals = au_totals sample_tracker,
     leIsDup = (\<lambda>_ _ _ _ _ _. Ok False), leLookupWithoutRewards = (\<lambda>rnd a. au_lookup sample_tracker rnd a False),
     leGetAssetCreatorForRound = getAssetCreatorForRound sample_tracker\<rparr>"

definition sample_signed_pay :: SignedTxn where
  "sample_signed_pay = SignedTxn_zero\<lparr>stSig := 5, Txn := sample_pay\<rparr>"

definition sample_applied :: ApplyData where
  "sample_applied = ApplyData_zero\<lparr>SenderRewards := 40\<rparr>"

definition sample_block :: Block where
  "sample_block = \<lparr>blkHeader = BlockHeader_zero\<lparr>bhRound := 5, Branch := 77, TxnRoot := 88, TimeStamp := 105, bhGenesisID := ''net'', bhGenesisHash := 9,
       bhRewards := (sample_rewards 4)\<lparr>RewardsResidue := 3\<rparr>, bhUpgradeState := sample_state, TxnCounter := 21\<rparr>,
     blkPayset = [\<lparr>ibTxn = \<lparr>adSignedTxn = sample_signed_pay, adApplyData = sample_applied\<rparr>, HasGenesisID = False, HasGenesisHash = False\<rparr>],
     blkPayProxySet = []\<rparr>"

abbreviation sample_cache :: "unit VerifiedTxnCache option" where
  "sample_cache \<equiv> None"

definition sample_money :: accounts where
  "sample_money = (\<lambda>a. if a = 1 then sample_account 10000000 else if a = 8 then sample_pool else AccountData_zero)"

definition delta_shows :: "Address \<Rightarrow> u64 \<Rightarrow> StateDelta \<Rightarrow> bool" where
  "delta_shows a n delta \<longleftrightarrow> (case fmlookup (accts delta) a of None \<Rightarrow> False | Some d \<Rightarrow> acctMicroAlgos (new d) = n)"

definition sample_evaluator :: "unit BlockEvaluator" where
  "sample_evaluator =
     (case startEvaluator sample_env sample_ledger (blkHeader sample_block) True False None of Ok e \<Rightarrow> e)"

definition sample_full_pay :: SignedTxn where
  "sample_full_pay = sample_signed_pay\<lparr>Txn := sample_pay\<lparr>txHeader := (txHeader sample_pay)\<lparr>txGenesisHash := 9\<rparr>\<rparr>\<rparr>"

definition sample_group :: "SignedTxnWithAD list" where
  "sample_group = [\<lparr>adSignedTxn = sample_full_pay, adApplyData = sample_applied\<rparr>]"

definition sample_member :: "u64 \<Rightarrow> ApplyData \<Rightarrow> SignedTxnWithAD" where
  "sample_member n ad = \<lparr>adSignedTxn = sample_full_pay\<lparr>Txn := (Txn sample_full_pay)
     \<lparr>txHeader := (txHeader (Txn sample_full_pay))\<lparr>Group := 900000\<rparr>, txPayment := (txPayment (Txn sample_full_pay))\<lparr>Amount := n\<rparr>\<rparr>\<rparr>,
     adApplyData = ad\<rparr>"

definition sample_pair :: "SignedTxnWithAD list" where
  "sample_pair = [sample_member 500000 sample_applied, sample_member 400000 ApplyData_zero]"

definition sample_lease :: txlease where
  "sample_lease = \<lparr>sender = 1, lease = 3\<rparr>"

definition sample_delta :: StateDelta where
  "sample_delta = (StateDelta_empty sample_prev)\<lparr>Txids := fmap_of_list [(500000, 9)], txleases := fmap_of_list [(sample_lease, 9)]\<rparr>"

definition sample_tail :: txTail where
  "sample_tail = snd (committedUpTo 5 (newBlock sample_block sample_delta \<lparr>recent = fmempty, tailLastValid = fmempty, lowWaterMark = 4\<rparr>))"

definition test_start :: UpgradeState where
  "test_start = UpgradeState_zero\<lparr>CurrentProtocol := ConsensusTest0\<rparr>"

definition test_vote :: UpgradeVote where
  "test_vote = \<lparr>UpgradePropose = ConsensusTest1, UpgradeApprove = True\<rparr>"

definition test_pending :: UpgradeState where
  "test_pending = \<lparr>CurrentProtocol = ConsensusTest0, NextProtocol = ConsensusTest1, NextProtocolApprovals = 1,
     NextProtocolVoteBefore = 3, NextProtocolSwitchOn = 5\<rparr>"

definition sample_hashes :: Hashes where
  "sample_hashes = (eeHashes sample_env)\<lparr>sha256 := (\<lambda>_. replicate 32 0)\<rparr>"

lemma sample_eval_runs: "is_Ok (Ledger_eval sample_env sample_ledger (\<lambda>_. False) sample_block True sample_cache)"
  by code_simp

lemma sample_protocol: "Consensus (CurrentProtocol (bhUpgradeState (blkHeader sample_block))) = Some v19"
  by code_simp

lemma sample_unit: "RewardUnit v19 = 1000000"
  by code_simp

lemma sample_view: "au_view sample_tracker n a = (if a = 1 then sample_account 10000000 else if a = 8 then sample_pool else AccountData_zero)"
  if "n = 0"
  using that by (simp add: au_view_def sample_tracker_def sample_db_def db_lookup_def)

lemma sample_money_upd: "sample_money = ((\<lambda>_. AccountData_zero)(8 := sample_pool))(1 := sample_account 10000000)"
  by (auto simp: sample_money_def)

lemma sample_tracker_view: "au_view sample_tracker 0 = sample_money"
  by (rule ext) (simp add: sample_view sample_money_def)

lemma sample_accounts [simp]:
  "acctStatus (sample_account n) = Online" "acctMicroAlgos (sample_account n) = n" "RewardsBase (sample_account n) = 0"
  "acctStatus sample_pool = NotParticipating" "acctMicroAlgos sample_pool = 1000000000"
  "acctStatus AccountData_zero = Offline" "acctMicroAlgos AccountData_zero = 0" "RewardsBase AccountData_zero = 0"
  by (simp_all add: sample_account_def sample_pool_def MakeAccountData_def AccountData_zero_def)

lemma sum_sample:
  fixes f :: "AccountData \<Rightarrow> nat"
  shows "(\<Sum>a\<in>UNIV. f (sample_money a)) + 2 * f AccountData_zero =
     (\<Sum>(a :: Address)\<in>UNIV. f AccountData_zero) + f (sample_account 10000000) + f sample_pool"
proof -
  define z where "z = (\<lambda>(_ :: Address). AccountData_zero)"
  have "(\<Sum>a\<in>UNIV. f ((z(8 := sample_pool)) a)) + f AccountData_zero = (\<Sum>a\<in>UNIV. f (z a)) + f sample_pool"
    using sum_fun_upd_UNIV [of f z 8 sample_pool] by (simp add: z_def del: fun_upd_apply)
  moreover have "(\<Sum>a\<in>UNIV. f (sample_money a)) + f AccountData_zero =
      (\<Sum>a\<in>UNIV. f ((z(8 := sample_pool)) a)) + f (sample_account 10000000)"
    using sum_fun_upd_UNIV [of f "z(8 := sample_pool)" 1 "sample_account 10000000"]
    by (simp add: z_def sample_money_upd)
  ultimately show ?thesis by (simp add: z_def)
qed

lemma sample_totals_ok: "totals_ok v19 sample_money sample_totals_now" "bases_below 3 sample_money"
proof -
  have "sum_status st f sample_money = of_status st f (sample_account 10000000) + of_status st f sample_pool"
    if "f AccountData_zero = 0" for st f
    using sum_sample [of "of_status st f"] that unfolding sum_status_def
    by (simp add: of_status_def [of _ _ AccountData_zero] split: if_splits)
  then show "totals_ok v19 sample_money sample_totals_now"
    by (simp add: totals_ok_def known_status_def count_ok_def sample_totals_now_def of_status_def worth_def
        pending_rewards_def units_def sample_unit) (simp add: sample_money_def)
  show "bases_below 3 sample_money" by (simp add: bases_below_def sample_money_def)
qed

lemma sample_total: "total_worth v19 lvl sample_money = 1010000000 + 10 * unat lvl"
  using sum_sample [of "worth v19 lvl"]
  by (simp add: total_worth_def worth_def pending_rewards_def sample_unit)

lemma sample_headers:
  "bhRound (blkHeader sample_block) = 5" "bhRound sample_prev = 4" "RewardsLevel (bhRewards sample_prev) = 3"
  "RewardsLevel (bhRewards (blkHeader sample_block)) = 4"
  by (simp_all add: sample_block_def sample_prev_def sample_rewards_def)

lemma sample_tracks: "tracks (\<lambda>_. sample_money) (\<lambda>_ _. None) sample_tracker"
  using sample_tracker_view
  by (simp add: tracks_def au_shape_def caches_ok_def au_creators_def flush_count_def fun_eq_iff sample_tracker_def sample_db_def)

lemma sample_serves: "serves sample_tracker sample_ledger"
  by (simp add: serves_def sample_ledger_def)

lemma sample_balanced: "balanced v19 sample_prev sample_tracker"
  using sample_totals_ok sample_tracker_view
  by (simp add: balanced_def sample_headers au_latest_def sample_tracker_def sample_totals_now_def)

lemma sample_prev_hdr: "leBlockHdr sample_ledger (bhRound sample_prev) = Ok sample_prev"
  by (simp add: sample_ledger_def sample_headers)

lemma sample_shows: "ledger_shows sample_ledger v19 sample_prev sample_money"
  using served_shows [OF sample_tracks sample_serves sample_balanced sample_prev_hdr] sample_tracker_view
  by (simp add: sample_tracker_def)

lemma sample_eval:
  obtains delta where "Ledger_eval sample_env sample_ledger (\<lambda>_. False) sample_block True sample_cache = Ok delta"
  using sample_eval_runs by (auto simp: is_Ok_def split: result.splits)

section \<open>The evaluator and the trackers together\<close>

text \<open>
  C1: The account tracker takes every block that the evaluator accepts on the tracker's own data: none of
  its panics (overflowing totals, changed sum of money, wrong round) is reached, its totals are
  again those of its accounts at the block's rewards level, and its history is extended by the effect of the
  block.  The money of all accounts with their rewards at the new level must fit 63 bits.
\<close>

theorem evaluated_block_is_taken:
  assumes "tracks hist chist au" and "serves au l" and "balanced p prev au"
    and "leBlockHdr l (bhRound prev) = Ok prev" and "Ledger_eval env l d blk validate tc = Ok delta"
    and "Consensus (CurrentProtocol (bhUpgradeState (blkHeader blk))) = Some p" and "RewardUnit p \<noteq> 0"
    and "bhRound (blkHeader blk) = bhRound prev + 1" and "bhRound prev < - 1"
    and "total_worth p (RewardsLevel (bhRewards (blkHeader blk))) (au_view au (length (deltas au))) < 2 ^ 63"
  shows "\<exists>au'. au_newBlock blk delta au = (Ok (), au') \<and> balanced p (blkHeader blk) au' \<and>
    tracks (hist(Suc (unat (bhRound prev)) := after_delta (hist (unat (bhRound prev))) delta))
      (chist(Suc (unat (bhRound prev)) := creators_after (chist (unat (bhRound prev))) delta)) au'"
  using assms by (rule evaluated_block_taken)

theorem evaluated_block_is_taken_witness:
  "\<exists>delta au'. Ledger_eval sample_env sample_ledger (\<lambda>_. False) sample_block True sample_cache = Ok delta \<and>
     au_newBlock sample_block delta sample_tracker = (Ok (), au') \<and> balanced v19 (blkHeader sample_block) au'"
proof -
  obtain delta where run: "Ledger_eval sample_env sample_ledger (\<lambda>_. False) sample_block True sample_cache = Ok delta"
    by (rule sample_eval)
  have "total_worth v19 (RewardsLevel (bhRewards (blkHeader sample_block))) (au_view sample_tracker (length (deltas sample_tracker))) < 2 ^ 63"
    using sample_tracker_view by (simp add: sample_headers sample_total sample_tracker_def)
  then show ?thesis
    using evaluated_block_is_taken [OF sample_tracks sample_serves sample_balanced sample_prev_hdr run sample_protocol] run
    by (auto simp: sample_headers sample_unit)
qed

text \<open>
  C2: Applying a whole block conserves money: the balances of all accounts with their pending rewards,
  counted at the rewards level of the new block, are after the block what they were at the previous
  level before it; what the higher level adds to the accounts is what the block takes from the rewards
  pool.
\<close>

theorem block_conserves_money:
  assumes "Ledger_eval env l d blk validate tc = Ok delta" and "ledger_shows l p prev m"
    and "Consensus (CurrentProtocol (bhUpgradeState (blkHeader blk))) = Some p"
    and "bhRound (blkHeader blk) = bhRound prev + 1" and "bhRound (blkHeader blk) \<noteq> 0"
  shows "total_worth p (RewardsLevel (bhRewards (blkHeader blk))) (after_delta m delta) =
    total_worth p (RewardsLevel (bhRewards prev)) m"
  using assms by (rule Ledger_eval_conserves)

theorem block_conserves_money_witness:
  "\<exists>delta. Ledger_eval sample_env sample_ledger (\<lambda>_. False) sample_block True sample_cache = Ok delta \<and>
     total_worth v19 4 (after_delta sample_money delta) = 1010000030"
proof -
  obtain delta where run: "Ledger_eval sample_env sample_ledger (\<lambda>_. False) sample_block True sample_cache = Ok delta"
    by (rule sample_eval)
  then show ?thesis using block_conserves_money [OF run sample_shows sample_protocol] by (simp add: sample_headers sample_total)
qed

text \<open>
  C3: The transactions of a validated block are new: their identifiers are pairwise distinct, the ledger
  answers for each that it is no duplicate, exactly they are recorded in the effect of the block, and
  the transaction counter of the header counts them.  This is for the protocols that keep the transaction counter in the header.
\<close>

theorem validated_block_is_new:
  assumes "Ledger_eval env l d blk True tc = Ok delta" and "DecodePaysetGroups blk = Ok groups"
    and "leBlockHdr l (bhRound (blkHeader blk) - 1) = Ok prev" and "bhRound (blkHeader blk) \<noteq> 0"
    and "Consensus (CurrentProtocol (bhUpgradeState (blkHeader blk))) = Some p" and "cpTxnCounter p"
  shows "distinct (map (txid_of env) (concat groups)) \<and>
    fset (fmdom (Txids delta)) = set (map (txid_of env) (concat groups)) \<and>
    list_all (\<lambda>t. let tx = Txn (adSignedTxn t) in
      leIsDup l p (bhRound (blkHeader blk)) (First tx) (Last tx) (txid_of env t) (txlease_of tx) = Ok False) (concat groups) \<and>
    TxnCounter (blkHeader blk) = TxnCounter prev + of_nat (length (concat groups))"
  using Ledger_eval_new [OF assms(1-5)] assms(6) by (simp add: list_all_iff)

lemma sample_groups: "is_Ok (DecodePaysetGroups sample_block)" and sample_counter: "cpTxnCounter v19"
  by code_simp+

theorem validated_block_is_new_witness:
  "\<exists>groups delta. Ledger_eval sample_env sample_ledger (\<lambda>_. False) sample_block True sample_cache = Ok delta \<and>
     DecodePaysetGroups sample_block = Ok groups \<and> distinct (map (txid_of sample_env) (concat groups)) \<and>
     fset (fmdom (Txids delta)) = set (map (txid_of sample_env) (concat groups))"
proof -
  obtain delta where run: "Ledger_eval sample_env sample_ledger (\<lambda>_. False) sample_block True sample_cache = Ok delta"
    by (rule sample_eval)
  obtain groups where g: "DecodePaysetGroups sample_block = Ok groups"
    using sample_groups by (auto simp: is_Ok_def split: result.splits)
  have "leBlockHdr sample_ledger (bhRound (blkHeader sample_block) - 1) = Ok sample_prev"
    using sample_prev_hdr by (simp add: sample_headers)
  from validated_block_is_new [OF run g this _ sample_protocol sample_counter] run g show ?thesis
    by (auto simp: sample_headers)
qed

section \<open>Blocks and groups\<close>

text \<open>
  C5: A validated block leaves every account it changed, but for the fee sink and the rewards pool, either empty
  or with at least the minimum balance for its assets, its rewards included.  (The two rounds in which the
  testnet bank pays into the rewards pool are on testnet only.)
\<close>

theorem block_keeps_minimum_balances:
  assumes "Ledger_eval env l d blk True tc = Ok delta" and "ledger_shows l p prev m"
    and "Consensus (CurrentProtocol (bhUpgradeState (blkHeader blk))) = Some p"
    and "bhRound (blkHeader blk) = bhRound prev + 1" and "bhRound (blkHeader blk) \<noteq> 0" and "leGenesisHash l \<noteq> testnetGenesisHash"
    and "after_delta m delta a \<noteq> m a" and "a \<noteq> FeeSink (bhRewards (blkHeader blk))" and "a \<noteq> RewardsPool (bhRewards (blkHeader blk))"
  shows "balance_ok p (RewardsLevel (bhRewards (blkHeader blk))) (after_delta m delta a)"
  using assms by (rule Ledger_eval_balances)

lemma sample_special: "FeeSink (bhRewards (blkHeader sample_block)) = 7" "RewardsPool (bhRewards (blkHeader sample_block)) = 8"
    "leGenesisHash sample_ledger \<noteq> testnetGenesisHash"
  by (simp_all add: sample_block_def sample_rewards_def sample_ledger_def testnetGenesisHash_def RewardsState_zero_def)

lemma sample_eval_result:
  "case Ledger_eval sample_env sample_ledger (\<lambda>_. False) sample_block True sample_cache of
     Ok delta \<Rightarrow> delta_shows 2 500000 delta | _ \<Rightarrow> False"
  by code_simp

theorem block_keeps_minimum_balances_witness:
  "\<exists>delta. Ledger_eval sample_env sample_ledger (\<lambda>_. False) sample_block True sample_cache = Ok delta \<and>
     balance_ok v19 4 (after_delta sample_money delta 2)"
proof -
  obtain delta where run: "Ledger_eval sample_env sample_ledger (\<lambda>_. False) sample_block True sample_cache = Ok delta"
    and d: "delta_shows 2 500000 delta"
    using sample_eval_result by (auto split: result.splits)
  have "acctMicroAlgos (after_delta sample_money delta 2) = 500000"
    using d by (simp add: delta_shows_def after_delta_def split: option.splits)
  then have "after_delta sample_money delta 2 \<noteq> sample_money 2" by (auto simp: sample_money_def)
  with block_keeps_minimum_balances [OF run sample_shows sample_protocol, of 2] run show ?thesis
    by (auto simp: sample_headers sample_special)
qed

text \<open>
  C6: A group of transactions the evaluator accepts while it validates is whole and enters the block whole: it
  is no larger than allowed, it is one transaction without a group field or every member's group field is the hash of all
  members in their order, the block's payset grows by exactly the encodings of the members in their order (with the apply data
  they came with, unless the block is being generated), and the size of the block grows by theirs and stays within the limit.
\<close>

theorem accepted_group_is_whole:
  assumes "transactionGroup env grp True eval = (Ok u, eval')" and "grp \<noteq> []" and "evValidate eval"
  shows "int (length grp) \<le> MaxTxGroupSize (evProto eval) \<and> whole_group (eeHashes env) grp \<and>
    (\<exists>txibs. list_all2 (enters_block eval) grp txibs \<and> blkPayset (evBlock eval') = blkPayset (evBlock eval) @ txibs \<and>
       evBlockTxBytes eval' = evBlockTxBytes eval + group_bytes env txibs \<and>
       evBlockTxBytes eval' \<le> MaxTxnBytesPerBlock (evProto eval))"
  using assms by (rule accepted_group)

lemma sample_start: "is_Ok (startEvaluator sample_env sample_ledger (blkHeader sample_block) True False sample_cache)"
  by code_simp

lemma sample_group_taken: "is_Ok (fst (transactionGroup sample_env sample_group True sample_evaluator))"
  and sample_pair_taken: "is_Ok (fst (transactionGroup sample_env sample_pair True sample_evaluator))"
  by code_simp+

lemma sample_validates: "evValidate sample_evaluator"
  using sample_start startEvaluator_flags [of sample_env sample_ledger "blkHeader sample_block" True False None]
  by (auto simp: sample_evaluator_def is_Ok_def split: result.splits)

theorem accepted_group_is_whole_witness:
  "whole_group (eeHashes sample_env) sample_pair \<and>
   (\<exists>x y. blkPayset (evBlock (snd (transactionGroup sample_env sample_pair True sample_evaluator))) =
      blkPayset (evBlock sample_evaluator) @ [x, y])"
proof -
  obtain u eval' where run: "transactionGroup sample_env sample_pair True sample_evaluator = (Ok u, eval')"
    using sample_pair_taken by (cases "transactionGroup sample_env sample_pair True sample_evaluator") (auto simp: is_Ok_def split: result.splits)
  have "sample_pair \<noteq> []" by (simp add: sample_pair_def)
  from accepted_group_is_whole [OF run this sample_validates] run show ?thesis
    by (auto simp: sample_pair_def list_all2_Cons1)
qed

text \<open>
  C12: The quick check the transaction pool makes first refuses no group that the evaluator would accept.
\<close>

theorem accepted_group_passes_test:
  assumes "transactionGroup env grp remember eval = (Ok u, eval')" and "evValidate eval"
  shows "TestTransactionGroup env eval (map adSignedTxn grp) = Ok ()"
  using assms by (rule TestTransactionGroup_accepts)

theorem accepted_group_passes_test_witness:
  "TestTransactionGroup sample_env sample_evaluator [sample_full_pay] = Ok ()"
proof -
  obtain u eval' where run: "transactionGroup sample_env sample_group True sample_evaluator = (Ok u, eval')"
    using sample_group_taken by (cases "transactionGroup sample_env sample_group True sample_evaluator") (auto simp: is_Ok_def split: result.splits)
  from accepted_group_passes_test [OF run sample_validates] show ?thesis by (simp add: sample_group_def)
qed

text \<open>
  C11: A transaction that passes verification was agreed to by the owner of its sender: there is exactly one kind of
  signature, and it is a signature under the sender's key, a multisignature whose address is the
  sender, or a program that is signed in one of these ways or whose hash is the sender.
\<close>

theorem verified_transaction_is_authorized:
  assumes "TxnPool_verify W s spec proto = Ok ()"
  shows "authorized W s \<and> Src (Txn s) \<noteq> 0 \<and> WellFormed spec proto (Txn s) = Ok ()"
  using assms stxnVerifyCore_Ok [of W s proto] by (auto simp: TxnPool_verify_def act_simps split: if_splits)

lemma sample_verifies: "TxnPool_verify (eeVerifiers sample_env) sample_signed_pay (eval_spec sample_block) v19 = Ok ()"
  by code_simp

theorem verified_transaction_is_authorized_witness: "authorized (eeVerifiers sample_env) sample_signed_pay"
  using verified_transaction_is_authorized [OF sample_verifies] by simp

section \<open>Trackers\<close>

text \<open>
  C9: After any history of new blocks and commits, the duplicate check refuses exactly the transactions whose
  last valid round is before the low water mark, and answers all others (but those with the greatest 64-bit number as last valid
  round) from the whole history: a duplicate is a transaction confirmed before, or, where the protocol has leases, one whose lease an
  earlier transaction took in one of the valid rounds and which has not expired.  What commits forget never matters.  The history
  commits rounds the tail has seen, its blocks have one longest life of transactions, leases expire within that life after their
  round, and the current round is not before the last commit.
\<close>

theorem tail_answers_from_history:
  assumes "tail_history life h L c t" and "c \<le> current" and "lastValid < - 1"
  shows "tail_isDup t proto current firstValid lastValid txid txl =
    Some (if lastValid < lowWaterMark t then Err (Errorf ''txTail: tried to check for dup in missing round'')
      else Ok ((txid, lastValid) \<in> h \<or>
        SupportTransactionLeases proto \<and> lease txl \<noteq> 0 \<and>
        (\<exists>r e. (r, txl, e) \<in> L \<and> firstValid \<le> r \<and> r \<le> lastValid \<and> current \<le> e)))"
  using tail_history_confirmed [OF assms(1), of lastValid txid] lease_held_history [OF assms(1,2)]
  by (auto simp: tail_isDup_def lease_scan_returns [OF assms(3)] not_less split: bool.splits)

lemma sample_history: "tail_history 1000 {(500000, 9)} {(5, sample_lease, 9)} 5 sample_tail"
proof -
  let ?t = "\<lparr>recent = fmempty, tailLastValid = fmempty, lowWaterMark = 4\<rparr>"
  have r: "Block_Round sample_block = 5" by (simp add: Block_Round_def sample_block_def)
  have l: "MaxTxnLife (ConsensusProtocol sample_block) = 1000" by code_simp
  have "tail_history 1000 ({} \<union> {(x, lv). fmlookup (Txids sample_delta) x = Some lv}) ({} \<union> block_leases 5 sample_delta) 4
      (newBlock sample_block sample_delta ?t)"
    unfolding r [symmetric] by (rule tail_history.block [OF tail_history.start _ l]) (auto simp: sample_delta_def r split: if_splits)
  moreover have "{} \<union> {(x, lv). fmlookup (Txids sample_delta) x = Some lv} = {(500000, 9)}"
    "{} \<union> block_leases 5 sample_delta = {(5, sample_lease, 9)}"
    by (auto simp: sample_delta_def block_leases_def split: if_splits)
  ultimately have "tail_history 1000 {(500000, 9)} {(5, sample_lease, 9)} 4 (newBlock sample_block sample_delta ?t)" by simp
  then have "tail_history 1000 {(500000, 9)} {(5, sample_lease, 9)} (max 4 5) sample_tail"
    unfolding sample_tail_def by (rule tail_history.commit) (simp add: newBlock_recent r)
  then show ?thesis by simp
qed

theorem tail_answers_from_history_witness:
  "tail_isDup sample_tail v19 6 5 9 500000 (sample_lease\<lparr>lease := 0\<rparr>) = Some (Ok True) \<and>
   tail_isDup sample_tail v19 6 5 8 400000 sample_lease = Some (Ok True) \<and>
   tail_isDup sample_tail v19 6 6 8 500000 sample_lease = Some (Ok False) \<and>
   tail_isDup sample_tail v19 10 5 12 400000 sample_lease = Some (Ok False) \<and>
   tail_isDup sample_tail v19 6 3 4 500000 sample_lease = Some (Err (Errorf ''txTail: tried to check for dup in missing round''))"
proof -
  have low: "lowWaterMark sample_tail = 5" by code_simp
  have leases: "SupportTransactionLeases v19" "lease sample_lease = 3" by code_simp+
  note tail_answers_from_history [OF sample_history, of _ _ v19]
  then show ?thesis by (auto simp: low leases)
qed

text \<open>
  C10: The duplicate check always ends, with one exception: when it searches a lease that no remembered round holds for a
  transaction whose last valid round is the greatest 64-bit number, the loop over the valid rounds never leaves.
\<close>

theorem isDup_hangs_iff:
  "tail_isDup t proto current firstValid lastValid txid txl = None \<longleftrightarrow>
     lastValid = - 1 \<and> SupportTransactionLeases proto \<and> lease txl \<noteq> 0 \<and> (\<nexists>r. lease_held t current txl r)"
proof -
  have "\<not> (- 1 :: u64) < lowWaterMark t" by (simp add: not_less)
  then show ?thesis
    using lease_scan_ends [of t current txl lastValid firstValid]
    by (auto simp: tail_isDup_def split: option.splits bool.splits)
qed

text \<open>
  C4: However blocks arrive and rounds are written to the database, the account tracker
  answers every lookup in its range as the history of all accounts after every round: an account as it was
  after that round, and the creator of an asset as of that round.
\<close>

theorem tracker_refines_history:
  assumes "tracker_reaches rt hist chist au" and "codec_ok rt" and "roundOffset au rnd = Ok off"
  shows "(\<exists>d. au_lookup au rnd a False = Ok d \<and> same_account d (hist (unat rnd) a)) \<and>
    res_opt (getAssetCreatorForRound au rnd i) = chist (unat rnd) i"
  using au_lookup_hist getAssetCreator_hist tracker_reaches_tracks [OF assms(1,2)] assms(3) by blast

theorem tracker_refines_history_witness:
  "\<exists>d. au_lookup sample_tracker 4 1 False = Ok d \<and> same_account d (sample_account 10000000)"
proof -
  have "tracker_reaches id (\<lambda>_. sample_money) (\<lambda>_ _. None) sample_tracker"
    by (rule tracker_reaches.loaded [OF sample_tracks]) (simp add: sample_tracker_def)
  moreover have "codec_ok id" by (simp add: codec_ok_def)
  moreover have "roundOffset sample_tracker 4 = Ok 0" by (simp add: roundOffset_def sample_tracker_def)
  ultimately show ?thesis
    using tracker_refines_history [of id "\<lambda>_. sample_money" "\<lambda>_ _. None" sample_tracker 4 0 1] by (simp add: sample_money_def)
qed

section \<open>Protocol upgrades\<close>

text \<open>
  C7: The protocol of a chain changes only to the version last proposed in it, in the round announced for the
  switch, and only when at least the threshold of blocks since the proposal approved of it.
\<close>

theorem upgrade_needs_approvals:
  assumes "upgrade_reachable r s votes" and "r < 2 ^ 63" and "applyUpgradeVote s (r + 1) vote = Ok s'"
    and "CurrentProtocol s' \<noteq> CurrentProtocol s"
  shows "CurrentProtocol s' = last_proposal votes \<and> NextProtocolSwitchOn s = r + 1 \<and>
    unat (UpgradeThreshold (Consensus_or_zero (CurrentProtocol s))) \<le> approval_count votes"
  using upgrade_reachable_ok [OF assms(1)] upgrade_step [OF _ assms(2,3)] assms(4) by (auto simp: votes_ok_def word_le_nat_alt)

lemma test_votes:
  "applyUpgradeVote test_start 1 test_vote = Ok test_pending"
  "applyUpgradeVote test_pending 2 UpgradeVote_zero = Ok test_pending"
  "applyUpgradeVote test_pending 3 UpgradeVote_zero = Ok test_pending"
  "applyUpgradeVote test_pending 4 UpgradeVote_zero = Ok test_pending"
  "applyUpgradeVote test_pending 5 UpgradeVote_zero = Ok (test_start\<lparr>CurrentProtocol := ConsensusTest1\<rparr>)"
  by code_simp+

theorem upgrade_needs_approvals_witness:
  "ConsensusTest1 = last_proposal [UpgradeVote_zero, UpgradeVote_zero, UpgradeVote_zero, test_vote] \<and>
   unat (UpgradeThreshold (Consensus_or_zero ConsensusTest0)) \<le> approval_count [UpgradeVote_zero, UpgradeVote_zero, UpgradeVote_zero, test_vote]"
proof -
  have "upgrade_reachable 0 test_start []"
    by (rule upgrade_reachable.start) (simp_all add: test_start_def UpgradeState_zero_def)
  then have "upgrade_reachable (0 + 1) test_pending [test_vote]"
    by (rule upgrade_reachable.step) (simp_all add: test_votes)
  then have "upgrade_reachable (0 + 1 + 1) test_pending [UpgradeVote_zero, test_vote]"
    by (rule upgrade_reachable.step) (simp_all add: test_votes)
  then have "upgrade_reachable (0 + 1 + 1 + 1) test_pending [UpgradeVote_zero, UpgradeVote_zero, test_vote]"
    by (rule upgrade_reachable.step) (simp_all add: test_votes)
  then have "upgrade_reachable (0 + 1 + 1 + 1 + 1) test_pending [UpgradeVote_zero, UpgradeVote_zero, UpgradeVote_zero, test_vote]"
    by (rule upgrade_reachable.step) (simp_all add: test_votes)
  then have "upgrade_reachable 4 test_pending [UpgradeVote_zero, UpgradeVote_zero, UpgradeVote_zero, test_vote]" by simp
  from upgrade_needs_approvals [OF this, of UpgradeVote_zero "test_start\<lparr>CurrentProtocol := ConsensusTest1\<rparr>"] show ?thesis
    using test_votes(5) by (simp add: test_pending_def ConsensusTest0_def ConsensusTest1_def)
qed

text \<open>
  C8: On a previous header whose upgrade state the upgrade rules can reach, with a round below \<open>2 ^ 63\<close> and a timestamp
  below \<open>2 ^ 62\<close>, \<open>MakeBlock\<close> builds a block and does not panic, unless the next round switches to a protocol this program does not
  support; SHA-256 digests have 32 bytes.  The upgrade state of the new header is again one the upgrade rules can reach, and the new
  header passes the checks against the previous one exactly when the previous header has a genesis ID and has a genesis hash
  just in case the protocol of the new block supports genesis hashes: \<open>MakeBlock\<close> copies the hash, and where support begins
  it is the evaluator that fills it in.
\<close>

theorem made_header_passes_PreCheck:
  assumes "Consensus (CurrentProtocol (bhUpgradeState prev)) = Some p"
    and "upgrade_ok (bhRound prev) (bhUpgradeState prev)" and "bhRound prev < 2 ^ 63"
    and "Consensus (NextProtocol (bhUpgradeState prev)) \<noteq> None \<or> NextProtocolSwitchOn (bhUpgradeState prev) \<noteq> bhRound prev + 1"
    and "length (sha256 Hs []) = 32" and "TimeStamp prev <s 2 ^ 62"
  shows "\<exists>blk. MakeBlock Hs now prev = Ok blk \<and> upgrade_ok (bhRound prev + 1) (bhUpgradeState (blkHeader blk)) \<and>
    (PreCheck Hs (blkHeader blk) prev = Ok () \<longleftrightarrow>
       bhGenesisID prev \<noteq> [] \<and> (SupportGenesisHash (ConsensusProtocol blk) \<longleftrightarrow> bhGenesisHash prev \<noteq> 0))"
  using assms by (rule MakeBlock_Ok)

lemma sample_made: "case MakeBlock sample_hashes 200 sample_prev of Ok blk \<Rightarrow> SupportGenesisHash (ConsensusProtocol blk) | _ \<Rightarrow> False"
  by code_simp

theorem made_header_passes_PreCheck_witness:
  "\<exists>blk. MakeBlock sample_hashes 200 sample_prev = Ok blk \<and> upgrade_ok 5 (bhUpgradeState (blkHeader blk)) \<and>
     PreCheck sample_hashes (blkHeader blk) sample_prev = Ok ()"
proof -
  have "Consensus (CurrentProtocol (bhUpgradeState sample_prev)) = Some v19"
    using sample_protocol by (simp add: sample_prev_def sample_block_def)
  moreover have "upgrade_ok (bhRound sample_prev) (bhUpgradeState sample_prev)"
    by (simp add: upgrade_ok_def sample_prev_def sample_state_def UpgradeState_zero_def)
  ultimately show ?thesis
    using made_header_passes_PreCheck [of sample_prev v19 sample_hashes 200] sample_made
    by (auto simp: sample_hashes_def sample_prev_def sample_state_def UpgradeState_zero_def)
qed

end
